(* ===== verification/Prelude.thy ===== *)
theory Prelude
  imports Main "HOL-Library.Monad_Syntax" "HOL-Library.Word"
begin

text \<open>
  What every component of the module runtime shares: the casts between the integer types of
  C, character strings as the bytes before a null character, the character classes of the C
  locale, singly linked lists, and the rules for total correctness of a routine that may have
  undefined behaviour.
\<close>

unbundle bit_operations_syntax

named_theorems wp \<open>total-correctness rules of the routines, applied backwards\<close>
named_theorems codes \<open>the values of the codes of the SQL/CLI\<close>

section \<open>Routines with undefined behaviour\<close>

text \<open>
  A routine takes the state and gives its result and the new state, or \<open>None\<close> when the C
  has undefined behaviour there (a null or dangling pointer, an index out of range, a buffer
  that overflows, the value of an uninitialised variable) or never returns. \<open>ok m Q\<close> says
  that it returns, without undefined behaviour, and that its result and state satisfy \<open>Q\<close>.
\<close>

definition ok :: "('a \<times> 's) option \<Rightarrow> ('a \<Rightarrow> 's \<Rightarrow> bool) \<Rightarrow> bool" where
  "ok m Q = (case m of None \<Rightarrow> False | Some (a, s) \<Rightarrow> Q a s)"

lemma ok_Some [simp]: "ok (Some (a, s)) Q = Q a s"
  by (simp add: ok_def)

lemma ok_Some_pair: "ok (Some x) Q = Q (fst x) (snd x)"
  by (cases x) simp

lemma ok_None [simp]: "\<not> ok None Q"
  by (simp add: ok_def)

lemma ok_bind [simp]: "ok (Option.bind m f) Q = ok m (\<lambda>a s. ok (f (a, s)) Q)"
  by (cases m) (auto simp: ok_def)

lemma ok_let [simp]: "ok (Let x f) Q = ok (f x) Q"
  by (simp add: Let_def)

lemma ok_if [simp]: "ok (if b then x else y) Q \<longleftrightarrow> (b \<longrightarrow> ok x Q) \<and> (\<not> b \<longrightarrow> ok y Q)"
  by simp

lemma ok_case_option [simp]:
  "ok (case x of None \<Rightarrow> y | Some v \<Rightarrow> f v) Q \<longleftrightarrow>
     (x = None \<longrightarrow> ok y Q) \<and> (\<forall>v. x = Some v \<longrightarrow> ok (f v) Q)"
  by (cases x) auto

lemma ok_case_list [simp]:
  "ok (case xs of [] \<Rightarrow> y | x # xs' \<Rightarrow> f x xs') Q \<longleftrightarrow>
     (xs = [] \<longrightarrow> ok y Q) \<and> (\<forall>x xs'. xs = x # xs' \<longrightarrow> ok (f x xs') Q)"
  by (cases xs) auto

lemma ok_case_prod [simp]:
  "ok (case p of (x, y) \<Rightarrow> f x y) Q \<longleftrightarrow> (\<forall>x y. p = (x, y) \<longrightarrow> ok (f x y) Q)"
  by (cases p) auto

lemma ok_conseq: "ok m P \<Longrightarrow> (\<And>a s. P a s \<Longrightarrow> Q a s) \<Longrightarrow> ok m Q"
  by (auto simp: ok_def split: option.splits)

lemma ok_conj: "ok m P \<Longrightarrow> ok m Q \<Longrightarrow> ok m (\<lambda>a s. P a s \<and> Q a s)"
  by (auto simp: ok_def split: option.splits)

lemma ok_iff: "ok m Q \<longleftrightarrow> (\<exists>a s. m = Some (a, s) \<and> Q a s)"
  by (auto simp: ok_def split: option.splits)

lemma okD: "ok m Q \<Longrightarrow> m = Some (a, s) \<Longrightarrow> Q a s"
  by simp

lemma okE:
  assumes "ok m Q"
  obtains a s where "m = Some (a, s)" "Q a s"
  using assms by (auto simp: ok_iff)

text \<open>\<open>wlp m Q\<close>: if it returns, without undefined behaviour, then its result and state satisfy \<open>Q\<close>.\<close>

definition wlp :: "('a \<times> 's) option \<Rightarrow> ('a \<Rightarrow> 's \<Rightarrow> bool) \<Rightarrow> bool" where
  "wlp m Q \<longleftrightarrow> (\<forall>a s. m = Some (a, s) \<longrightarrow> Q a s)"

lemma wlp_simps [simp]:
  "wlp (Some (a, s)) Q = Q a s"
  "wlp None Q"
  "wlp (Let x f) Q = wlp (f x) Q"
  "wlp (if b then m else m') Q \<longleftrightarrow> (b \<longrightarrow> wlp m Q) \<and> (\<not> b \<longrightarrow> wlp m' Q)"
  by (auto simp: wlp_def)

lemma wlp_case_option [simp]:
  "wlp (case x of None \<Rightarrow> m | Some v \<Rightarrow> f v) Q \<longleftrightarrow>
     (x = None \<longrightarrow> wlp m Q) \<and> (\<forall>v. x = Some v \<longrightarrow> wlp (f v) Q)"
  by (cases x) auto

lemma wlp_case_list [simp]:
  "wlp (case xs of [] \<Rightarrow> m | x # xs' \<Rightarrow> f x xs') Q \<longleftrightarrow>
     (xs = [] \<longrightarrow> wlp m Q) \<and> (\<forall>x xs'. xs = x # xs' \<longrightarrow> wlp (f x xs') Q)"
  by (cases xs) auto

lemma wlp_case_sum [simp]:
  "wlp (case x of Inl a \<Rightarrow> f a | Inr b \<Rightarrow> g b) Q \<longleftrightarrow>
     (\<forall>a. x = Inl a \<longrightarrow> wlp (f a) Q) \<and> (\<forall>b. x = Inr b \<longrightarrow> wlp (g b) Q)"
  by (cases x) auto

lemma wlp_case_prod [simp]:
  "wlp (case p of (x, y) \<Rightarrow> f x y) Q \<longleftrightarrow> (\<forall>x y. p = (x, y) \<longrightarrow> wlp (f x y) Q)"
  by (cases p) auto

text \<open>A value that is computed without the state, or is undefined.\<close>

lemma wlp_value: fixes m :: "'v option" shows "wlp (Option.bind m f) Q \<longleftrightarrow> (\<forall>x. m = Some x \<longrightarrow> wlp (f x) Q)"
  by (cases m) auto

lemmas wlp_values [simp] = wlp_value [where 'v = string] wlp_value [where 'v = int]
  wlp_value [where 'v = bool]

lemma wlp_bind [simp]: "wlp (Option.bind m f) Q = wlp m (\<lambda>a s. wlp (f (a, s)) Q)"
  by (cases m) (auto simp: wlp_def)

lemma wlp_any: "(\<And>a s. Q a s) \<Longrightarrow> wlp m Q"
  by (simp add: wlp_def)

lemma wlp_conseq: "wlp m P \<Longrightarrow> (\<And>a s. P a s \<Longrightarrow> Q a s) \<Longrightarrow> wlp m Q"
  by (auto simp: wlp_def)

lemma ok_wlp: "ok m P \<Longrightarrow> wlp m Q \<Longrightarrow> ok m (\<lambda>a s. P a s \<and> Q a s)"
  by (auto simp: wlp_def ok_iff)

section \<open>Integers\<close>

text \<open>
  A conversion to SQLSMALLINT (\<open>int16_t\<close>) or SQLINTEGER (\<open>int32_t\<close>) wraps around.
\<close>

definition cast16 :: "int \<Rightarrow> int" where
  "cast16 x = (x + 2 ^ 15) mod 2 ^ 16 - 2 ^ 15"

definition cast32 :: "int \<Rightarrow> int" where
  "cast32 x = (x + 2 ^ 31) mod 2 ^ 32 - 2 ^ 31"

lemma centred_mod_eq_iff:
  fixes h :: int
  assumes "0 < h"
  shows "(x + h) mod (2 * h) - h = x \<longleftrightarrow> - h \<le> x \<and> x < h"
proof
  assume "(x + h) mod (2 * h) - h = x"
  then have "(x + h) mod (2 * h) = x + h" by simp
  with assms pos_mod_sign [of "2 * h" "x + h"] pos_mod_bound [of "2 * h" "x + h"]
  show "- h \<le> x \<and> x < h" by auto
qed (simp add: mod_pos_pos_trivial)

lemma cast16_eq_iff: "cast16 x = x \<longleftrightarrow> - (2 ^ 15) \<le> x \<and> x < 2 ^ 15"
  using centred_mod_eq_iff [of "2 ^ 15" x] by (simp add: cast16_def)

lemma cast32_eq_iff: "cast32 x = x \<longleftrightarrow> - (2 ^ 31) \<le> x \<and> x < 2 ^ 31"
  using centred_mod_eq_iff [of "2 ^ 31" x] by (simp add: cast32_def)

lemma cast16_id: "- (2 ^ 15) \<le> x \<Longrightarrow> x < 2 ^ 15 \<Longrightarrow> cast16 x = x"
  by (simp add: cast16_eq_iff)

lemma cast32_id: "- (2 ^ 31) \<le> x \<Longrightarrow> x < 2 ^ 31 \<Longrightarrow> cast32 x = x"
  by (simp add: cast32_eq_iff)

lemma cast32_idem [simp]: "cast32 (cast32 x) = cast32 x"
  by (simp add: cast32_def)

lemma cast32_0 [simp]: "cast32 0 = 0"
  by (simp add: cast32_def)

lemma cast32_range: "- (2 ^ 31) \<le> cast32 x" "cast32 x < 2 ^ 31"
  by (simp_all add: cast32_def)

text \<open>
  Signed arithmetic on SQLINTEGER that overflows is undefined.
\<close>

definition int32 :: "int \<Rightarrow> int option" where
  "int32 x = (if - (2 ^ 31) \<le> x \<and> x < 2 ^ 31 then Some x else None)"

text \<open>The sizes of the C data types on a platform where a long is 64 bits (LP64).\<close>

definition sizeof_short :: int where [simp]: "sizeof_short = 2"
definition sizeof_int :: int where [simp]: "sizeof_int = 4"
definition sizeof_long :: int where [simp]: "sizeof_long = 8"

section \<open>Character strings\<close>

text \<open>
  A C string is the bytes before its null character. \<open>in_buffer n s\<close> is what is read back
  from a buffer of \<open>n\<close> bytes in which a routine of the SQL/CLI returned \<open>s\<close>: the routine
  never writes more than \<open>n\<close> bytes and always ends them with a null character (Character
  string retrieval, ISO/IEC 9075-3, 5.9). \<open>strcpy n s\<close> copies \<open>s\<close> to an array of \<open>n\<close>
  bytes, which is undefined if it does not fit.
\<close>

definition NUL :: char where "NUL = CHR 0x00"

definition cstr :: "string \<Rightarrow> string" where
  "cstr s = takeWhile (\<lambda>c. c \<noteq> NUL) s"

definition in_buffer :: "nat \<Rightarrow> string \<Rightarrow> string" where
  "in_buffer n s = take (n - 1) (cstr s)"

definition strcpy :: "nat \<Rightarrow> string \<Rightarrow> string option" where
  "strcpy n s = (if length s < n then Some s else None)"

lemma length_in_buffer: "length (in_buffer n s) \<le> n - 1"
  by (simp add: in_buffer_def)

lemma length_in_buffer_less: "0 < n \<Longrightarrow> length (in_buffer n s) < n"
  using length_in_buffer [of n s] by linarith

lemma NUL_notin_cstr: "NUL \<notin> set (cstr s)"
  by (auto simp: cstr_def dest: set_takeWhileD)

lemma NUL_notin_in_buffer: "NUL \<notin> set (in_buffer n s)"
  using NUL_notin_cstr by (auto simp: in_buffer_def dest: in_set_takeD)

text \<open>The character classes of \<open>ctype.h\<close> in the C locale.\<close>

definition octet :: "char \<Rightarrow> nat" where
  "octet c = of_char c"

definition isdigit :: "char \<Rightarrow> bool" where
  "isdigit c \<longleftrightarrow> 48 \<le> octet c \<and> octet c \<le> 57"

definition isupper :: "char \<Rightarrow> bool" where
  "isupper c \<longleftrightarrow> 65 \<le> octet c \<and> octet c \<le> 90"

definition islower :: "char \<Rightarrow> bool" where
  "islower c \<longleftrightarrow> 97 \<le> octet c \<and> octet c \<le> 122"

definition isalpha :: "char \<Rightarrow> bool" where
  "isalpha c \<longleftrightarrow> isupper c \<or> islower c"

definition isalnum :: "char \<Rightarrow> bool" where
  "isalnum c \<longleftrightarrow> isalpha c \<or> isdigit c"

definition isspace :: "char \<Rightarrow> bool" where
  "isspace c \<longleftrightarrow> octet c = 32 \<or> (9 \<le> octet c \<and> octet c \<le> 13)"

definition toupper :: "char \<Rightarrow> char" where
  "toupper c = (if islower c then char_of (octet c - 32) else c)"

lemma octet_toupper: "octet (toupper c) = (if islower c then octet c - 32 else octet c)"
  by (auto simp: toupper_def octet_def islower_def of_char_mod_256)

lemma toupper_idem [simp]: "toupper (toupper c) = toupper c"
proof (cases "islower c")
  case True
  then have "\<not> islower (toupper c)"
    by (auto simp: islower_def octet_toupper)
  then show ?thesis by (simp add: toupper_def [of "toupper c"])
qed (simp add: toupper_def)

lemma isalpha_toupper [simp]: "isalpha (toupper c) = isalpha c"
  by (auto simp: isalpha_def isupper_def islower_def octet_toupper)

lemma isdigit_toupper [simp]: "isdigit (toupper c) = isdigit c"
  by (auto simp: isdigit_def islower_def octet_toupper)

lemma toupper_eq_other: "\<not> isalpha d \<Longrightarrow> toupper c = d \<longleftrightarrow> c = d"
  by (metis isalpha_def isalpha_toupper toupper_def)

text \<open>
  UTF-8: a character is an octet that starts it and up to three continuation octets
  (\<open>10xxxxxx\<close>). \<open>utf8_piece s\<close> holds for every piece of a UTF-8 string, which can start or end
  in the middle of a character: there are never more than three continuation octets together.
\<close>

definition continuation :: "char \<Rightarrow> bool" where
  "continuation c \<longleftrightarrow> octet c AND 0xC0 = 0x80"

fun utf8_from :: "nat \<Rightarrow> string \<Rightarrow> bool" where
  "utf8_from n [] = True"
| "utf8_from n (c # cs) =
     (if continuation c then 0 < n \<and> utf8_from (n - 1) cs else utf8_from 3 cs)"

definition utf8_piece :: "string \<Rightarrow> bool" where
  "utf8_piece s = utf8_from 3 s"

lemma utf8_from_length:
  "utf8_from n s \<Longrightarrow> length s \<le> 4 * length (filter (\<lambda>c. \<not> continuation c) s) + n"
proof (induction n s rule: utf8_from.induct)
  case (2 n c cs)
  then show ?case by (auto split: if_splits)
qed simp

lemma utf8_from_append: "utf8_from n (s @ t) \<Longrightarrow> utf8_from n s"
  by (induction n s rule: utf8_from.induct) (auto split: if_splits)

lemma utf8_piece_take: "utf8_piece s \<Longrightarrow> utf8_piece (take n s)"
  using utf8_from_append [of 3 "take n s" "drop n s"] by (simp add: utf8_piece_def)

lemma utf8_piece_in_buffer: "utf8_piece s \<Longrightarrow> utf8_piece (in_buffer n s)"
  using utf8_from_append [of 3 "cstr s" "dropWhile (\<lambda>c. c \<noteq> NUL) s"]
  by (simp add: in_buffer_def utf8_piece_take) (simp add: utf8_piece_def cstr_def utf8_piece_take [unfolded utf8_piece_def])

section \<open>Singly linked lists\<close>

text \<open>
  A linked list is the list of its elements. A pointer to a link of it (\<open>struct x **p\<close>) is
  the position of the element that the link points to, which is the length of the list for
  the last link (the one that is NULL). \<open>link P xs\<close> follows the links to the first element
  that satisfies \<open>P\<close>, \<open>deref_link xs i\<close> is \<open>*p\<close>, and \<open>unlink i xs\<close> is
  \<open>*p = (*p)->next\<close>.
\<close>

fun link :: "('a \<Rightarrow> bool) \<Rightarrow> 'a list \<Rightarrow> nat" where
  "link P [] = 0"
| "link P (x # xs) = (if P x then 0 else Suc (link P xs))"

definition deref_link :: "'a list \<Rightarrow> nat \<Rightarrow> 'a option" where
  "deref_link xs i = (if i < length xs then Some (xs ! i) else None)"

definition unlink :: "nat \<Rightarrow> 'a list \<Rightarrow> 'a list" where
  "unlink i xs = take i xs @ drop (Suc i) xs"

lemma link_le: "link P xs \<le> length xs"
  by (induction xs) auto

lemma deref_link_find: "deref_link xs (link P xs) = List.find P xs"
  by (induction xs) (auto simp: deref_link_def)

lemma unlink_link_remove1:
  "unlink (link P xs) xs = (case List.find P xs of None \<Rightarrow> xs | Some x \<Rightarrow> remove1 x xs)"
proof (induction xs)
  case Nil
  then show ?case by (simp add: unlink_def)
next
  case (Cons x xs)
  then show ?case
    by (auto simp: unlink_def split: option.splits dest: find_Some_iff [THEN iffD1])
qed

lemma unlink_link_key:
  "distinct (map f xs) \<Longrightarrow> k \<notin> f ` set (unlink (link (\<lambda>x. f x = k) xs) xs)"
  by (induction xs) (auto simp: unlink_def)

lemma set_unlink_subset: "set (unlink i xs) \<subseteq> set xs"
  by (auto simp: unlink_def dest: in_set_takeD in_set_dropD)

lemma map_unlink: "map f (unlink i xs) = unlink i (map f xs)"
  by (simp add: unlink_def take_map drop_map)

lemma distinct_unlink: "distinct xs \<Longrightarrow> distinct (unlink i xs)"
proof (cases "i < length xs")
  case True
  moreover assume "distinct xs"
  ultimately have "distinct (take i xs @ xs ! i # drop (Suc i) xs)"
    by (simp add: id_take_nth_drop [symmetric])
  then show ?thesis by (simp add: unlink_def)
qed (simp add: unlink_def)

lemma distinct_map_unlink: "distinct (map f xs) \<Longrightarrow> distinct (map f (unlink i xs))"
  by (simp add: map_unlink distinct_unlink)

end
