(* ===== verification/Libvsql.thy ===== *)
theory Libvsql
  imports Prelude "HOL-Library.Multiset"
begin

text \<open>
  The SQL/CLI (ISO/IEC 9075-3) as \<open>libvsql/libvsql.h\<close> declares it: the codes that the module
  runtime uses, the C values that cross the interface, and the routines that it calls. The
  routines are implemented by the V program, so here they are a parameter: a record of
  functions over an arbitrary state \<open>'w\<close> of the database and of the handles of libvsql.
\<close>

section \<open>Codes\<close>

definition SQL_NULL_DATA :: int where [codes]: "SQL_NULL_DATA = -1"
definition SQL_NTS :: int where [codes]: "SQL_NTS = -3"

definition SQL_SUCCESS :: int where [codes]: "SQL_SUCCESS = 0"
definition SQL_SUCCESS_WITH_INFO :: int where [codes]: "SQL_SUCCESS_WITH_INFO = 1"
definition SQL_NO_DATA :: int where [codes]: "SQL_NO_DATA = 100"
definition SQL_ERROR :: int where [codes]: "SQL_ERROR = -1"

definition SQL_HANDLE_ENV :: int where [codes]: "SQL_HANDLE_ENV = 1"
definition SQL_HANDLE_DBC :: int where [codes]: "SQL_HANDLE_DBC = 2"
definition SQL_HANDLE_STMT :: int where [codes]: "SQL_HANDLE_STMT = 3"
definition SQL_NULL_HANDLE :: int where [codes]: "SQL_NULL_HANDLE = 0"

definition SQL_CHAR :: int where [codes]: "SQL_CHAR = 1"
definition SQL_NUMERIC :: int where [codes]: "SQL_NUMERIC = 2"
definition SQL_DECIMAL :: int where [codes]: "SQL_DECIMAL = 3"
definition SQL_INTEGER :: int where [codes]: "SQL_INTEGER = 4"
definition SQL_SMALLINT :: int where [codes]: "SQL_SMALLINT = 5"
definition SQL_FLOAT :: int where [codes]: "SQL_FLOAT = 6"
definition SQL_REAL :: int where [codes]: "SQL_REAL = 7"
definition SQL_DOUBLE :: int where [codes]: "SQL_DOUBLE = 8"
definition SQL_DATETIME :: int where [codes]: "SQL_DATETIME = 9"
definition SQL_VARCHAR :: int where [codes]: "SQL_VARCHAR = 12"
definition SQL_BOOLEAN :: int where [codes]: "SQL_BOOLEAN = 16"
definition SQL_BIGINT :: int where [codes]: "SQL_BIGINT = 25"

definition SQL_CODE_DATE :: int where [codes]: "SQL_CODE_DATE = 1"

definition SQL_TYPE_DATE :: int where [codes]: "SQL_TYPE_DATE = 91"
definition SQL_TYPE_TIMESTAMP_WITH_TIMEZONE :: int where
  [codes]: "SQL_TYPE_TIMESTAMP_WITH_TIMEZONE = 95"

definition SQL_DIAG_NUMBER :: int where [codes]: "SQL_DIAG_NUMBER = 2"
definition SQL_DIAG_ROW_COUNT :: int where [codes]: "SQL_DIAG_ROW_COUNT = 3"
definition SQL_DIAG_DYNAMIC_FUNCTION :: int where [codes]: "SQL_DIAG_DYNAMIC_FUNCTION = 7"
definition SQL_DIAG_DYNAMIC_FUNCTION_CODE :: int where
  [codes]: "SQL_DIAG_DYNAMIC_FUNCTION_CODE = 12"
definition SQL_DIAG_MORE :: int where [codes]: "SQL_DIAG_MORE = 13"
definition SQL_DIAG_TRANSACTIONS_COMMITTED :: int where
  [codes]: "SQL_DIAG_TRANSACTIONS_COMMITTED = 34"
definition SQL_DIAG_TRANSACTIONS_ROLLED_BACK :: int where
  [codes]: "SQL_DIAG_TRANSACTIONS_ROLLED_BACK = 35"
definition SQL_DIAG_TRANSACTION_ACTIVE :: int where [codes]: "SQL_DIAG_TRANSACTION_ACTIVE = 36"
definition SQL_DIAG_SQLSTATE :: int where [codes]: "SQL_DIAG_SQLSTATE = 4"
definition SQL_DIAG_MESSAGE_TEXT :: int where [codes]: "SQL_DIAG_MESSAGE_TEXT = 6"
definition SQL_DIAG_CLASS_ORIGIN :: int where [codes]: "SQL_DIAG_CLASS_ORIGIN = 8"
definition SQL_DIAG_SUBCLASS_ORIGIN :: int where [codes]: "SQL_DIAG_SUBCLASS_ORIGIN = 9"
definition SQL_DIAG_CONNECTION_NAME :: int where [codes]: "SQL_DIAG_CONNECTION_NAME = 10"
definition SQL_DIAG_SERVER_NAME :: int where [codes]: "SQL_DIAG_SERVER_NAME = 11"
definition SQL_DIAG_CONSTRAINT_CATALOG :: int where [codes]: "SQL_DIAG_CONSTRAINT_CATALOG = 15"
definition SQL_DIAG_CONSTRAINT_SCHEMA :: int where [codes]: "SQL_DIAG_CONSTRAINT_SCHEMA = 16"
definition SQL_DIAG_CONSTRAINT_NAME :: int where [codes]: "SQL_DIAG_CONSTRAINT_NAME = 17"
definition SQL_DIAG_CURSOR_NAME :: int where [codes]: "SQL_DIAG_CURSOR_NAME = 22"
definition SQL_DIAG_MESSAGE_LENGTH :: int where [codes]: "SQL_DIAG_MESSAGE_LENGTH = 23"
definition SQL_DIAG_MESSAGE_OCTET_LENGTH :: int where
  [codes]: "SQL_DIAG_MESSAGE_OCTET_LENGTH = 24"

definition SQL_COMMIT :: int where [codes]: "SQL_COMMIT = 0"
definition SQL_ROLLBACK :: int where [codes]: "SQL_ROLLBACK = 1"
definition SQL_TRANSACTION_READ_WRITE :: int where [codes]: "SQL_TRANSACTION_READ_WRITE = 2"
definition SQL_TRANSACTION_READ_COMMITTED :: int where
  [codes]: "SQL_TRANSACTION_READ_COMMITTED = 2"

definition SQL_PARAM_MODE_IN :: int where [codes]: "SQL_PARAM_MODE_IN = 1"
definition SQL_ATTR_CURSOR_HOLDABLE :: int where [codes]: "SQL_ATTR_CURSOR_HOLDABLE = -3"
definition SQL_NONHOLDABLE :: int where [codes]: "SQL_NONHOLDABLE = 0"
definition SQL_HOLDABLE :: int where [codes]: "SQL_HOLDABLE = 1"

definition SQL_DESC_TYPE :: int where [codes]: "SQL_DESC_TYPE = 1002"
definition SQL_DESC_LENGTH :: int where [codes]: "SQL_DESC_LENGTH = 1003"
definition SQL_DESC_PRECISION :: int where [codes]: "SQL_DESC_PRECISION = 1005"
definition SQL_DESC_SCALE :: int where [codes]: "SQL_DESC_SCALE = 1006"
definition SQL_DESC_DATETIME_INTERVAL_CODE :: int where
  [codes]: "SQL_DESC_DATETIME_INTERVAL_CODE = 1007"
definition SQL_DESC_NULLABLE :: int where [codes]: "SQL_DESC_NULLABLE = 1008"
definition SQL_DESC_NAME :: int where [codes]: "SQL_DESC_NAME = 1011"
definition SQL_DESC_UNNAMED :: int where [codes]: "SQL_DESC_UNNAMED = 1012"
definition SQL_DESC_OCTET_LENGTH :: int where [codes]: "SQL_DESC_OCTET_LENGTH = 1013"
definition SQL_DESC_COLLATION_CATALOG :: int where [codes]: "SQL_DESC_COLLATION_CATALOG = 1015"
definition SQL_DESC_COLLATION_SCHEMA :: int where [codes]: "SQL_DESC_COLLATION_SCHEMA = 1016"
definition SQL_DESC_COLLATION_NAME :: int where [codes]: "SQL_DESC_COLLATION_NAME = 1017"
definition SQL_DESC_CHARACTER_SET_CATALOG :: int where
  [codes]: "SQL_DESC_CHARACTER_SET_CATALOG = 1018"
definition SQL_DESC_CHARACTER_SET_SCHEMA :: int where
  [codes]: "SQL_DESC_CHARACTER_SET_SCHEMA = 1019"
definition SQL_DESC_CHARACTER_SET_NAME :: int where
  [codes]: "SQL_DESC_CHARACTER_SET_NAME = 1020"

section \<open>C values\<close>

text \<open>
  The value of a host variable, of DATA of an item descriptor area, or of a target of
  SQLGetData, with the C type it was written with: reading it with another type is undefined.
  The bits of a float or double are only copied. \<open>CUninit\<close> is allocated memory that has not
  been written.
\<close>

datatype cval =
    CUninit
  | CShort int
  | CInt int
  | CLong int
  | CBigint int
  | CReal "32 word"
  | CDouble "64 word"
  | CText string

text \<open>The C type that a value retrieved as \<open>TargetType\<close> has.\<close>

definition has_c_type :: "int \<Rightarrow> cval \<Rightarrow> bool" where
  "has_c_type t v \<longleftrightarrow>
     (case v of
        CUninit \<Rightarrow> False
      | CShort _ \<Rightarrow> t = SQL_SMALLINT
      | CInt n \<Rightarrow> t = SQL_INTEGER \<and> cast32 n = n
      | CLong _ \<Rightarrow> False
      | CBigint _ \<Rightarrow> t = SQL_BIGINT
      | CReal _ \<Rightarrow> t = SQL_REAL
      | CDouble _ \<Rightarrow> t = SQL_DOUBLE
      | CText _ \<Rightarrow> t = SQL_CHAR)"

section \<open>Routines\<close>

text \<open>
  Each routine takes its input arguments and gives its return code and its output arguments.
  An output argument is \<open>None\<close> when the routine does not write it. SQLGetDiagField and
  SQLColAttribute, whose output is a string or a number, are two routines here.
\<close>

record 'w cli =
  SQLAllocHandle :: "int \<Rightarrow> int \<Rightarrow> 'w \<Rightarrow> (int \<times> int) \<times> 'w"
  SQLBindParameter ::
    "int \<Rightarrow> int \<Rightarrow> int \<Rightarrow> int \<Rightarrow> int \<Rightarrow> int \<Rightarrow> int \<Rightarrow> cval \<Rightarrow> int \<Rightarrow> 'w \<Rightarrow> int \<times> 'w"
  SQLCloseCursor :: "int \<Rightarrow> 'w \<Rightarrow> int \<times> 'w"
  SQLColAttributeText :: "int \<Rightarrow> int \<Rightarrow> int \<Rightarrow> int \<Rightarrow> 'w \<Rightarrow> (int \<times> string option) \<times> 'w"
  SQLColAttributeInt :: "int \<Rightarrow> int \<Rightarrow> int \<Rightarrow> 'w \<Rightarrow> (int \<times> int option) \<times> 'w"
  SQLConnect :: "int \<Rightarrow> string \<Rightarrow> string option \<Rightarrow> 'w \<Rightarrow> int \<times> 'w"
  SQLDisconnect :: "int \<Rightarrow> 'w \<Rightarrow> int \<times> 'w"
  SQLEndTran :: "int \<Rightarrow> int \<Rightarrow> int \<Rightarrow> 'w \<Rightarrow> int \<times> 'w"
  SQLExecDirect :: "int \<Rightarrow> string \<Rightarrow> 'w \<Rightarrow> int \<times> 'w"
  SQLExecute :: "int \<Rightarrow> 'w \<Rightarrow> int \<times> 'w"
  SQLFetch :: "int \<Rightarrow> 'w \<Rightarrow> int \<times> 'w"
  SQLFreeHandle :: "int \<Rightarrow> int \<Rightarrow> 'w \<Rightarrow> int \<times> 'w"
  SQLGetData :: "int \<Rightarrow> int \<Rightarrow> int \<Rightarrow> int \<Rightarrow> bool \<Rightarrow> 'w \<Rightarrow> (int \<times> cval option \<times> int option) \<times> 'w"
  SQLGetDiagFieldText ::
    "int \<Rightarrow> int \<Rightarrow> int \<Rightarrow> int \<Rightarrow> int \<Rightarrow> 'w \<Rightarrow> (int \<times> string option) \<times> 'w"
  SQLGetDiagFieldInt :: "int \<Rightarrow> int \<Rightarrow> int \<Rightarrow> int \<Rightarrow> 'w \<Rightarrow> (int \<times> int option) \<times> 'w"
  SQLGetDiagRec ::
    "int \<Rightarrow> int \<Rightarrow> int \<Rightarrow> int \<Rightarrow> 'w \<Rightarrow> (int \<times> string option \<times> string option) \<times> 'w"
  SQLGetStmtAttr :: "int \<Rightarrow> int \<Rightarrow> 'w \<Rightarrow> (int \<times> int option) \<times> 'w"
  SQLNumResultCols :: "int \<Rightarrow> 'w \<Rightarrow> (int \<times> int option) \<times> 'w"
  SQLPrepare :: "int \<Rightarrow> string \<Rightarrow> 'w \<Rightarrow> int \<times> 'w"
  SQLSetCursorName :: "int \<Rightarrow> string \<Rightarrow> 'w \<Rightarrow> int \<times> 'w"
  SQLSetStmtAttr :: "int \<Rightarrow> int \<Rightarrow> int \<Rightarrow> 'w \<Rightarrow> int \<times> 'w"
  SQLStartTran :: "int \<Rightarrow> int \<Rightarrow> int \<Rightarrow> int \<Rightarrow> 'w \<Rightarrow> int \<times> 'w"

section \<open>What the runtime relies on\<close>

text \<open>
  The documented behaviour of the routines that the runtime relies on to read its output
  arguments: a routine that completes (with or without a warning) has written them. A column
  count is a nonnegative SQLSMALLINT. A value that is not null has the C type it was asked
  for, its length or indicator is not negative, and a null value is \<open>SQL_NULL_DATA\<close>. A
  character value that is retrieved in pieces ends. A diagnostics record that exists has a SQLSTATE of five characters, and its message when there is a buffer for it. A handle
  that is allocated is not the null handle, which is what is given when it can't be allocated.
\<close>

definition completed :: "int \<Rightarrow> bool" where
  "completed rc \<longleftrightarrow> rc = SQL_SUCCESS \<or> rc = SQL_SUCCESS_WITH_INFO"

definition writes_columns :: "'w cli \<Rightarrow> bool" where
  "writes_columns L \<longleftrightarrow>
     (\<forall>h w. case SQLNumResultCols L h w of ((rc, n), _) \<Rightarrow>
        completed rc \<longrightarrow> (\<exists>c. n = Some c \<and> 0 \<le> c \<and> c < 2 ^ 15))"

definition writes_attribute :: "'w cli \<Rightarrow> bool" where
  "writes_attribute L \<longleftrightarrow>
     (\<forall>h a w. case SQLGetStmtAttr L h a w of ((rc, v), _) \<Rightarrow> completed rc \<longrightarrow> v \<noteq> None)"

definition writes_data :: "'w cli \<Rightarrow> bool" where
  "writes_data L \<longleftrightarrow>
     (\<forall>h i t b ind w. case SQLGetData L h i t b ind w of ((rc, v, n), _) \<Rightarrow>
        completed rc \<longrightarrow>
          (ind \<and> n = Some SQL_NULL_DATA) \<or>
          ((\<exists>x. v = Some x \<and> has_c_type t x) \<and> (ind \<longrightarrow> (\<exists>k\<ge>0. n = Some k))))"

text \<open>
  A character value: \<open>\<mu> h i w\<close> is the number of octets of the value of column \<open>i\<close> that the next
  call retrieves from, which fits in an SQLINTEGER, and is less after a piece of it (a warning).
  The octets are UTF-8. Nothing is written when it fails.
\<close>

definition retrieves_text :: "'w cli \<Rightarrow> (int \<Rightarrow> int \<Rightarrow> 'w \<Rightarrow> nat) \<Rightarrow> bool" where
  "retrieves_text L \<mu> \<longleftrightarrow>
     (\<forall>h i b ind w. 2 \<le> b \<longrightarrow> \<mu> h i w < 2 ^ 31 \<and> (case SQLGetData L h i SQL_CHAR b ind w of
        ((rc, v, _), w') \<Rightarrow>
          (completed rc \<longrightarrow> (\<forall>x. v = Some (CText x) \<longrightarrow> utf8_piece x \<and>
            length (in_buffer (nat b) x) + (if rc = SQL_SUCCESS_WITH_INFO then \<mu> h i w' else 0)
              \<le> \<mu> h i w)) \<and>
          (\<not> completed rc \<longrightarrow> v = None) \<and>
          (rc = SQL_SUCCESS_WITH_INFO \<longrightarrow> \<mu> h i w' < \<mu> h i w)))"

definition writes_records :: "'w cli \<Rightarrow> bool" where
  "writes_records L \<longleftrightarrow>
     (\<forall>t h i w. case SQLGetDiagRec L t h i 0 w of ((rc, st, _), w') \<Rightarrow>
        completed rc \<longrightarrow>
          (\<exists>c. st = Some c \<and> length c = 5) \<and>
          (\<forall>b>0. \<exists>rc' c m w''. SQLGetDiagRec L t h i b w' = ((rc', Some c, Some m), w'') \<and>
             length c = 5))"

definition gives_handles :: "'w cli \<Rightarrow> bool" where
  "gives_handles L \<longleftrightarrow>
     (\<forall>t p w. case SQLAllocHandle L t p w of ((rc, h), _) \<Rightarrow> completed rc \<longleftrightarrow> h \<noteq> SQL_NULL_HANDLE)"

definition cli_contract :: "'w cli \<Rightarrow> bool" where
  "cli_contract L \<longleftrightarrow> writes_columns L \<and> writes_attribute L \<and> writes_data L \<and>
     (\<exists>\<mu>. retrieves_text L \<mu>) \<and> writes_records L \<and> gives_handles L"

text \<open>
  Two limits that are not documented, and that the runtime needs: the message of a record fits in
  the buffer length of SQLGetDiagRec, which is a SQLSMALLINT (see \<open>vsql_m_diag\<close>), and a result
  has fewer columns than the largest SQLSMALLINT (see \<open>vsql_m_describe\<close>).
\<close>

definition short_messages :: "'w cli \<Rightarrow> bool" where
  "short_messages L \<longleftrightarrow>
     (\<forall>t h i w n. snd (fst (SQLGetDiagFieldInt L t h i SQL_DIAG_MESSAGE_OCTET_LENGTH w)) = Some n
        \<longrightarrow> 0 \<le> n \<and> n < 2 ^ 15 - 1)"

definition few_columns :: "'w cli \<Rightarrow> bool" where
  "few_columns L \<longleftrightarrow>
     (\<forall>h w. snd (fst (SQLNumResultCols L h w)) \<noteq> Some (2 ^ 15 - 1))"

definition within_limits :: "'w cli \<Rightarrow> bool" where
  "within_limits L \<longleftrightarrow> short_messages L \<and> few_columns L"

section \<open>Rules\<close>

lemma writes_columnsD:
  "writes_columns L \<Longrightarrow> SQLNumResultCols L h w = ((rc, n), w') \<Longrightarrow> completed rc \<Longrightarrow>
   \<exists>c. n = Some c \<and> 0 \<le> c \<and> c < 2 ^ 15"
  unfolding writes_columns_def by (drule spec [of _ h], drule spec [of _ w]) simp

lemma writes_attributeD:
  "writes_attribute L \<Longrightarrow> SQLGetStmtAttr L h a w = ((rc, v), w') \<Longrightarrow> completed rc \<Longrightarrow> \<exists>x. v = Some x"
  unfolding writes_attribute_def
  by (drule spec [of _ h], drule spec [of _ a], drule spec [of _ w]) auto

lemma writes_dataD:
  "writes_data L \<Longrightarrow> SQLGetData L h i t b ind w = ((rc, v, n), w') \<Longrightarrow> completed rc \<Longrightarrow>
   (ind \<and> n = Some SQL_NULL_DATA) \<or>
   ((\<exists>x. v = Some x \<and> has_c_type t x) \<and> (ind \<longrightarrow> (\<exists>k\<ge>0. n = Some k)))"
  unfolding writes_data_def
  by (drule spec [of _ h], drule spec [of _ i], drule spec [of _ t], drule spec [of _ b],
      drule spec [of _ ind], drule spec [of _ w]) simp

lemma retrieves_textD:
  assumes "retrieves_text L \<mu>" "2 \<le> b" "SQLGetData L h i SQL_CHAR b ind w = ((rc, v, n), w')"
  shows "\<mu> h i w < 2 ^ 31"
    "completed rc \<Longrightarrow> v = Some (CText x) \<Longrightarrow> utf8_piece x \<and> length (in_buffer (nat b) x) +
      (if rc = SQL_SUCCESS_WITH_INFO then \<mu> h i w' else 0) \<le> \<mu> h i w"
    "rc = SQL_SUCCESS_WITH_INFO \<Longrightarrow> \<mu> h i w' < \<mu> h i w"
    "\<not> completed rc \<Longrightarrow> v = None"
proof -
  have "\<mu> h i w < 2 ^ 31 \<and>
      (completed rc \<longrightarrow> (\<forall>x. v = Some (CText x) \<longrightarrow> utf8_piece x \<and>
        length (in_buffer (nat b) x) + (if rc = SQL_SUCCESS_WITH_INFO then \<mu> h i w' else 0)
          \<le> \<mu> h i w)) \<and>
      (\<not> completed rc \<longrightarrow> v = None) \<and>
      (rc = SQL_SUCCESS_WITH_INFO \<longrightarrow> \<mu> h i w' < \<mu> h i w)"
    using assms unfolding retrieves_text_def
    by (elim allE [of _ h] allE [of _ i] allE [of _ b] allE [of _ ind] allE [of _ w]) simp
  then show "\<mu> h i w < 2 ^ 31"
    "completed rc \<Longrightarrow> v = Some (CText x) \<Longrightarrow> utf8_piece x \<and> length (in_buffer (nat b) x) +
      (if rc = SQL_SUCCESS_WITH_INFO then \<mu> h i w' else 0) \<le> \<mu> h i w"
    "rc = SQL_SUCCESS_WITH_INFO \<Longrightarrow> \<mu> h i w' < \<mu> h i w"
    "\<not> completed rc \<Longrightarrow> v = None"
    by blast+
qed

lemma writes_recordsD:
  assumes "writes_records L" "SQLGetDiagRec L t h i 0 w = ((rc, st, m), w')" "completed rc"
  shows "\<exists>c. st = Some c \<and> length c = 5"
    and "0 < b \<Longrightarrow> SQLGetDiagRec L t h i b w' = ((rc', st', m'), w'') \<Longrightarrow>
      \<exists>c x. st' = Some c \<and> length c = 5 \<and> m' = Some x"
proof -
  have "(\<exists>c. st = Some c \<and> length c = 5) \<and>
      (\<forall>b>0. \<exists>rc' c m w''. SQLGetDiagRec L t h i b w' = ((rc', Some c, Some m), w'') \<and>
        length c = 5)"
    using assms unfolding writes_records_def
    by (elim allE [of _ t] allE [of _ h] allE [of _ i] allE [of _ w]) simp
  then show "\<exists>c. st = Some c \<and> length c = 5"
    and "0 < b \<Longrightarrow> SQLGetDiagRec L t h i b w' = ((rc', st', m'), w'') \<Longrightarrow>
      \<exists>c x. st' = Some c \<and> length c = 5 \<and> m' = Some x"
    by force+
qed

lemma short_messagesD:
  "short_messages L \<Longrightarrow>
   SQLGetDiagFieldInt L t h i SQL_DIAG_MESSAGE_OCTET_LENGTH w = ((rc, Some n), w') \<Longrightarrow>
   0 \<le> n \<and> n < 2 ^ 15 - 1"
  unfolding short_messages_def
  by (drule spec [of _ t], drule spec [of _ h], drule spec [of _ i], drule spec [of _ w],
      drule spec [of _ n]) simp

lemma few_columnsD:
  "few_columns L \<Longrightarrow> SQLNumResultCols L h w = ((rc, Some n), w') \<Longrightarrow> n \<noteq> 2 ^ 15 - 1"
  unfolding few_columns_def by (drule spec [of _ h], drule spec [of _ w]) simp

lemma gives_handlesD:
  "gives_handles L \<Longrightarrow> SQLAllocHandle L t p w = ((rc, h), w') \<Longrightarrow> completed rc \<longleftrightarrow> h \<noteq> SQL_NULL_HANDLE"
  unfolding gives_handles_def
  by (drule spec [of _ t], drule spec [of _ p], drule spec [of _ w]) simp

lemma cli_contractD:
  assumes "cli_contract L"
  shows "writes_columns L" "writes_attribute L" "writes_data L" "writes_records L"
    "\<exists>\<mu>. retrieves_text L \<mu>" "gives_handles L"
  using assms by (simp_all add: cli_contract_def)

section \<open>Handles\<close>

text \<open>
  Each handle must be freed with SQLFreeHandle, and a routine must be given a handle that is
  allocated. \<open>J M w\<close> says that \<open>M\<close> are the handles (with their types) that have been allocated
  and not freed when the state of libvsql is \<open>w\<close>. It is only kept by a routine that is used as
  the SQL/CLI says, so a proof that the runtime keeps \<open>J\<close> shows that it never uses a handle
  that it has not allocated or has freed already.
\<close>

type_synonym handles = "(int \<times> int) multiset"

definition preserves :: "(handles \<Rightarrow> 'w \<Rightarrow> bool) \<Rightarrow> handles \<Rightarrow> ('w \<Rightarrow> 'a \<times> 'w) \<Rightarrow> bool" where
  "preserves J M f \<longleftrightarrow> (\<forall>w. J M w \<longrightarrow> J M (snd (f w)))"

definition allocates ::
  "(handles \<Rightarrow> 'w \<Rightarrow> bool) \<Rightarrow> handles \<Rightarrow> int \<Rightarrow> ('w \<Rightarrow> (int \<times> int) \<times> 'w) \<Rightarrow> bool" where
  "allocates J M t f \<longleftrightarrow> (\<forall>w. J M w \<longrightarrow> (case f w of ((rc, h), w') \<Rightarrow>
     J (if completed rc then add_mset (t, h) M else M) w'))"

definition parent :: "int \<Rightarrow> int \<Rightarrow> handles \<Rightarrow> bool" where
  "parent t p M \<longleftrightarrow> t = SQL_HANDLE_ENV \<or> t = SQL_HANDLE_DBC \<and> (SQL_HANDLE_ENV, p) \<in># M \<or>
     t = SQL_HANDLE_STMT \<and> (SQL_HANDLE_DBC, p) \<in># M"

named_theorems uses \<open>what a routine of the SQL/CLI needs of its handle\<close>

text \<open>
  The interface between the runtime and libvsql: the routines, and what is known of the handles.
\<close>

locale handle_monitor =
  fixes L :: "'w cli" and J :: "handles \<Rightarrow> 'w \<Rightarrow> bool"
  assumes alloc: "parent t p M \<Longrightarrow> allocates J M t (SQLAllocHandle L t p)"
    and free: "J M w \<Longrightarrow> (t, h) \<in># M \<Longrightarrow> J (M - {#(t, h)#}) (snd (SQLFreeHandle L t h w))"
    and diag [uses]: "(t, h) \<in># M \<Longrightarrow> preserves J M (SQLGetDiagRec L t h i b)"
      "(t, h) \<in># M \<Longrightarrow> preserves J M (SQLGetDiagFieldText L t h i f b)"
      "(t, h) \<in># M \<Longrightarrow> preserves J M (SQLGetDiagFieldInt L t h i f)"
    and dbc [uses]: "(SQL_HANDLE_DBC, c) \<in># M \<Longrightarrow> preserves J M (SQLConnect L c v u)"
      "(SQL_HANDLE_DBC, c) \<in># M \<Longrightarrow> preserves J M (SQLDisconnect L c)"
      "(SQL_HANDLE_DBC, c) \<in># M \<Longrightarrow> preserves J M (SQLEndTran L SQL_HANDLE_DBC c k)"
      "(SQL_HANDLE_DBC, c) \<in># M \<Longrightarrow> preserves J M (SQLStartTran L SQL_HANDLE_DBC c a l)"
    and stmt [uses]: "(SQL_HANDLE_STMT, q) \<in># M \<Longrightarrow> preserves J M (SQLExecDirect L q x)"
      "(SQL_HANDLE_STMT, q) \<in># M \<Longrightarrow> preserves J M (SQLPrepare L q x)"
      "(SQL_HANDLE_STMT, q) \<in># M \<Longrightarrow> preserves J M (SQLExecute L q)"
      "(SQL_HANDLE_STMT, q) \<in># M \<Longrightarrow> preserves J M (SQLFetch L q)"
      "(SQL_HANDLE_STMT, q) \<in># M \<Longrightarrow> preserves J M (SQLCloseCursor L q)"
      "(SQL_HANDLE_STMT, q) \<in># M \<Longrightarrow> preserves J M (SQLSetCursorName L q x)"
      "(SQL_HANDLE_STMT, q) \<in># M \<Longrightarrow> preserves J M (SQLSetStmtAttr L q at n)"
      "(SQL_HANDLE_STMT, q) \<in># M \<Longrightarrow> preserves J M (SQLGetStmtAttr L q at)"
      "(SQL_HANDLE_STMT, q) \<in># M \<Longrightarrow> preserves J M (SQLNumResultCols L q)"
      "(SQL_HANDLE_STMT, q) \<in># M \<Longrightarrow> preserves J M (SQLColAttributeText L q i f b)"
      "(SQL_HANDLE_STMT, q) \<in># M \<Longrightarrow> preserves J M (SQLColAttributeInt L q i f)"
      "(SQL_HANDLE_STMT, q) \<in># M \<Longrightarrow> preserves J M (SQLGetData L q i ct b ind)"
      "(SQL_HANDLE_STMT, q) \<in># M \<Longrightarrow>
        preserves J M (SQLBindParameter L q i io vt pt sz sc cv n)"

text \<open>
  The module runtime, linked with a libvsql that behaves as it is documented. \<open>cursor_count m\<close>
  is the \<open>vsql_m_cursor_count\<close> of the module with the address \<open>m\<close>.
\<close>

locale runtime = handle_monitor L J
  for L :: "'w cli" and J :: "handles \<Rightarrow> 'w \<Rightarrow> bool" +
  fixes cursor_count :: "nat \<Rightarrow> nat"
  assumes contract: "cli_contract L" and limits: "within_limits L"
begin

lemma short: "short_messages L" and few: "few_columns L"
  using limits by (simp_all add: within_limits_def)

end

end
