(* ===== verification/State.thy ===== *)
theory State
  imports Libvsql
begin

text \<open>
  The data of the module runtime (\<open>std_2_13_1_sql_client_module_definition.c\<close>): the
  SQL-connections with the cursors, prepared statements and SQL descriptor areas of their
  SQL-sessions, the first diagnostics area, and the state that the routines read and change.
\<close>

section \<open>SQL descriptor areas\<close>

datatype number_component =
    VSQL_M_TYPE
  | VSQL_M_LENGTH
  | VSQL_M_OCTET_LENGTH
  | VSQL_M_PRECISION
  | VSQL_M_SCALE
  | VSQL_M_DATETIME_INTERVAL_CODE
  | VSQL_M_DATETIME_INTERVAL_PRECISION
  | VSQL_M_NULLABLE
  | VSQL_M_UNNAMED
  | VSQL_M_LEVEL
  | VSQL_M_KEY_MEMBER
  | VSQL_M_INDICATOR
  | VSQL_M_RETURNED_LENGTH
  | VSQL_M_RETURNED_OCTET_LENGTH
  | VSQL_M_CARDINALITY
  | VSQL_M_DEGREE
  | VSQL_M_PARAMETER_MODE
  | VSQL_M_PARAMETER_ORDINAL_POSITION
  | VSQL_M_RETURNED_CARDINALITY
  | VSQL_M_USER_DEFINED_TYPE_CODE

datatype string_component =
    VSQL_M_NAME
  | VSQL_M_CHARACTER_SET_CATALOG
  | VSQL_M_CHARACTER_SET_SCHEMA
  | VSQL_M_CHARACTER_SET_NAME
  | VSQL_M_COLLATION_CATALOG
  | VSQL_M_COLLATION_SCHEMA
  | VSQL_M_COLLATION_NAME
  | VSQL_M_PARAMETER_SPECIFIC_CATALOG
  | VSQL_M_PARAMETER_SPECIFIC_SCHEMA
  | VSQL_M_PARAMETER_SPECIFIC_NAME
  | VSQL_M_SCOPE_CATALOG
  | VSQL_M_SCOPE_SCHEMA
  | VSQL_M_SCOPE_NAME
  | VSQL_M_USER_DEFINED_TYPE_CATALOG
  | VSQL_M_USER_DEFINED_TYPE_SCHEMA
  | VSQL_M_USER_DEFINED_TYPE_NAME

text \<open>
  The components are the indexes of the arrays of an item, so the predicates on all of them compute.
\<close>

instantiation number_component :: enum
begin

definition enum_number_component :: "number_component list" where
  "enum_number_component =
    [VSQL_M_TYPE, VSQL_M_LENGTH, VSQL_M_OCTET_LENGTH, VSQL_M_PRECISION, VSQL_M_SCALE,
     VSQL_M_DATETIME_INTERVAL_CODE, VSQL_M_DATETIME_INTERVAL_PRECISION, VSQL_M_NULLABLE,
     VSQL_M_UNNAMED, VSQL_M_LEVEL, VSQL_M_KEY_MEMBER, VSQL_M_INDICATOR, VSQL_M_RETURNED_LENGTH,
     VSQL_M_RETURNED_OCTET_LENGTH, VSQL_M_CARDINALITY, VSQL_M_DEGREE, VSQL_M_PARAMETER_MODE,
     VSQL_M_PARAMETER_ORDINAL_POSITION, VSQL_M_RETURNED_CARDINALITY,
     VSQL_M_USER_DEFINED_TYPE_CODE]"

definition enum_all_number_component :: "(number_component \<Rightarrow> bool) \<Rightarrow> bool" where
  "enum_all_number_component P \<longleftrightarrow> list_all P enum_class.enum"

definition enum_ex_number_component :: "(number_component \<Rightarrow> bool) \<Rightarrow> bool" where
  "enum_ex_number_component P \<longleftrightarrow> list_ex P enum_class.enum"

instance
proof
  have all: "c \<in> set enum_class.enum" for c :: number_component
    by (cases c) (simp_all add: enum_number_component_def)
  then show univ: "UNIV = set (enum_class.enum :: number_component list)" by auto
  show "distinct (enum_class.enum :: number_component list)"
    by (simp add: enum_number_component_def)
  show "enum_class.enum_all P \<longleftrightarrow> Ball UNIV P" "enum_class.enum_ex P \<longleftrightarrow> Bex UNIV P"
    for P :: "number_component \<Rightarrow> bool"
    by (simp_all add: enum_all_number_component_def enum_ex_number_component_def list_all_iff list_ex_iff univ)
qed

end

instantiation string_component :: enum
begin

definition enum_string_component :: "string_component list" where
  "enum_string_component =
    [VSQL_M_NAME, VSQL_M_CHARACTER_SET_CATALOG, VSQL_M_CHARACTER_SET_SCHEMA,
     VSQL_M_CHARACTER_SET_NAME, VSQL_M_COLLATION_CATALOG, VSQL_M_COLLATION_SCHEMA,
     VSQL_M_COLLATION_NAME, VSQL_M_PARAMETER_SPECIFIC_CATALOG,
     VSQL_M_PARAMETER_SPECIFIC_SCHEMA, VSQL_M_PARAMETER_SPECIFIC_NAME, VSQL_M_SCOPE_CATALOG,
     VSQL_M_SCOPE_SCHEMA, VSQL_M_SCOPE_NAME, VSQL_M_USER_DEFINED_TYPE_CATALOG,
     VSQL_M_USER_DEFINED_TYPE_SCHEMA, VSQL_M_USER_DEFINED_TYPE_NAME]"

definition enum_all_string_component :: "(string_component \<Rightarrow> bool) \<Rightarrow> bool" where
  "enum_all_string_component P \<longleftrightarrow> list_all P enum_class.enum"

definition enum_ex_string_component :: "(string_component \<Rightarrow> bool) \<Rightarrow> bool" where
  "enum_ex_string_component P \<longleftrightarrow> list_ex P enum_class.enum"

instance
proof
  have all: "c \<in> set enum_class.enum" for c :: string_component
    by (cases c) (simp_all add: enum_string_component_def)
  then show univ: "UNIV = set (enum_class.enum :: string_component list)" by auto
  show "distinct (enum_class.enum :: string_component list)"
    by (simp add: enum_string_component_def)
  show "enum_class.enum_all P \<longleftrightarrow> Ball UNIV P" "enum_class.enum_ex P \<longleftrightarrow> Bex UNIV P"
    for P :: "string_component \<Rightarrow> bool"
    by (simp_all add: enum_all_string_component_def enum_ex_string_component_def list_all_iff list_ex_iff univ)
qed

end

text \<open>
  \<open>struct vsql_m_item\<close>. A string that is NULL is \<open>None\<close>, and so is DATA. The address of a
  module (\<open>const void *module\<close>) is a number, and \<open>None\<close> for a GLOBAL descriptor.
\<close>

record vsql_m_item =
  number :: "number_component \<Rightarrow> int"
  strings :: "string_component \<Rightarrow> string option"
  data :: "cval option"
  ind_length :: int

record vsql_m_descriptor =
  d_module :: "nat option"
  d_name :: string
  d_count :: int
  d_max :: int
  d_top_level_count :: int
  d_dynamic_function_code :: int
  d_dynamic_function :: string
  d_items :: "vsql_m_item list"

section \<open>SQL-connections\<close>

record vsql_m_prepared =
  p_module :: nat
  p_name :: string
  p_sql :: string
  p_stmt :: int
  p_dynamic_function :: string
  p_dynamic_function_code :: int

record vsql_m_cursors =
  m_module :: nat
  m_stmts :: "int list"
  m_n :: nat

text \<open>
  \<open>struct vsql_m_connection\<close>. \<open>c_address\<close> is its address, so a pointer to it is a number,
  and the list that it is linked in is a list of these records.
\<close>

record vsql_m_connection =
  c_address :: nat
  c_name :: string
  c_server :: "string option"
  c_is_default :: bool
  c_dbc :: int
  c_active :: bool
  c_module :: "nat option"
  c_cursors :: "vsql_m_cursors list"
  c_prepared :: "vsql_m_prepared list"
  c_descriptors :: "vsql_m_descriptor list"

section \<open>The first diagnostics area\<close>

record vsql_m_condition =
  k_sqlstate :: string
  k_message :: "string option"
  k_constraint_catalog :: "string option"
  k_constraint_schema :: "string option"
  k_constraint_name :: "string option"

text \<open>
  \<open>struct vsql_m_da\<close>. The array \<open>conditions\<close> always has \<open>number\<close> elements, so it is a list.
\<close>

record vsql_m_da =
  command_function :: string
  command_function_code :: int
  dynamic_function :: string
  dynamic_function_code :: int
  row_count :: int
  transactions_committed :: int
  transactions_rolled_back :: int
  conditions :: "vsql_m_condition list"
  connection_name :: string
  server_name :: "string option"
  cursor_name :: "string option"

section \<open>The state\<close>

text \<open>
  \<open>struct vsql_m_agent\<close> without its diagnostics area, and with the next address that \<open>calloc\<close>
  gives a connection and how often \<open>atexit\<close> has been called.
\<close>

record vsql_m_agent =
  ready :: bool
  env :: int
  connections :: "vsql_m_connection list"
  current :: "nat option"
  connected :: bool
  next_address :: nat
  atexits :: nat

text \<open>
  What a routine changes: the SQL-agent and the first diagnostics area, the status parameter of
  the procedure (every routine is given the same one), whether each of the next allocations
  succeeds (all of them do when the list is empty), and the state of libvsql.
\<close>

record 'w state =
  agent :: vsql_m_agent
  da :: vsql_m_da
  sqlstate :: string
  allocations :: "bool list"
  world :: 'w

text \<open>
  The static data of a module, which is generated before the runtime: the address of its
  \<open>vsql_m_own\<close>, its \<open>vsql_m_set_schema\<close>, \<open>vsql_m_cursor_names\<close> and
  \<open>vsql_m_cursor_statements\<close>.
\<close>

record vsql_m_module =
  own :: nat
  set_schema :: string
  cursor_names :: "string list"
  cursor_statements :: "string option list"

definition vsql_m_cursor_count :: "vsql_m_module \<Rightarrow> nat" where
  "vsql_m_cursor_count M = length (cursor_names M)"

section \<open>Primitive steps\<close>

text \<open>A call of a routine of the SQL/CLI only changes the state of libvsql.\<close>

definition call :: "('w \<Rightarrow> 'a \<times> 'w) \<Rightarrow> 'w state \<Rightarrow> ('a \<times> 'w state) option" where
  "call f s = (case f (world s) of (a, w) \<Rightarrow> Some (a, s\<lparr>world := w\<rparr>))"

text \<open>\<open>malloc\<close>, \<open>calloc\<close> and \<open>realloc\<close>: whether there is enough memory.\<close>

definition allocate :: "'w state \<Rightarrow> (bool \<times> 'w state) option" where
  "allocate s = (case allocations s of
     [] \<Rightarrow> Some (True, s)
   | b # bs \<Rightarrow> Some (b, s\<lparr>allocations := bs\<rparr>))"

text \<open>\<open>vsql_m_copy\<close> gives the string that \<open>*s\<close> is replaced with.\<close>

definition vsql_m_copy :: "string \<Rightarrow> 'w state \<Rightarrow> (string option \<times> 'w state) option" where
  "vsql_m_copy value s = do {
     (good, s) \<leftarrow> allocate s;
     Some (if good then Some value else None, s)
   }"

text \<open>
  Reading \<open>*c\<close> and writing to \<open>*c\<close>, for a pointer \<open>c\<close> to an SQL-connection. It is undefined
  when \<open>c\<close> is not the address of one. \<open>update c f a\<close> is the SQL-agent with \<open>*c\<close> changed.
\<close>

definition deref :: "nat \<Rightarrow> 'w state \<Rightarrow> (vsql_m_connection \<times> 'w state) option" where
  "deref c s = (case List.find (\<lambda>k. c_address k = c) (connections (agent s)) of
     None \<Rightarrow> None
   | Some k \<Rightarrow> Some (k, s))"

definition update ::
  "nat \<Rightarrow> (vsql_m_connection \<Rightarrow> vsql_m_connection) \<Rightarrow> vsql_m_agent \<Rightarrow> vsql_m_agent" where
  "update c f a =
     a\<lparr>connections := map (\<lambda>k. if c_address k = c then f k else k) (connections a)\<rparr>"

definition modify ::
  "nat \<Rightarrow> (vsql_m_connection \<Rightarrow> vsql_m_connection) \<Rightarrow> 'w state
    \<Rightarrow> (unit \<times> 'w state) option" where
  "modify c f s = do {
     (_, s) \<leftarrow> deref c s;
     Some ((), s\<lparr>agent := update c f (agent s)\<rparr>)
   }"

section \<open>The invariant\<close>

text \<open>
  The C type of DATA of an item descriptor area with a TYPE, which is what \<open>vsql_m_c_type\<close>
  gives. DATA that is not null has it. A component is a SQLINTEGER.
\<close>

definition item_c_type :: "int \<Rightarrow> int" where
  "item_c_type t =
     (if t = SQL_SMALLINT \<or> t = SQL_INTEGER \<or> t = SQL_BIGINT \<or> t = SQL_REAL then t
      else if t = SQL_FLOAT \<or> t = SQL_DOUBLE then SQL_DOUBLE
      else SQL_CHAR)"

definition wf_item :: "vsql_m_item \<Rightarrow> bool" where
  "wf_item i \<longleftrightarrow> number i VSQL_M_LEVEL = 0 \<and> (\<forall>n. cast32 (number i n) = number i n) \<and>
     (\<forall>v. data i = Some v \<longrightarrow> 0 \<le> number i VSQL_M_INDICATOR \<longrightarrow>
        has_c_type (item_c_type (number i VSQL_M_TYPE)) v)"

definition wf_descriptor :: "vsql_m_descriptor \<Rightarrow> bool" where
  "wf_descriptor d \<longleftrightarrow> 1 \<le> d_max d \<and> d_max d \<le> 32767 \<and> length (d_items d) = nat (d_max d) \<and>
     length (d_dynamic_function d) < 32 \<and> (\<forall>i\<in>set (d_items d). wf_item i)"

definition wf_cursors :: "(nat \<Rightarrow> nat) \<Rightarrow> vsql_m_cursors \<Rightarrow> bool" where
  "wf_cursors cc m \<longleftrightarrow> m_n m = cc (m_module m) \<and> length (m_stmts m) = Suc (m_n m) \<and>
     m_stmts m ! m_n m = 0"

definition d_key :: "vsql_m_descriptor \<Rightarrow> string \<times> nat option" where
  "d_key d = (d_name d, d_module d)"

definition p_key :: "vsql_m_prepared \<Rightarrow> string \<times> nat" where
  "p_key p = (p_name p, p_module p)"

definition wf_connection :: "(nat \<Rightarrow> nat) \<Rightarrow> vsql_m_connection \<Rightarrow> bool" where
  "wf_connection cc k \<longleftrightarrow> length (c_name k) < 129 \<and>
     distinct (map m_module (c_cursors k)) \<and> (\<forall>m\<in>set (c_cursors k). wf_cursors cc m) \<and>
     distinct (map p_key (c_prepared k)) \<and>
     (\<forall>p\<in>set (c_prepared k). length (p_dynamic_function p) < 32) \<and>
     distinct (map d_key (c_descriptors k)) \<and> (\<forall>d\<in>set (c_descriptors k). wf_descriptor d)"

text \<open>
  The arrays of the diagnostics area hold what is in them, with a null character, and every
  condition has a SQLSTATE of five characters.
\<close>

definition wf_da :: "vsql_m_da \<Rightarrow> bool" where
  "wf_da d \<longleftrightarrow> length (command_function d) < 32 \<and> length (dynamic_function d) < 32 \<and>
     length (connection_name d) < 129 \<and>
     (\<forall>c\<in>set (map k_sqlstate (conditions d)). length c = 5)"

definition wf_agent :: "(nat \<Rightarrow> nat) \<Rightarrow> vsql_m_agent \<Rightarrow> bool" where
  "wf_agent cc a \<longleftrightarrow> distinct (map c_address (connections a)) \<and>
     (\<forall>k\<in>set (connections a). c_address k < next_address a \<and> wf_connection cc k) \<and>
     (\<forall>c. current a = Some c \<longrightarrow> c \<in> c_address ` set (connections a)) \<and>
     (connections a \<noteq> [] \<longrightarrow> ready a)"

text \<open>The handles that the runtime has allocated and not freed, from its state.\<close>

definition held_cursors :: "vsql_m_cursors \<Rightarrow> handles" where
  "held_cursors m = image_mset (Pair SQL_HANDLE_STMT) (mset (filter (\<lambda>h. h \<noteq> 0) (m_stmts m)))"

definition held_connection :: "vsql_m_connection \<Rightarrow> handles" where
  "held_connection k =
     (if c_dbc k = 0 then {#} else {#(SQL_HANDLE_DBC, c_dbc k)#}) +
     sum_list (map held_cursors (c_cursors k)) +
     mset (map (\<lambda>p. (SQL_HANDLE_STMT, p_stmt p)) (c_prepared k))"

definition held :: "vsql_m_agent \<Rightarrow> handles" where
  "held a = (if ready a then {#(SQL_HANDLE_ENV, env a)#} else {#}) +
     sum_list (map held_connection (connections a))"

text \<open>
  The invariant, in the middle of a routine that has also allocated the handles \<open>X\<close>.
\<close>

definition invar ::
  "(handles \<Rightarrow> 'w \<Rightarrow> bool) \<Rightarrow> (nat \<Rightarrow> nat) \<Rightarrow> handles \<Rightarrow> 'w state \<Rightarrow> bool" where
  "invar J cc X s \<longleftrightarrow> wf_agent cc (agent s) \<and> wf_da (da s) \<and> J (held (agent s) + X) (world s)"

section \<open>Rules\<close>

text \<open>\<open>live c a\<close>: \<open>c\<close> is the address of an SQL-connection, which is \<open>lookup c a\<close>.\<close>

definition live :: "nat \<Rightarrow> vsql_m_agent \<Rightarrow> bool" where
  "live c a \<longleftrightarrow> c \<in> c_address ` set (connections a)"

definition lookup :: "nat \<Rightarrow> vsql_m_agent \<Rightarrow> vsql_m_connection" where
  "lookup c a = the (List.find (\<lambda>k. c_address k = c) (connections a))"

lemma find_live:
  "live c a \<Longrightarrow> List.find (\<lambda>k. c_address k = c) (connections a) = Some (lookup c a)"
  by (cases "List.find (\<lambda>k. c_address k = c) (connections a)")
    (auto simp: live_def lookup_def find_None_iff)

lemma lookup_mem:
  assumes "live c a"
  shows "lookup c a \<in> set (connections a)" "c_address (lookup c a) = c"
  using find_live [OF assms] by (fastforce simp: find_Some_iff)+

lemma deref_live: "live c (agent s) \<Longrightarrow> deref c s = Some (lookup c (agent s), s)"
  by (simp add: deref_def find_live)

lemma deref_ok:
  "live c (agent s) \<Longrightarrow> Q (lookup c (agent s)) s \<Longrightarrow> ok (deref c s) Q"
  by (simp add: deref_live)

lemma wf_agent_current: "wf_agent cc a \<Longrightarrow> current a = Some c \<Longrightarrow> live c a"
  by (simp add: wf_agent_def live_def)

lemma wf_agent_lookup: "wf_agent cc a \<Longrightarrow> live c a \<Longrightarrow> wf_connection cc (lookup c a)"
  by (simp add: wf_agent_def lookup_mem)

lemma invar_wf_agent: "invar J cc X s \<Longrightarrow> wf_agent cc (agent s)"
  by (simp add: invar_def)

lemma invar_wf_da: "invar J cc X s \<Longrightarrow> wf_da (da s)"
  by (simp add: invar_def)

lemma invar_da: "invar J cc X s \<Longrightarrow> wf_da d \<Longrightarrow> invar J cc X (s\<lparr>da := d\<rparr>)"
  by (simp add: invar_def)

lemma invar_current: "invar J cc X s \<Longrightarrow> current (agent s) = Some c \<Longrightarrow> live c (agent s)"
  by (rule wf_agent_current [OF invar_wf_agent])

lemma invar_lookup: "invar J cc X s \<Longrightarrow> live c (agent s) \<Longrightarrow> wf_connection cc (lookup c (agent s))"
  by (rule wf_agent_lookup [OF invar_wf_agent])

text \<open>A change of a connection that keeps its address.\<close>

lemma update_simps [simp]:
  "ready (update c f a) = ready a" "env (update c f a) = env a"
  "current (update c f a) = current a" "connected (update c f a) = connected a"
  "next_address (update c f a) = next_address a" "atexits (update c f a) = atexits a"
  by (simp_all add: update_def)

definition keeps_address :: "(vsql_m_connection \<Rightarrow> vsql_m_connection) \<Rightarrow> bool" where
  [simp]: "keeps_address f \<longleftrightarrow> (\<forall>k. c_address (f k) = c_address k)"

lemma map_update_address:
  "keeps_address f \<Longrightarrow>
   map c_address (map (\<lambda>k. if c_address k = c then f k else k) ks) = map c_address ks"
  by simp

lemma live_update: "keeps_address f \<Longrightarrow> live d (update c f a) = live d a"
  by (simp add: live_def update_def map_update_address flip: set_map del: list.map_comp map_map)

lemma lookup_update:
  assumes "keeps_address f" "live d a"
  shows "lookup d (update c f a) = (if d = c then f (lookup d a) else lookup d a)"
proof -
  have "List.find (\<lambda>k. c_address k = d) (map (\<lambda>k. if c_address k = c then f k else k) ks) =
      map_option (\<lambda>k. if c_address k = c then f k else k) (List.find (\<lambda>k. c_address k = d) ks)" for ks
    using assms(1) by (induction ks) auto
  moreover obtain k where "List.find (\<lambda>k. c_address k = d) (connections a) = Some k"
    using find_live [OF assms(2)] by blast
  moreover from this have "c_address k = d" by (auto simp: find_Some_iff)
  ultimately show ?thesis by (auto simp: lookup_def update_def)
qed

lemma wf_agent_update:
  assumes "wf_agent cc a" "keeps_address f"
    and "live c a \<Longrightarrow> wf_connection cc (lookup c a) \<Longrightarrow> wf_connection cc (f (lookup c a))"
  shows "wf_agent cc (update c f a)"
proof -
  have f: "wf_connection cc (f k)" if "k \<in> set (connections a)" "c_address k = c" for k
  proof -
    have "live c a" using that by (auto simp: live_def)
    moreover have "k = lookup c a"
      using lookup_mem [OF \<open>live c a\<close>] that assms(1)
      by (auto simp: wf_agent_def distinct_map dest!: inj_onD)
    ultimately show ?thesis using assms(1,3) wf_agent_lookup by metis
  qed
  have "map c_address (connections (update c f a)) = map c_address (connections a)"
    using assms(2) by (simp add: update_def)
  then have "distinct (map c_address (connections (update c f a)))"
    "c_address ` set (connections (update c f a)) = c_address ` set (connections a)"
    using assms(1) by (auto simp: wf_agent_def simp flip: set_map)
  then show ?thesis
    using assms(1,2) f by (auto simp: wf_agent_def update_def)
qed

lemma held_update:
  assumes "wf_agent cc a" "live c a"
    and "held_connection (f (lookup c a)) + X' = held_connection (lookup c a) + X"
  shows "held (update c f a) + X' = held a + X"
proof -
  obtain ks ks' where ks: "connections a = ks @ lookup c a # ks'"
    using lookup_mem(1) [OF assms(2)] by (meson split_list)
  have c: "c_address (lookup c a) = c" using lookup_mem(2) [OF assms(2)] .
  with assms(1) have "c \<notin> c_address ` set ks" "c \<notin> c_address ` set ks'"
    unfolding wf_agent_def ks by (metis (no_types, lifting) disjoint_iff distinct.simps(2)
        distinct_append list.set_intros(1) list.simps(9) map_append set_map)+
  then have "map (\<lambda>k. if c_address k = c then f k else k) ks = ks"
    "map (\<lambda>k. if c_address k = c then f k else k) ks' = ks'"
    by (auto intro!: map_idI)
  then show ?thesis
    using assms(3) by (simp add: held_def update_def ks c ac_simps)
qed

text \<open>
  The SQL-connection \<open>c\<close> has the same cursors and prepared statements, and the same SQL-connection
  is the current one.
\<close>

definition same_session :: "nat \<Rightarrow> vsql_m_agent \<Rightarrow> vsql_m_agent \<Rightarrow> bool" where
  [simp]: "same_session c a a' \<longleftrightarrow> current a' = current a \<and> live c a' \<and> held a' = held a \<and>
     c_dbc (lookup c a') = c_dbc (lookup c a) \<and>
     c_cursors (lookup c a') = c_cursors (lookup c a) \<and>
     c_prepared (lookup c a') = c_prepared (lookup c a)"

text \<open>The handles that are held.\<close>

lemma held_connection_subset: "live c a \<Longrightarrow> held_connection (lookup c a) \<subseteq># held a"
proof -
  assume "live c a"
  then obtain ks ks' where "connections a = ks @ lookup c a # ks'"
    using lookup_mem(1) by (meson split_list)
  then show ?thesis by (simp add: held_def subset_mset.le_iff_add ac_simps)
qed

lemma held_dbc: "live c a \<Longrightarrow> c_dbc (lookup c a) \<noteq> 0 \<Longrightarrow>
    (SQL_HANDLE_DBC, c_dbc (lookup c a)) \<in># held a"
  using held_connection_subset [of c a] by (auto simp: held_connection_def dest: mset_subset_eqD)

lemma held_prepared: "live c a \<Longrightarrow> p \<in> set (c_prepared (lookup c a)) \<Longrightarrow>
    (SQL_HANDLE_STMT, p_stmt p) \<in># held a"
  using held_connection_subset [of c a] by (auto simp: held_connection_def dest!: mset_subset_eqD)

lemma held_stmt: "live c a \<Longrightarrow> m \<in> set (c_cursors (lookup c a)) \<Longrightarrow> h \<in> set (m_stmts m) \<Longrightarrow>
    h \<noteq> 0 \<Longrightarrow> (SQL_HANDLE_STMT, h) \<in># held a"
proof -
  assume "live c a" and m: "m \<in> set (c_cursors (lookup c a))" and "h \<in> set (m_stmts m)" "h \<noteq> 0"
  then have "(SQL_HANDLE_STMT, h) \<in># held_cursors m" by (auto simp: held_cursors_def)
  moreover obtain ms ms' where "c_cursors (lookup c a) = ms @ m # ms'"
    using m by (meson split_list)
  ultimately have "(SQL_HANDLE_STMT, h) \<in># held_connection (lookup c a)"
    by (simp add: held_connection_def)
  then show ?thesis
    using held_connection_subset [OF \<open>live c a\<close>] by (rule mset_subset_eqD [rotated])
qed

lemma held_env: "ready a \<Longrightarrow> (SQL_HANDLE_ENV, env a) \<in># held a"
  by (simp add: held_def)

text \<open>
  Calls, allocations and changes of an SQL-connection under the invariant. A call of a routine
  of the SQL/CLI that is allowed with the handles that are held leaves everything but the state
  of libvsql alone.
\<close>

lemma call_ok:
  "(\<And>a w. f (world s) = (a, w) \<Longrightarrow> Q a (s\<lparr>world := w\<rparr>)) \<Longrightarrow> ok (call f s) Q"
  by (auto simp: call_def split: prod.splits)

lemma allocate_ok:
  assumes "\<And>b bs. Q b (s\<lparr>allocations := bs\<rparr>)"
  shows "ok (allocate s) Q"
  using assms [of True "allocations s"] assms by (auto simp: allocate_def split: list.splits)

lemma vsql_m_copy_ok:
  assumes "\<And>v bs. v = None \<or> v = Some value \<Longrightarrow> Q v (s\<lparr>allocations := bs\<rparr>)"
  shows "ok (vsql_m_copy value s) Q"
  unfolding vsql_m_copy_def by (auto intro!: allocate_ok assms)

lemma allocate_enough: "allocations s = [] \<Longrightarrow> allocate s = Some (True, s)"
  by (simp add: allocate_def)

lemma vsql_m_copy_enough: "allocations s = [] \<Longrightarrow> vsql_m_copy v s = Some (Some v, s)"
  by (simp add: vsql_m_copy_def allocate_enough)

lemma strcpy_ok: "length v < n \<Longrightarrow> strcpy n v = Some v"
  by (simp add: strcpy_def)

lemma call_preserves:
  assumes "invar J cc X s" "preserves J (held (agent s) + X) f"
    and "\<And>a s'. f (world s) = (a, world s') \<Longrightarrow> invar J cc X s' \<Longrightarrow> agent s' = agent s \<Longrightarrow>
      da s' = da s \<Longrightarrow> sqlstate s' = sqlstate s \<Longrightarrow> Q a s'"
  shows "ok (call f s) Q"
proof -
  obtain a w where f: "f (world s) = (a, w)" by (metis surj_pair)
  have "J (held (agent s) + X) w"
    using assms(1,2) f by (auto simp: invar_def preserves_def dest!: spec [of _ "world s"])
  then have "invar J cc X (s\<lparr>world := w\<rparr>)"
    using assms(1) by (simp add: invar_def)
  then show ?thesis
    using f by (auto simp: call_def intro!: assms(3))
qed

lemma call_alloc:
  assumes "invar J cc X s" "allocates J (held (agent s) + X) t f"
    and "\<And>rc h s'. f (world s) = ((rc, h), world s') \<Longrightarrow> agent s' = agent s \<Longrightarrow>
      da s' = da s \<Longrightarrow> sqlstate s' = sqlstate s \<Longrightarrow>
      invar J cc (if completed rc then add_mset (t, h) X else X) s' \<Longrightarrow> Q (rc, h) s'"
  shows "ok (call f s) Q"
proof -
  obtain rc h w where f: "f (world s) = ((rc, h), w)" by (metis surj_pair)
  have "J (if completed rc then add_mset (t, h) (held (agent s) + X) else held (agent s) + X) w"
    using assms(1,2) f by (auto simp: invar_def allocates_def dest!: spec [of _ "world s"])
  then have "invar J cc (if completed rc then add_mset (t, h) X else X) (s\<lparr>world := w\<rparr>)"
    using assms(1) by (simp add: invar_def split: if_splits)
  then show ?thesis
    using f by (auto simp: call_def intro!: assms(3))
qed

lemma allocate_invar [wp]:
  assumes "invar J cc X s"
    and "\<And>b s'. invar J cc X s' \<Longrightarrow> agent s' = agent s \<Longrightarrow> da s' = da s \<Longrightarrow>
      sqlstate s' = sqlstate s \<Longrightarrow> world s' = world s \<Longrightarrow> Q b s'"
  shows "ok (allocate s) Q"
  using assms(1) by (auto intro!: allocate_ok assms(2) simp: invar_def)

lemma vsql_m_copy_invar [wp]:
  assumes "invar J cc X s"
    and "\<And>v s'. invar J cc X s' \<Longrightarrow> agent s' = agent s \<Longrightarrow> da s' = da s \<Longrightarrow>
      sqlstate s' = sqlstate s \<Longrightarrow> world s' = world s \<Longrightarrow> v = None \<or> v = Some value \<Longrightarrow> Q v s'"
  shows "ok (vsql_m_copy value s) Q"
  unfolding vsql_m_copy_def by (auto intro!: allocate_invar [OF assms(1)] assms(2))

lemma modify_ok:
  "live c (agent s) \<Longrightarrow> Q () (s\<lparr>agent := update c f (agent s)\<rparr>) \<Longrightarrow> ok (modify c f s) Q"
  by (simp add: modify_def deref_live)

lemma modify_invar:
  assumes "invar J cc X s" "live c (agent s)" "keeps_address f"
    and "wf_connection cc (lookup c (agent s)) \<Longrightarrow> wf_connection cc (f (lookup c (agent s)))"
    and "held_connection (f (lookup c (agent s))) + X' = held_connection (lookup c (agent s)) + X"
    and "\<And>s'. invar J cc X' s' \<Longrightarrow> agent s' = update c f (agent s) \<Longrightarrow> da s' = da s \<Longrightarrow>
      sqlstate s' = sqlstate s \<Longrightarrow> world s' = world s \<Longrightarrow> Q () s'"
  shows "ok (modify c f s) Q"
proof -
  have "invar J cc X' (s\<lparr>agent := update c f (agent s)\<rparr>)"
    using assms(1-5) held_update [of cc "agent s" c f X' X] wf_agent_update [of cc "agent s" f c]
    by (simp add: invar_def)
  then show ?thesis
    by (auto intro!: modify_ok assms(2,6))
qed

end
