(* ===== verification/Diagnostics.thy ===== *)
theory Diagnostics
  imports State
begin

text \<open>
  The first diagnostics area: how a statement empties it, how a condition is raised in it or
  copied from the diagnostics area of a handle, and how the status parameter is set
  (\<open>std_2_13_1_sql_client_module_definition.c\<close>, section core). Every routine here only changes
  the diagnostics area, the status parameter, the allocator and the state of libvsql.
\<close>

section \<open>Routines\<close>

definition VSQL_M_INDICATOR_OVERFLOW :: int where [codes]: "VSQL_M_INDICATOR_OVERFLOW = -100"

definition vsql_m_failed :: "int \<Rightarrow> bool" where
  "vsql_m_failed rc \<longleftrightarrow> rc \<noteq> SQL_SUCCESS \<and> rc \<noteq> SQL_SUCCESS_WITH_INFO"

definition vsql_m_clear :: "'w state \<Rightarrow> 'w state" where
  "vsql_m_clear s = s\<lparr>da := (da s)\<lparr>conditions := []\<rparr>\<rparr>"

definition vsql_m_begin ::
  "string \<Rightarrow> int \<Rightarrow> 'w state \<Rightarrow> (unit \<times> 'w state) option" where
  "vsql_m_begin command code s = do {
     let s = vsql_m_clear s;
     command \<leftarrow> strcpy 32 command;
     Some ((), s\<lparr>da := (da s)\<lparr>
       command_function := command,
       command_function_code := code,
       dynamic_function := '''',
       dynamic_function_code := 0,
       row_count := 0,
       transactions_committed := 0,
       transactions_rolled_back := 0,
       cursor_name := None\<rparr>\<rparr>)
   }"

definition vsql_m_raise ::
  "string \<Rightarrow> string \<Rightarrow> 'w state \<Rightarrow> (unit \<times> 'w state) option" where
  "vsql_m_raise state message s = do {
     (good, s) \<leftarrow> allocate s;
     if \<not> good then Some ((), s)
     else do {
       (text, s) \<leftarrow> vsql_m_copy message s;
       let s = s\<lparr>da := (da s)\<lparr>conditions := conditions (da s) @
         [\<lparr>k_sqlstate = take 5 state, k_message = text, k_constraint_catalog = None,
           k_constraint_schema = None, k_constraint_name = None\<rparr>]\<rparr>\<rparr>;
       case current (agent s) of
         None \<Rightarrow> do {
           (server, s) \<leftarrow> vsql_m_copy '''' s;
           Some ((), s\<lparr>da := (da s)\<lparr>connection_name := '''', server_name := server\<rparr>\<rparr>)
         }
       | Some c \<Rightarrow> do {
           (k, s) \<leftarrow> deref c s;
           name \<leftarrow> strcpy 129 (if c_is_default k then ''DEFAULT'' else c_name k);
           (server, s) \<leftarrow> vsql_m_copy (case c_server k of None \<Rightarrow> '''' | Some v \<Rightarrow> v) s;
           Some ((), s\<lparr>da := (da s)\<lparr>connection_name := name, server_name := server\<rparr>\<rparr>)
         }
     }
   }"

definition vsql_m_messages :: "(string \<times> string) list" where
  "vsql_m_messages =
    [(''01000'', ''warning''),
     (''01004'', ''warning: string data, right truncation''),
     (''01005'', ''warning: insufficient item descriptor areas''),
     (''02000'', ''no data''),
     (''07001'', ''dynamic SQL error: using clause does not match dynamic parameter specifications''),
     (''07002'', ''dynamic SQL error: using clause does not match target specifications''),
     (''07003'', ''dynamic SQL error: cursor specification cannot be executed''),
     (''07004'', ''dynamic SQL error: using clause required for dynamic parameters''),
     (''07005'', ''dynamic SQL error: prepared statement not a cursor specification''),
     (''07007'', ''dynamic SQL error: using clause required for result fields''),
     (''07008'', ''dynamic SQL error: invalid descriptor count''),
     (''07009'', ''dynamic SQL error: invalid descriptor index''),
     (''0700E'', ''dynamic SQL error: invalid LEVEL value''),
     (''0700F'', ''dynamic SQL error: invalid DATETIME_INTERVAL_CODE''),
     (''08002'', ''connection exception: connection name in use''),
     (''08003'', ''connection exception: connection does not exist''),
     (''0A001'', ''feature not supported: multiple server transactions''),
     (''21000'', ''cardinality violation''),
     (''22002'', ''data exception: null value, no indicator parameter''),
     (''22003'', ''data exception: numeric value out of range''),
     (''22005'', ''data exception: error in assignment''),
     (''22010'', ''data exception: invalid indicator parameter value''),
     (''22022'', ''data exception: indicator overflow''),
     (''22024'', ''data exception: unterminated C string''),
     (''24000'', ''invalid cursor state''),
     (''25001'', ''invalid transaction state: active SQL-transaction''),
     (''26000'', ''invalid SQL statement name''),
     (''28000'', ''invalid authorization specification''),
     (''2E000'', ''invalid connection name''),
     (''33000'', ''invalid SQL descriptor name''),
     (''42000'', ''syntax error or access rule violation''),
     (''HY000'', ''CLI-specific condition: general error''),
     (''HY001'', ''CLI-specific condition: memory allocation error'')]"

definition vsql_m_message :: "string \<Rightarrow> string" where
  "vsql_m_message state = (case map_of vsql_m_messages state of None \<Rightarrow> '''' | Some m \<Rightarrow> m)"

definition vsql_m_sqlstate :: "string \<Rightarrow> 'w state \<Rightarrow> 'w state" where
  "vsql_m_sqlstate state s = s\<lparr>sqlstate := state\<rparr>"

definition vsql_m_status :: "string \<Rightarrow> 'w state \<Rightarrow> (unit \<times> 'w state) option" where
  "vsql_m_status state s = do {
     let s = vsql_m_clear (vsql_m_sqlstate state s);
     if state \<noteq> ''00000'' then vsql_m_raise state (vsql_m_message state) s
     else Some ((), s)
   }"

definition vsql_m_diag_text ::
  "'w cli \<Rightarrow> int \<Rightarrow> int \<Rightarrow> int \<Rightarrow> int \<Rightarrow> 'w state
    \<Rightarrow> (string option \<times> 'w state) option" where
  "vsql_m_diag_text L type handle i field s = do {
     ((_, v), s) \<leftarrow> call (SQLGetDiagFieldText L type handle i field 513) s;
     vsql_m_copy (case v of None \<Rightarrow> '''' | Some t \<Rightarrow> in_buffer 513 t) s
   }"

text \<open>The body of the loop of \<open>vsql_m_diag\<close> after a condition has been raised.\<close>

definition vsql_m_diag_constraint ::
  "'w cli \<Rightarrow> int \<Rightarrow> int \<Rightarrow> nat \<Rightarrow> 'w state \<Rightarrow> (unit \<times> 'w state) option" where
  "vsql_m_diag_constraint L type handle i s =
     (if length (conditions (da s)) \<noteq> i then Some ((), s)
      else do {
        (catalog, s) \<leftarrow> vsql_m_diag_text L type handle (cast16 (int i)) SQL_DIAG_CONSTRAINT_CATALOG s;
        (schema, s) \<leftarrow> vsql_m_diag_text L type handle (cast16 (int i)) SQL_DIAG_CONSTRAINT_SCHEMA s;
        (name, s) \<leftarrow> vsql_m_diag_text L type handle (cast16 (int i)) SQL_DIAG_CONSTRAINT_NAME s;
        Some ((), s\<lparr>da := (da s)\<lparr>conditions := (conditions (da s))[i - 1 :=
          ((conditions (da s)) ! (i - 1))\<lparr>k_constraint_catalog := catalog,
            k_constraint_schema := schema, k_constraint_name := name\<rparr>]\<rparr>\<rparr>)
      })"

text \<open>
  Record \<open>i\<close> of the diagnostics area of the handle, as its SQLSTATE and message, or \<open>None\<close> when
  there isn't one (the \<open>break\<close> of the loop of \<open>vsql_m_diag\<close>). The message is not initialised
  when SQLGetDiagRec does not write it.
\<close>

definition vsql_m_diag_record ::
  "'w cli \<Rightarrow> int \<Rightarrow> int \<Rightarrow> nat \<Rightarrow> 'w state
    \<Rightarrow> ((string \<times> string) option \<times> 'w state) option" where
  "vsql_m_diag_record L type handle i s = do {
     ((_, len), s) \<leftarrow> call (SQLGetDiagFieldInt L type handle (cast16 (int i))
       SQL_DIAG_MESSAGE_OCTET_LENGTH) s;
     let len = (case len of None \<Rightarrow> 0 | Some k \<Rightarrow> k);
     ((rc, state, _), s) \<leftarrow> call (SQLGetDiagRec L type handle (cast16 (int i)) 0) s;
     if vsql_m_failed rc then Some (None, s)
     else do {
       (good, s) \<leftarrow> allocate s;
       if \<not> good then (case state of None \<Rightarrow> None | Some c \<Rightarrow> Some (Some (c, ''''), s))
       else do {
         ((_, state', message), s) \<leftarrow>
           call (SQLGetDiagRec L type handle (cast16 (int i)) (cast16 (len + 1))) s;
         case (case state' of None \<Rightarrow> state | Some c \<Rightarrow> Some c) of
           None \<Rightarrow> None
         | Some c \<Rightarrow> (case message of
             None \<Rightarrow> None
           | Some m \<Rightarrow> Some (Some (c, in_buffer (nat (cast16 (len + 1))) m), s))
       }
     }
   }"

text \<open>
  The loop \<open>for (i = 1; i <= number; i++)\<close> of \<open>vsql_m_diag\<close>, for the \<open>n\<close> records from record
  \<open>i\<close>.
\<close>

fun vsql_m_diag_records ::
  "'w cli \<Rightarrow> int \<Rightarrow> int \<Rightarrow> nat \<Rightarrow> nat \<Rightarrow> 'w state \<Rightarrow> (unit \<times> 'w state) option" where
  "vsql_m_diag_records L type handle 0 i s = Some ((), s)"
| "vsql_m_diag_records L type handle (Suc n) i s = do {
     (record, s) \<leftarrow> vsql_m_diag_record L type handle i s;
     case record of
       None \<Rightarrow> Some ((), s)
     | Some (state, message) \<Rightarrow> do {
         (_, s) \<leftarrow> vsql_m_raise state message s;
         (_, s) \<leftarrow> vsql_m_diag_constraint L type handle i s;
         vsql_m_diag_records L type handle n (Suc i) s
       }
   }"

definition vsql_m_diag ::
  "'w cli \<Rightarrow> int \<Rightarrow> int \<Rightarrow> int \<Rightarrow> 'w state \<Rightarrow> (unit \<times> 'w state) option" where
  "vsql_m_diag L rc type handle s =
     (if rc = SQL_SUCCESS then vsql_m_status ''00000'' s
      else if rc = SQL_NO_DATA then vsql_m_status ''02000'' s
      else if rc = VSQL_M_INDICATOR_OVERFLOW then vsql_m_status ''22022'' s
      else do {
        let s = vsql_m_clear s;
        ((_, number), s) \<leftarrow> call (SQLGetDiagFieldInt L type handle 0 SQL_DIAG_NUMBER) s;
        let number = (case number of None \<Rightarrow> 0 | Some n \<Rightarrow> n);
        (_, s) \<leftarrow> vsql_m_diag_records L type handle (nat number) 1 s;
        case conditions (da s) of
          [] \<Rightarrow> vsql_m_status (if rc = SQL_SUCCESS_WITH_INFO then ''01000'' else ''HY000'') s
        | k # _ \<Rightarrow> Some ((), vsql_m_sqlstate (k_sqlstate k) s)
      })"

section \<open>Rules\<close>

text \<open>
  \<open>header d\<close> is the statement information, which raising a condition leaves alone.
\<close>

definition header ::
  "vsql_m_da \<Rightarrow> string \<times> int \<times> string \<times> int \<times> int \<times> int \<times> int \<times> string option" where
  "header d = (command_function d, command_function_code d, dynamic_function d,
     dynamic_function_code d, row_count d, transactions_committed d, transactions_rolled_back d,
     cursor_name d)"

lemma header_simps [simp]:
  "header (d\<lparr>conditions := ks\<rparr>) = header d"
  "header (d\<lparr>connection_name := n\<rparr>) = header d"
  "header (d\<lparr>server_name := v\<rparr>) = header d"
  "header (d\<lparr>conditions := ks, connection_name := n, server_name := v\<rparr>) = header d"
  by (simp_all add: header_def)

lemma header_eqD:
  assumes "header d' = header d"
  shows "command_function d' = command_function d"
    "command_function_code d' = command_function_code d"
    "dynamic_function d' = dynamic_function d"
    "dynamic_function_code d' = dynamic_function_code d"
    "row_count d' = row_count d"
    "transactions_committed d' = transactions_committed d"
    "transactions_rolled_back d' = transactions_rolled_back d"
    "cursor_name d' = cursor_name d"
  using assms by (simp_all add: header_def)

text \<open>The current SQL-connection can be named in a condition.\<close>

definition nameable :: "vsql_m_agent \<Rightarrow> bool" where
  "nameable a \<longleftrightarrow> (\<forall>c. current a = Some c \<longrightarrow> live c a \<and> length (c_name (lookup c a)) < 129)"

lemma wf_agent_nameable: "wf_agent cc a \<Longrightarrow> nameable a"
  using wf_agent_current [of cc a] wf_agent_lookup [of cc a]
  by (auto simp: nameable_def wf_connection_def)

lemma invar_nameable: "invar J cc X s \<Longrightarrow> nameable (agent s)"
  by (auto simp: invar_def intro: wf_agent_nameable)

lemma vsql_m_failed_iff: "vsql_m_failed rc \<longleftrightarrow> \<not> completed rc"
  by (simp add: vsql_m_failed_def completed_def)

lemma vsql_m_clear_simps [simp]:
  "agent (vsql_m_clear s) = agent s"
  "conditions (da (vsql_m_clear s)) = []"
  "header (da (vsql_m_clear s)) = header (da s)"
  "sqlstate (vsql_m_clear s) = sqlstate s"
  "allocations (vsql_m_clear s) = allocations s"
  "world (vsql_m_clear s) = world s"
  "wf_da (da s) \<Longrightarrow> wf_da (da (vsql_m_clear s))"
  by (simp_all add: vsql_m_clear_def wf_da_def)

lemma invar_clear: "invar J cc X s \<Longrightarrow> invar J cc X (vsql_m_clear s)"
  by (simp add: invar_def)

text \<open>
  Raising a condition adds at most one condition to the diagnostics area (none if there is not
  enough memory), which has the SQLSTATE.
\<close>

lemma vsql_m_raise_cases:
  assumes "nameable (agent s)"
  shows "ok (vsql_m_raise state message s) (\<lambda>_ s'.
    agent s' = agent s \<and> header (da s') = header (da s) \<and> sqlstate s' = sqlstate s \<and>
    world s' = world s \<and> (wf_da (da s) \<longrightarrow> 5 \<le> length state \<longrightarrow> wf_da (da s')) \<and>
    (conditions (da s') = conditions (da s) \<or>
      (\<exists>k. conditions (da s') = conditions (da s) @ [k] \<and> k_sqlstate k = take 5 state \<and>
        (k_message k = None \<or> k_message k = Some message))))"
proof -
  have "live c (agent s)" "length (c_name (lookup c (agent s))) < 129"
    if "current (agent s) = Some c" for c
    using assms that by (auto simp: nameable_def)
  then show ?thesis
    by (auto simp: vsql_m_raise_def strcpy_ok wf_da_def header_def
        intro!: allocate_ok vsql_m_copy_ok deref_ok split: option.splits)
qed

lemma vsql_m_raise_enough:
  assumes "nameable (agent s)" "allocations s = []"
  shows "ok (vsql_m_raise state message s) (\<lambda>_ s'. allocations s' = [] \<and>
    (\<exists>k. conditions (da s') = conditions (da s) @ [k] \<and> k_sqlstate k = take 5 state \<and>
      k_message k = Some message) \<and>
    connection_name (da s') = (case current (agent s) of None \<Rightarrow> ''''
      | Some c \<Rightarrow> (if c_is_default (lookup c (agent s)) then ''DEFAULT''
          else c_name (lookup c (agent s)))))"
proof -
  have "live c (agent s)" "length (c_name (lookup c (agent s))) < 129"
    if "current (agent s) = Some c" for c
    using assms that by (auto simp: nameable_def)
  then show ?thesis
    using assms(2) by (cases "current (agent s)")
      (simp_all add: vsql_m_raise_def strcpy_ok allocate_enough vsql_m_copy_enough deref_live)
qed

lemma vsql_m_begin_ok [wp]:
  assumes "invar J cc X s" "length command < 32"
    and "\<And>s'. invar J cc X s' \<Longrightarrow> agent s' = agent s \<Longrightarrow> conditions (da s') = [] \<Longrightarrow>
      sqlstate s' = sqlstate s \<Longrightarrow> world s' = world s \<Longrightarrow>
      cursor_name (da s') = None \<Longrightarrow> command_function (da s') = command \<Longrightarrow> Q () s'"
  shows "ok (vsql_m_begin command code s) Q"
  using assms(1,2)
  by (auto simp: vsql_m_begin_def strcpy_ok vsql_m_clear_def invar_def wf_da_def intro!: assms(3))

lemma vsql_m_raise_ok [wp]:
  assumes "invar J cc X s" "5 \<le> length state"
    and "\<And>s'. invar J cc X s' \<Longrightarrow> agent s' = agent s \<Longrightarrow> header (da s') = header (da s) \<Longrightarrow>
      sqlstate s' = sqlstate s \<Longrightarrow> world s' = world s \<Longrightarrow> Q () s'"
  shows "ok (vsql_m_raise state message s) Q"
  using assms(1,2)
  by (auto intro!: ok_conseq [OF vsql_m_raise_cases [OF invar_nameable [OF assms(1)]]] assms(3)
      simp: invar_def)

text \<open>
  After \<open>vsql_m_status\<close> the status parameter is the SQLSTATE, and the only condition that can be
  in the diagnostics area has it.
\<close>

definition has_status :: "string \<Rightarrow> 'w state \<Rightarrow> bool" where
  "has_status state s \<longleftrightarrow> sqlstate s = state \<and>
     (conditions (da s) = [] \<or>
      state \<noteq> ''00000'' \<and> (\<exists>k. conditions (da s) = [k] \<and> k_sqlstate k = take 5 state \<and>
        (k_message k = None \<or> k_message k = Some (vsql_m_message state))))"

lemma vsql_m_status_ok [wp]:
  assumes "invar J cc X s" "5 \<le> length state"
    and "\<And>s'. invar J cc X s' \<Longrightarrow> agent s' = agent s \<Longrightarrow> header (da s') = header (da s) \<Longrightarrow>
      world s' = world s \<Longrightarrow> sqlstate s' = state \<Longrightarrow> has_status state s' \<Longrightarrow> Q () s'"
  shows "ok (vsql_m_status state s) Q"
proof (cases "state = ''00000''")
  case True
  with assms(1) show ?thesis
    by (auto simp: vsql_m_status_def vsql_m_sqlstate_def has_status_def invar_def intro!: assms(3))
next
  case False
  let ?s = "vsql_m_clear (s\<lparr>sqlstate := state\<rparr>)"
  have "invar J cc X ?s"
    using assms(1) by (simp add: invar_def)
  with False assms(2) show ?thesis
    unfolding vsql_m_status_def vsql_m_sqlstate_def
    by (auto intro!: ok_conseq [OF vsql_m_raise_cases [OF invar_nameable [of J cc X]]] assms(3)
        simp: has_status_def invar_def)
qed

lemma map_k_sqlstate_update:
  "map k_sqlstate (ks[j := (ks ! j)\<lparr>k_constraint_catalog := a, k_constraint_schema := b,
      k_constraint_name := c\<rparr>]) = map k_sqlstate ks"
  by (cases "j < length ks") (simp_all add: map_update list_update_same_conv list_update_beyond)

section \<open>Reading the diagnostics area of a handle\<close>

text \<open>
  \<open>vsql_m_diag\<close> always sets the status parameter to a SQLSTATE of five characters, which is the
  one of the first condition when there is a condition. It is 00000 for \<open>SQL_SUCCESS\<close>, and
  02000 for \<open>SQL_NO_DATA\<close>.
\<close>

definition reported :: "int \<Rightarrow> 'w state \<Rightarrow> bool" where
  "reported rc s \<longleftrightarrow> length (sqlstate s) = 5 \<and>
     (\<forall>k ks. conditions (da s) = k # ks \<longrightarrow> sqlstate s = k_sqlstate k) \<and>
     (rc = SQL_SUCCESS \<longrightarrow> sqlstate s = ''00000'') \<and>
     (rc = SQL_NO_DATA \<longrightarrow> sqlstate s = ''02000'') \<and>
     (rc = VSQL_M_INDICATOR_OVERFLOW \<longrightarrow> sqlstate s = ''22022'')"

lemma reported_length [simp]: "reported rc s \<Longrightarrow> length (sqlstate s) = 5"
  by (simp add: reported_def)

lemma has_status_reported:
  assumes "has_status state s" "length state = 5" "rc = SQL_SUCCESS \<longrightarrow> state = ''00000''"
    "rc = SQL_NO_DATA \<longrightarrow> state = ''02000''"
    "rc = VSQL_M_INDICATOR_OVERFLOW \<longrightarrow> state = ''22022''"
  shows "reported rc s"
proof -
  have "sqlstate s = k_sqlstate k" if "conditions (da s) = k # ks" for k ks
    using assms(1,2) that unfolding has_status_def by force
  moreover have "sqlstate s = state"
    using assms(1) by (simp add: has_status_def)
  ultimately show ?thesis
    using assms(2-) by (simp add: reported_def)
qed

context runtime
begin

lemma vsql_m_diag_text_ok [wp]:
  assumes "invar J cursor_count X s" "(type, handle) \<in># held (agent s) + X"
    and "\<And>v s'. invar J cursor_count X s' \<Longrightarrow> agent s' = agent s \<Longrightarrow> da s' = da s \<Longrightarrow>
      sqlstate s' = sqlstate s \<Longrightarrow> Q v s'"
  shows "ok (vsql_m_diag_text L type handle i field s) Q"
  unfolding vsql_m_diag_text_def using assms(1,2)
  by (auto intro!: call_preserves [of J cursor_count X] uses vsql_m_copy_invar [of J cursor_count X]
      assms(3))

lemma vsql_m_diag_constraint_ok [wp]:
  assumes "invar J cursor_count X s" "(type, handle) \<in># held (agent s) + X"
    and "\<And>s'. invar J cursor_count X s' \<Longrightarrow> agent s' = agent s \<Longrightarrow> header (da s') = header (da s) \<Longrightarrow>
      map k_sqlstate (conditions (da s')) = map k_sqlstate (conditions (da s)) \<Longrightarrow>
      sqlstate s' = sqlstate s \<Longrightarrow> Q () s'"
  shows "ok (vsql_m_diag_constraint L type handle i s) Q"
proof (cases "length (conditions (da s)) = i")
  case True
  have set: "Q () (t\<lparr>da := (da s)\<lparr>conditions := (conditions (da s))[j :=
      ((conditions (da s)) ! j)\<lparr>k_constraint_catalog := x,
        k_constraint_schema := y, k_constraint_name := z\<rparr>]\<rparr>\<rparr>)"
    if "invar J cursor_count X t" "agent t = agent s" "da t = da s" "sqlstate t = sqlstate s"
    for t :: "'w state" and j x y z
    using that by (intro assms(3))
      (auto simp: invar_def wf_da_def map_k_sqlstate_update simp del: set_map)
  show ?thesis
    unfolding vsql_m_diag_constraint_def using True assms(1,2)
    by (auto intro!: vsql_m_diag_text_ok [of X] set)
qed (auto simp: vsql_m_diag_constraint_def assms(1) intro!: assms(3))

lemma vsql_m_diag_record_ok [wp]:
  assumes "invar J cursor_count X s" "(type, handle) \<in># held (agent s) + X"
    and none: "\<And>s'. invar J cursor_count X s' \<Longrightarrow> agent s' = agent s \<Longrightarrow> da s' = da s \<Longrightarrow>
      sqlstate s' = sqlstate s \<Longrightarrow> Q None s'"
    and some: "\<And>state message s'. length state = 5 \<Longrightarrow> invar J cursor_count X s' \<Longrightarrow>
      agent s' = agent s \<Longrightarrow> da s' = da s \<Longrightarrow> sqlstate s' = sqlstate s \<Longrightarrow>
      Q (Some (state, message)) s'"
  shows "ok (vsql_m_diag_record L type handle i s) Q"
proof -
  let ?i = "cast16 (int i)"
  obtain rc0 n w1 where 1:
    "SQLGetDiagFieldInt L type handle ?i SQL_DIAG_MESSAGE_OCTET_LENGTH (world s) = ((rc0, n), w1)"
    by (metis surj_pair)
  obtain rc st m w2 where 2: "SQLGetDiagRec L type handle ?i 0 w1 = ((rc, st, m), w2)"
    by (metis surj_pair)
  let ?b = "cast16 ((case n of None \<Rightarrow> 0 | Some k \<Rightarrow> k) + 1)"
  obtain rc' st' m' w3 where 3: "SQLGetDiagRec L type handle ?i ?b w2 = ((rc', st', m'), w3)"
    by (metis surj_pair)
  have "0 < ?b"
  proof (cases n)
    case None
    then show ?thesis by (simp add: cast16_def)
  next
    case (Some k)
    then show ?thesis
      using short_messagesD [OF short, of type handle ?i "world s" rc0 k w1] 1
      by (subst cast16_id) auto
  qed
  then have read: "\<exists>c. st = Some c \<and> length c = 5"
      "\<exists>c x. st' = Some c \<and> length c = 5 \<and> m' = Some x"
    if "completed rc"
    using that writes_recordsD [OF cli_contractD(4) [OF contract] 2] 3 by blast+
  have "J (held (agent s) + X) w1"
    using assms(1) diag(3) [OF assms(2), of ?i SQL_DIAG_MESSAGE_OCTET_LENGTH] 1
    by (auto simp: preserves_def invar_def dest!: spec [of _ "world s"])
  moreover from this have "J (held (agent s) + X) w2"
    using diag(1) [OF assms(2), of ?i 0] 2 by (auto simp: preserves_def dest!: spec [of _ w1])
  moreover from this have "J (held (agent s) + X) w3"
    using diag(1) [OF assms(2), of ?i ?b] 3 by (auto simp: preserves_def dest!: spec [of _ w2])
  ultimately have world: "invar J cursor_count X (s\<lparr>world := w2, allocations := bs\<rparr>)"
    "invar J cursor_count X (s\<lparr>allocations := bs, world := w3\<rparr>)"
    "invar J cursor_count X (s\<lparr>world := w2\<rparr>)" for bs
    using assms(1) by (auto simp: invar_def)
  show ?thesis
    unfolding vsql_m_diag_record_def
    by (auto intro!: allocate_ok none some world dest: read
        simp: call_def 1 2 3 vsql_m_failed_iff)
qed

lemma vsql_m_diag_records_ok:
  assumes "invar J cursor_count X s" "(type, handle) \<in># held (agent s) + X"
    and "\<And>s'. invar J cursor_count X s' \<Longrightarrow> agent s' = agent s \<Longrightarrow> header (da s') = header (da s) \<Longrightarrow>
      Q () s'"
  shows "ok (vsql_m_diag_records L type handle n i s) Q"
  using assms
proof (induction n arbitrary: i s)
  case (Suc n)
  show ?case
    using Suc.prems(1,2)
    by (auto intro!: vsql_m_diag_record_ok [of X] vsql_m_raise_ok [of J cursor_count X]
        vsql_m_diag_constraint_ok [of X] Suc.IH Suc.prems(3))
qed simp

text \<open>The rule that every statement uses to report what libvsql returned.\<close>

lemma vsql_m_diag_ok [wp]:
  assumes "invar J cursor_count X s" "(type, handle) \<in># held (agent s) + X"
    and "\<And>s'. invar J cursor_count X s' \<Longrightarrow> agent s' = agent s \<Longrightarrow> header (da s') = header (da s) \<Longrightarrow>
      reported rc s' \<Longrightarrow> Q () s'"
  shows "ok (vsql_m_diag L rc type handle s) Q"
proof -
  have status: "ok (vsql_m_status state t) Q"
    if "invar J cursor_count X t" "agent t = agent s" "header (da t) = header (da s)"
      "length state = 5" "rc = SQL_SUCCESS \<longrightarrow> state = ''00000''"
      "rc = SQL_NO_DATA \<longrightarrow> state = ''02000''"
      "rc = VSQL_M_INDICATOR_OVERFLOW \<longrightarrow> state = ''22022''" for state t
  proof (rule vsql_m_status_ok [OF that(1)])
    fix s' :: "'w state"
    assume s': "invar J cursor_count X s'" "agent s' = agent t"
      "header (da s') = header (da t)" "has_status state s'"
    show "Q () s'"
      by (rule assms(3) [OF s'(1) _ _ has_status_reported [OF s'(4) that(4-)]])
        (simp_all only: s'(2,3) that(2,3))
  qed (simp only: that(4))
  show ?thesis
  proof (cases "rc = SQL_SUCCESS \<or> rc = SQL_NO_DATA \<or> rc = VSQL_M_INDICATOR_OVERFLOW")
    case True
    then show ?thesis
    proof (elim disjE)
      assume rc: "rc = SQL_SUCCESS"
      have "ok (vsql_m_status ''00000'' s) Q"
        by (rule status [OF assms(1)]) (simp_all add: rc codes)
      then show ?thesis by (simp add: vsql_m_diag_def rc)
    next
      assume rc: "rc = SQL_NO_DATA"
      have "ok (vsql_m_status ''02000'' s) Q"
        by (rule status [OF assms(1)]) (simp_all add: rc codes)
      then show ?thesis by (simp add: vsql_m_diag_def rc codes)
    next
      assume rc: "rc = VSQL_M_INDICATOR_OVERFLOW"
      have "ok (vsql_m_status ''22022'' s) Q"
        by (rule status [OF assms(1)]) (simp_all add: rc codes)
      then show ?thesis by (simp add: vsql_m_diag_def rc codes)
    qed
  next
    case False
    have first: "Q () (vsql_m_sqlstate (k_sqlstate k) t)"
      if "invar J cursor_count X t" "agent t = agent s" "header (da t) = header (da s)"
        "conditions (da t) = k # ks" for k ks t
      using that False by (intro assms(3)) (auto simp: invar_def vsql_m_sqlstate_def reported_def wf_da_def)
    show ?thesis
      unfolding vsql_m_diag_def using False invar_clear [OF assms(1)] assms(2)
      by (auto intro!: call_preserves [of J cursor_count X] uses vsql_m_diag_records_ok [of X]
          status first)
  qed
qed

end

end
