(* ===== verification/Session.thy ===== *)
theory Session
  imports Diagnostics
begin

text \<open>
  The SQL-connections (\<open>std_2_13_1_sql_client_module_definition.c\<close>): how one is made with the
  schema of the module, how it is closed with everything that its SQL-session has, which one a
  statement uses, and the start and the end of an SQL-transaction.
\<close>

section \<open>Freeing an SQL-connection\<close>

definition vsql_m_reset_item :: "vsql_m_item \<Rightarrow> vsql_m_item" where
  "vsql_m_reset_item i = i\<lparr>strings := (\<lambda>_. None), data := None, number := (\<lambda>_. 0)\<rparr>"

text \<open>Freeing memory has no effect here, but the items that are reset must exist.\<close>

definition vsql_m_free_descriptor ::
  "vsql_m_descriptor \<Rightarrow> 'w state \<Rightarrow> (unit \<times> 'w state) option" where
  "vsql_m_free_descriptor d s =
     (if nat (d_max d) \<le> length (d_items d) then Some ((), s) else None)"

definition vsql_m_free_prepared ::
  "'w cli \<Rightarrow> vsql_m_prepared \<Rightarrow> 'w state \<Rightarrow> (unit \<times> 'w state) option" where
  "vsql_m_free_prepared L p s = do {
     (_, s) \<leftarrow> call (SQLFreeHandle L SQL_HANDLE_STMT (p_stmt p)) s;
     Some ((), s)
   }"

text \<open>The loops of \<open>vsql_m_close\<close>, over what the SQL-session has.\<close>

fun vsql_m_free_statements ::
  "'w cli \<Rightarrow> int list \<Rightarrow> 'w state \<Rightarrow> (unit \<times> 'w state) option" where
  "vsql_m_free_statements L [] s = Some ((), s)"
| "vsql_m_free_statements L (h # hs) s =
     (if h \<noteq> 0 then do {
        (_, s) \<leftarrow> call (SQLFreeHandle L SQL_HANDLE_STMT h) s;
        vsql_m_free_statements L hs s
      } else vsql_m_free_statements L hs s)"

fun vsql_m_close_cursors ::
  "'w cli \<Rightarrow> vsql_m_cursors list \<Rightarrow> 'w state \<Rightarrow> (unit \<times> 'w state) option" where
  "vsql_m_close_cursors L [] s = Some ((), s)"
| "vsql_m_close_cursors L (m # ms) s =
     (if length (m_stmts m) < m_n m then None
      else do {
        (_, s) \<leftarrow> vsql_m_free_statements L (take (m_n m) (m_stmts m)) s;
        vsql_m_close_cursors L ms s
      })"

fun vsql_m_close_prepared ::
  "'w cli \<Rightarrow> vsql_m_prepared list \<Rightarrow> 'w state \<Rightarrow> (unit \<times> 'w state) option" where
  "vsql_m_close_prepared L [] s = Some ((), s)"
| "vsql_m_close_prepared L (p # ps) s = do {
     (_, s) \<leftarrow> vsql_m_free_prepared L p s;
     vsql_m_close_prepared L ps s
   }"

fun vsql_m_close_descriptors ::
  "vsql_m_descriptor list \<Rightarrow> 'w state \<Rightarrow> (unit \<times> 'w state) option" where
  "vsql_m_close_descriptors [] s = Some ((), s)"
| "vsql_m_close_descriptors (d # ds) s = do {
     (_, s) \<leftarrow> vsql_m_free_descriptor d s;
     vsql_m_close_descriptors ds s
   }"

text \<open>The loop that finds the link to \<open>c\<close> reads a null pointer when \<open>c\<close> is not linked.\<close>

definition vsql_m_close ::
  "'w cli \<Rightarrow> nat \<Rightarrow> 'w state \<Rightarrow> (unit \<times> 'w state) option" where
  "vsql_m_close L c s = do {
     let p = link (\<lambda>k. c_address k = c) (connections (agent s));
     k \<leftarrow> deref_link (connections (agent s)) p;
     let s = s\<lparr>agent := (agent s)\<lparr>connections := unlink p (connections (agent s))\<rparr>\<rparr>;
     let s = (if current (agent s) = Some c then s\<lparr>agent := (agent s)\<lparr>current := None\<rparr>\<rparr> else s);
     (_, s) \<leftarrow> call (SQLEndTran L SQL_HANDLE_DBC (c_dbc k) SQL_ROLLBACK) s;
     (_, s) \<leftarrow> vsql_m_close_cursors L (c_cursors k) s;
     (_, s) \<leftarrow> vsql_m_close_prepared L (c_prepared k) s;
     (_, s) \<leftarrow> vsql_m_close_descriptors (c_descriptors k) s;
     (_, s) \<leftarrow> call (SQLDisconnect L (c_dbc k)) s;
     (_, s) \<leftarrow> call (SQLFreeHandle L SQL_HANDLE_DBC (c_dbc k)) s;
     Some ((), s)
   }"

text \<open>\<open>while (vsql_m_connections != NULL) vsql_m_close(vsql_m_connections)\<close>.\<close>

partial_function (option) vsql_m_close_all ::
  "'w cli \<Rightarrow> 'w state \<Rightarrow> (unit \<times> 'w state) option" where
  "vsql_m_close_all L s = (case connections (agent s) of
     [] \<Rightarrow> Some ((), s)
   | k # _ \<Rightarrow> Option.bind (vsql_m_close L (c_address k) s) (\<lambda>r. vsql_m_close_all L (snd r)))"

definition vsql_m_exit :: "'w cli \<Rightarrow> 'w state \<Rightarrow> (unit \<times> 'w state) option" where
  "vsql_m_exit L s = do {
     (_, s) \<leftarrow> vsql_m_close_all L s;
     (_, s) \<leftarrow> call (SQLFreeHandle L SQL_HANDLE_ENV (env (agent s))) s;
     Some ((), vsql_m_clear (s\<lparr>agent := (agent s)\<lparr>ready := False\<rparr>\<rparr>))
   }"

section \<open>Making an SQL-connection\<close>

definition vsql_m_schema ::
  "'w cli \<Rightarrow> vsql_m_module \<Rightarrow> nat \<Rightarrow> 'w state \<Rightarrow> (bool \<times> 'w state) option" where
  "vsql_m_schema L M c s = do {
     (k, s) \<leftarrow> deref c s;
     if c_module k = Some (own M) then Some (True, s)
     else do {
       ((rc, stmt), s) \<leftarrow> call (SQLAllocHandle L SQL_HANDLE_STMT (c_dbc k)) s;
       if vsql_m_failed rc then do {
         (_, s) \<leftarrow> vsql_m_diag L rc SQL_HANDLE_DBC (c_dbc k) s;
         Some (False, s)
       } else do {
         (rc, s) \<leftarrow> call (SQLExecDirect L stmt (set_schema M)) s;
         if vsql_m_failed rc then do {
           (_, s) \<leftarrow> vsql_m_diag L rc SQL_HANDLE_STMT stmt s;
           (_, s) \<leftarrow> call (SQLFreeHandle L SQL_HANDLE_STMT stmt) s;
           Some (False, s)
         } else do {
           (_, s) \<leftarrow> call (SQLFreeHandle L SQL_HANDLE_STMT stmt) s;
           (_, s) \<leftarrow> (if c_active k then Some (0, s)
             else call (SQLEndTran L SQL_HANDLE_DBC (c_dbc k) SQL_COMMIT) s);
           (_, s) \<leftarrow> modify c (\<lambda>k. k\<lparr>c_module := Some (own M)\<rparr>) s;
           Some (True, s)
         }
       }
     }
   }"

text \<open>The environment, which is allocated (and \<open>vsql_m_exit\<close> registered) only once.\<close>

definition vsql_m_open_env ::
  "'w cli \<Rightarrow> 'w state \<Rightarrow> (bool \<times> 'w state) option" where
  "vsql_m_open_env L s =
     (if ready (agent s) then Some (True, s)
      else do {
        ((rc, h), s) \<leftarrow> call (SQLAllocHandle L SQL_HANDLE_ENV SQL_NULL_HANDLE) s;
        let s = s\<lparr>agent := (agent s)\<lparr>env := h\<rparr>\<rparr>;
        if vsql_m_failed rc then do {
          (_, s) \<leftarrow> vsql_m_status ''HY001'' s;
          Some (False, s)
        } else Some (True, s\<lparr>agent := (agent s)\<lparr>ready := True, atexits := Suc (atexits (agent s))\<rparr>\<rparr>)
      })"

definition new_connection :: "nat \<Rightarrow> vsql_m_connection" where
  "new_connection c = \<lparr>c_address = c, c_name = '''', c_server = None, c_is_default = False,
     c_dbc = 0, c_active = False, c_module = None, c_cursors = [], c_prepared = [],
     c_descriptors = []\<rparr>"

definition vsql_m_open ::
  "'w cli \<Rightarrow> vsql_m_module \<Rightarrow> string \<Rightarrow> string option \<Rightarrow> 'w state
    \<Rightarrow> (nat option \<times> 'w state) option" where
  "vsql_m_open L M server user s = do {
     (good, s) \<leftarrow> vsql_m_open_env L s;
     if \<not> good then Some (None, s)
     else do {
       (good, s) \<leftarrow> allocate s;
       if \<not> good then do {
         (_, s) \<leftarrow> vsql_m_status ''HY001'' s;
         Some (None, s)
       } else do {
         let c = next_address (agent s);
         let s = s\<lparr>agent := (agent s)\<lparr>connections := new_connection c # connections (agent s),
           next_address := Suc c\<rparr>\<rparr>;
         (v, s) \<leftarrow> vsql_m_copy server s;
         (_, s) \<leftarrow> modify c (\<lambda>k. k\<lparr>c_server := v\<rparr>) s;
         ((rc, dbc), s) \<leftarrow> call (SQLAllocHandle L SQL_HANDLE_DBC (env (agent s))) s;
         (_, s) \<leftarrow> modify c (\<lambda>k. k\<lparr>c_dbc := dbc\<rparr>) s;
         if vsql_m_failed rc then do {
           (_, s) \<leftarrow> vsql_m_diag L rc SQL_HANDLE_ENV (env (agent s)) s;
           Some (None, s\<lparr>agent := (agent s)\<lparr>connections := tl (connections (agent s))\<rparr>\<rparr>)
         } else do {
           (rc, s) \<leftarrow> call (SQLConnect L dbc server user) s;
           if vsql_m_failed rc then do {
             (_, s) \<leftarrow> vsql_m_diag L rc SQL_HANDLE_DBC dbc s;
             (_, s) \<leftarrow> vsql_m_close L c s;
             Some (None, s)
           } else do {
             (good, s) \<leftarrow> vsql_m_schema L M c s;
             if \<not> good then do {
               (_, s) \<leftarrow> vsql_m_close L c s;
               Some (None, s)
             } else Some (Some c, s)
           }
         }
       }
     }
   }"

definition vsql_m_connection ::
  "'w cli \<Rightarrow> vsql_m_module \<Rightarrow> 'w state \<Rightarrow> (nat option \<times> 'w state) option" where
  "vsql_m_connection L M s = (case current (agent s) of
     Some c \<Rightarrow> do {
       (good, s) \<leftarrow> vsql_m_schema L M c s;
       Some (if good then current (agent s) else None, s)
     }
   | None \<Rightarrow>
       if connected (agent s) then do {
         (_, s) \<leftarrow> vsql_m_status ''08003'' s;
         Some (None, s)
       } else do {
         (c, s) \<leftarrow> vsql_m_open L M ''DEFAULT'' None s;
         let s = s\<lparr>agent := (agent s)\<lparr>current := c\<rparr>\<rparr>;
         case c of
           None \<Rightarrow> Some (None, s)
         | Some a \<Rightarrow> do {
             (_, s) \<leftarrow> modify a (\<lambda>k. k\<lparr>c_is_default := True\<rparr>) s;
             Some (current (agent s), s)
           }
       })"

section \<open>SQL-transactions\<close>

definition vsql_m_start ::
  "'w cli \<Rightarrow> vsql_m_module \<Rightarrow> 'w state \<Rightarrow> (unit \<times> 'w state) option" where
  "vsql_m_start L M s = do {
     (c, s) \<leftarrow> vsql_m_connection L M s;
     case c of
       None \<Rightarrow> Some ((), s)
     | Some c \<Rightarrow> do {
         (k, s) \<leftarrow> deref c s;
         (rc, s) \<leftarrow> call (SQLStartTran L SQL_HANDLE_DBC (c_dbc k) SQL_TRANSACTION_READ_WRITE
           SQL_TRANSACTION_READ_COMMITTED) s;
         (_, s) \<leftarrow> vsql_m_diag L rc SQL_HANDLE_DBC (c_dbc k) s;
         if vsql_m_failed rc then Some ((), s)
         else modify c (\<lambda>k. k\<lparr>c_active := True\<rparr>) s
       }
   }"

definition vsql_m_end ::
  "'w cli \<Rightarrow> vsql_m_module \<Rightarrow> int \<Rightarrow> 'w state \<Rightarrow> (unit \<times> 'w state) option" where
  "vsql_m_end L M completion s = do {
     (c, s) \<leftarrow> vsql_m_connection L M s;
     case c of
       None \<Rightarrow> Some ((), s)
     | Some c \<Rightarrow> do {
         (k, s) \<leftarrow> deref c s;
         (rc, s) \<leftarrow> call (SQLEndTran L SQL_HANDLE_DBC (c_dbc k) completion) s;
         (_, s) \<leftarrow> vsql_m_diag L rc SQL_HANDLE_DBC (c_dbc k) s;
         let s =
           (if c_active k \<and> completion = SQL_COMMIT \<and> \<not> vsql_m_failed rc
            then s\<lparr>da := (da s)\<lparr>transactions_committed := 1\<rparr>\<rparr>
            else if c_active k \<and> (completion = SQL_ROLLBACK \<or> take 2 (sqlstate s) = ''40'')
            then s\<lparr>da := (da s)\<lparr>transactions_rolled_back := 1\<rparr>\<rparr>
            else s);
         modify c (\<lambda>k. k\<lparr>c_active := False\<rparr>) s
       }
   }"

section \<open>Invariant\<close>

text \<open>
  Between statements, every SQL-connection is connected. The default SQL-connection has no name,
  and is the only one until a connection statement is executed, and the others have different
  names.
\<close>

definition named :: "vsql_m_connection list \<Rightarrow> string list" where
  "named ks = map c_name (filter (\<lambda>k. \<not> c_is_default k) ks)"

definition settled :: "vsql_m_agent \<Rightarrow> bool" where
  "settled a \<longleftrightarrow> (\<forall>k\<in>set (connections a). c_dbc k \<noteq> 0) \<and>
     distinct (named (connections a)) \<and> '''' \<notin> set (named (connections a)) \<and>
     length (filter c_is_default (connections a)) \<le> 1 \<and>
     (\<not> connected a \<longrightarrow> connections a = [] \<or>
       (\<exists>k. connections a = [k] \<and> c_is_default k \<and> current a = Some (c_address k)))"

definition keeps_name :: "(vsql_m_connection \<Rightarrow> vsql_m_connection) \<Rightarrow> bool" where
  [simp]: "keeps_name f \<longleftrightarrow> (\<forall>k. c_name (f k) = c_name k \<and> c_is_default (f k) = c_is_default k \<and>
     c_dbc (f k) = c_dbc k)"

lemma settled_update:
  assumes "settled a" "keeps_address f" "keeps_name f"
  shows "settled (update c f a)"
proof -
  let ?g = "\<lambda>k. if c_address k = c then f k else k"
  have "named (map ?g ks) = named ks"
    "length (filter c_is_default (map ?g ks)) = length (filter c_is_default ks)" for ks
    using assms(3) by (induction ks) (auto simp: named_def)
  moreover have "c_dbc (f k) = c_dbc k" "c_is_default (f k) = c_is_default k"
    "c_address (f k) = c_address k" for k
    using assms(2,3) by auto
  ultimately show ?thesis
    using assms(1) by (auto simp: settled_def update_def simp del: filter_map)
qed

lemma settled_dbc: "settled a \<Longrightarrow> live c a \<Longrightarrow> c_dbc (lookup c a) \<noteq> 0"
  by (simp add: settled_def lookup_mem)

text \<open>The SQL-agent without an SQL-connection.\<close>

definition without :: "nat \<Rightarrow> vsql_m_agent \<Rightarrow> vsql_m_agent" where
  "without c a = a\<lparr>connections := filter (\<lambda>k. c_address k \<noteq> c) (connections a),
     current := (if current a = Some c then None else current a)\<rparr>"

lemma live_without: "live d (without c a) \<longleftrightarrow> live d a \<and> d \<noteq> c"
  by (auto simp: live_def without_def)

lemma lookup_without: "d \<noteq> c \<Longrightarrow> lookup d (without c a) = lookup d a"
proof -
  assume "d \<noteq> c"
  then have "List.find (\<lambda>k. c_address k = d) (filter (\<lambda>k. c_address k \<noteq> c) ks) =
      List.find (\<lambda>k. c_address k = d) ks" for ks
    by (induction ks) auto
  from this [of "connections a"] show ?thesis by (simp add: lookup_def without_def)
qed

lemma without_simps [simp]:
  "ready (without c a) = ready a" "env (without c a) = env a"
  "connected (without c a) = connected a" "next_address (without c a) = next_address a"
  "atexits (without c a) = atexits a"
  by (simp_all add: without_def)

lemma split_live:
  assumes "wf_agent cc a" "live c a"
  obtains ks ks' where "connections a = ks @ lookup c a # ks'"
    "filter (\<lambda>k. c_address k \<noteq> c) (connections a) = ks @ ks'"
    "c \<notin> c_address ` set ks" "c \<notin> c_address ` set ks'"
proof -
  obtain ks ks' where ks: "connections a = ks @ lookup c a # ks'"
    using lookup_mem(1) [OF assms(2)] by (meson split_list)
  have c: "c_address (lookup c a) = c" using lookup_mem(2) [OF assms(2)] .
  with assms(1) have "c \<notin> c_address ` set ks" "c \<notin> c_address ` set ks'"
    unfolding wf_agent_def ks by (metis (no_types, lifting) disjoint_iff distinct.simps(2)
        distinct_append list.set_intros(1) list.simps(9) map_append set_map)+
  moreover from this have "filter (\<lambda>k. c_address k \<noteq> c) (ks @ lookup c a # ks') = ks @ ks'"
    using c by (auto simp: image_iff intro!: arg_cong2 [where f = append] filter_True)
  ultimately show ?thesis using that ks by metis
qed

lemma unlink_filter:
  assumes "wf_agent cc a" "live c a"
  shows "unlink (link (\<lambda>k. c_address k = c) (connections a)) (connections a) =
    filter (\<lambda>k. c_address k \<noteq> c) (connections a)"
proof -
  obtain ks ks' where ks: "connections a = ks @ lookup c a # ks'"
    "filter (\<lambda>k. c_address k \<noteq> c) (connections a) = ks @ ks'" "c \<notin> c_address ` set ks"
    using split_live [OF assms] by metis
  from ks(3) have "lookup c a \<notin> set ks"
    using lookup_mem(2) [OF assms(2)] by force
  then have "remove1 (lookup c a) (ks @ lookup c a # ks') = ks @ ks'"
    by (simp add: remove1_append)
  with ks(1,2) show ?thesis
    using find_live [OF assms(2)] by (simp only: unlink_link_remove1 option.case)
qed

lemma held_without:
  assumes "wf_agent cc a" "live c a"
  shows "held a = held_connection (lookup c a) + held (without c a)"
proof -
  obtain ks ks' where "connections a = ks @ lookup c a # ks'"
    "filter (\<lambda>k. c_address k \<noteq> c) (connections a) = ks @ ks'"
    using split_live [OF assms] by metis
  then show ?thesis by (simp add: held_def without_def ac_simps)
qed

lemma wf_agent_without: "wf_agent cc a \<Longrightarrow> wf_agent cc (without c a)"
  by (auto simp: wf_agent_def without_def distinct_map_filter)

lemma settled_without: "settled a \<Longrightarrow> connected a \<Longrightarrow> settled (without c a)"
proof -
  have "length (filter c_is_default (filter P ks)) \<le> length (filter c_is_default ks)" for P ks
    by (induction ks) auto
  note this [of "\<lambda>k. c_address k \<noteq> c" "connections a"]
  moreover have "distinct (named (filter P ks))" if "distinct (named ks)" for P ks
    using that distinct_map_filter [of c_name "filter (\<lambda>k. \<not> c_is_default k) ks" P]
    by (simp add: named_def conj_commute)
  moreover assume "settled a" "connected a"
  ultimately show ?thesis
    by (auto simp: settled_def without_def named_def)
qed

section \<open>Closing\<close>

lemma set_current_invar:
  "invar J cursor_count X s \<Longrightarrow> (\<And>d. c = Some d \<Longrightarrow> live d (agent s)) \<Longrightarrow>
   invar J cursor_count X (s\<lparr>agent := (agent s)\<lparr>current := c\<rparr>\<rparr>)"
  by (auto simp: invar_def wf_agent_def held_def live_def)

context runtime
begin

lemma free_ok [wp]:
  assumes "invar J cursor_count (add_mset (t, h) X) s"
    and "\<And>a s'. invar J cursor_count X s' \<Longrightarrow> agent s' = agent s \<Longrightarrow> da s' = da s \<Longrightarrow>
      sqlstate s' = sqlstate s \<Longrightarrow> Q a s'"
  shows "ok (call (SQLFreeHandle L t h) s) Q"
proof -
  obtain a w where f: "SQLFreeHandle L t h (world s) = (a, w)" by (metis surj_pair)
  have "J (held (agent s) + X) w"
    using assms(1) free [of "held (agent s) + add_mset (t, h) X" "world s" t h] f
    by (simp add: invar_def)
  then have "invar J cursor_count X (s\<lparr>world := w\<rparr>)"
    using assms(1) by (simp add: invar_def)
  then show ?thesis
    using f by (auto simp: call_def intro!: assms(2))
qed

lemma vsql_m_free_prepared_ok:
  assumes "invar J cursor_count (add_mset (SQL_HANDLE_STMT, p_stmt p) X) s"
    and "\<And>s'. invar J cursor_count X s' \<Longrightarrow> agent s' = agent s \<Longrightarrow> da s' = da s \<Longrightarrow>
      sqlstate s' = sqlstate s \<Longrightarrow> Q () s'"
  shows "ok (vsql_m_free_prepared L p s) Q"
  unfolding vsql_m_free_prepared_def by (auto intro!: free_ok [OF assms(1)] assms(2))

lemma vsql_m_free_statements_ok:
  assumes "invar J cursor_count
      (image_mset (Pair SQL_HANDLE_STMT) (mset (filter (\<lambda>h. h \<noteq> 0) hs)) + X) s"
    and "\<And>s'. invar J cursor_count X s' \<Longrightarrow> agent s' = agent s \<Longrightarrow> da s' = da s \<Longrightarrow>
      sqlstate s' = sqlstate s \<Longrightarrow> Q () s'"
  shows "ok (vsql_m_free_statements L hs s) Q"
  using assms
proof (induction hs arbitrary: s)
  case (Cons h hs)
  show ?case
  proof (cases "h = 0")
    case False
    then show ?thesis
      using Cons.prems(1) by (auto intro!: free_ok [where t = SQL_HANDLE_STMT] Cons.IH Cons.prems(2))
  qed (use Cons in auto)
qed auto

lemma held_cursors_take:
  "wf_cursors cc m \<Longrightarrow> held_cursors m =
   image_mset (Pair SQL_HANDLE_STMT) (mset (filter (\<lambda>h. h \<noteq> 0) (take (m_n m) (m_stmts m))))"
proof -
  assume "wf_cursors cc m"
  then have "m_stmts m = take (m_n m) (m_stmts m) @ [0]"
    unfolding wf_cursors_def by (metis lessI order_refl take_Suc_conv_app_nth take_all)
  then have "filter (\<lambda>h. h \<noteq> 0) (m_stmts m) = filter (\<lambda>h. h \<noteq> 0) (take (m_n m) (m_stmts m))"
    by (metis (mono_tags, lifting) append_Nil2 filter.simps(1,2) filter_append)
  then show ?thesis by (simp add: held_cursors_def)
qed

lemma vsql_m_close_cursors_ok:
  assumes "invar J cursor_count (sum_list (map held_cursors ms) + X) s"
    and "\<forall>m\<in>set ms. wf_cursors cc m"
    and "\<And>s'. invar J cursor_count X s' \<Longrightarrow> agent s' = agent s \<Longrightarrow> da s' = da s \<Longrightarrow>
      sqlstate s' = sqlstate s \<Longrightarrow> Q () s'"
  shows "ok (vsql_m_close_cursors L ms s) Q"
  using assms
proof (induction ms arbitrary: s)
  case (Cons m ms)
  then have "wf_cursors cc m" by simp
  then have "\<not> length (m_stmts m) < m_n m" by (simp add: wf_cursors_def)
  then show ?case
    using Cons.prems(1,2) held_cursors_take [OF \<open>wf_cursors cc m\<close>]
    by (auto intro!: vsql_m_free_statements_ok [where X = "sum_list (map held_cursors ms) + X"]
        Cons.IH Cons.prems(3) simp: add.assoc)
qed auto

lemma vsql_m_close_prepared_ok:
  assumes "invar J cursor_count (mset (map (\<lambda>p. (SQL_HANDLE_STMT, p_stmt p)) ps) + X) s"
    and "\<And>s'. invar J cursor_count X s' \<Longrightarrow> agent s' = agent s \<Longrightarrow> da s' = da s \<Longrightarrow>
      sqlstate s' = sqlstate s \<Longrightarrow> Q () s'"
  shows "ok (vsql_m_close_prepared L ps s) Q"
  using assms
proof (induction ps arbitrary: s)
  case (Cons p ps)
  let ?X = "mset (map (\<lambda>p. (SQL_HANDLE_STMT, p_stmt p)) ps) + X"
  show ?case
    using Cons.prems(1)
    by (auto intro!: vsql_m_free_prepared_ok [where X = ?X] Cons.IH Cons.prems(2))
qed auto

lemma vsql_m_close_descriptors_ok:
  assumes "\<forall>d\<in>set ds. wf_descriptor d" "Q () s"
  shows "ok (vsql_m_close_descriptors ds s) Q"
  using assms by (induction ds) (auto simp: vsql_m_free_descriptor_def wf_descriptor_def)

lemma vsql_m_close_eq:
  assumes "wf_agent cc (agent s)" "live c (agent s)"
  shows "vsql_m_close L c s = do {
     let k = lookup c (agent s);
     let s = s\<lparr>agent := without c (agent s)\<rparr>;
     (_, s) \<leftarrow> call (SQLEndTran L SQL_HANDLE_DBC (c_dbc k) SQL_ROLLBACK) s;
     (_, s) \<leftarrow> vsql_m_close_cursors L (c_cursors k) s;
     (_, s) \<leftarrow> vsql_m_close_prepared L (c_prepared k) s;
     (_, s) \<leftarrow> vsql_m_close_descriptors (c_descriptors k) s;
     (_, s) \<leftarrow> call (SQLDisconnect L (c_dbc k)) s;
     (_, s) \<leftarrow> call (SQLFreeHandle L SQL_HANDLE_DBC (c_dbc k)) s;
     Some ((), s)
   }"
proof (cases "current (agent s) = Some c")
  case True
  then show ?thesis
    by (simp add: vsql_m_close_def deref_link_find find_live [OF assms(2)] unlink_filter [OF assms]
        without_def Let_def)
next
  case False
  then have "without c (agent s) =
      (agent s)\<lparr>connections := filter (\<lambda>k. c_address k \<noteq> c) (connections (agent s))\<rparr>"
    by (simp add: without_def)
  with False show ?thesis
    by (simp add: vsql_m_close_def deref_link_find find_live [OF assms(2)] unlink_filter [OF assms]
        Let_def)
qed

lemma vsql_m_close_ok [wp]:
  assumes s: "invar J cursor_count X s" and c: "live c (agent s)"
    and dbc: "c_dbc (lookup c (agent s)) \<noteq> 0"
    and Q: "\<And>s'. invar J cursor_count X s' \<Longrightarrow> agent s' = without c (agent s) \<Longrightarrow> da s' = da s \<Longrightarrow>
      sqlstate s' = sqlstate s \<Longrightarrow> Q () s'"
  shows "ok (vsql_m_close L c s) Q"
proof -
  let ?k = "lookup c (agent s)"
  let ?dbc = "(SQL_HANDLE_DBC, c_dbc ?k)"
  let ?P = "mset (map (\<lambda>p. (SQL_HANDLE_STMT, p_stmt p)) (c_prepared ?k))"
  let ?C = "sum_list (map held_cursors (c_cursors ?k))"
  have wf: "wf_agent cursor_count (agent s)" and k: "wf_connection cursor_count ?k"
    using s c by (auto simp: invar_def intro: wf_agent_lookup)
  have "held_connection ?k + X = ?C + (?P + add_mset ?dbc X)"
    using dbc by (simp add: held_connection_def ac_simps)
  then have 1: "invar J cursor_count (?C + (?P + add_mset ?dbc X))
      (s\<lparr>agent := without c (agent s)\<rparr>)"
    using s held_without [OF wf c] wf_agent_without [OF wf, of c]
    by (simp add: invar_def ac_simps)
  let ?same = "\<lambda>t. agent t = without c (agent s) \<and> da t = da s \<and> sqlstate t = sqlstate s"
  have last: "ok (call (SQLDisconnect L (c_dbc ?k)) t)
      (\<lambda>_ s. ok (call (SQLFreeHandle L SQL_HANDLE_DBC (c_dbc ?k)) s) (\<lambda>_. Q ()))"
    if "invar J cursor_count (add_mset ?dbc X) t" "?same t" for t
    using that(2) by (intro call_preserves [OF that(1)] free_ok [where X = X])
      (auto intro!: uses Q)
  show ?thesis
    unfolding vsql_m_close_eq [OF wf c] using k
    by (simp add: wf_connection_def)
      (auto intro!: call_preserves [OF 1] uses vsql_m_close_descriptors_ok last
        vsql_m_close_cursors_ok [where X = "?P + add_mset ?dbc X" and cc = cursor_count]
        vsql_m_close_prepared_ok [where X = "add_mset ?dbc X"])
qed

lemma vsql_m_close_all_ok [wp]:
  assumes "invar J cursor_count X s" "\<forall>k\<in>set (connections (agent s)). c_dbc k \<noteq> 0"
    and "\<And>s'. invar J cursor_count X s' \<Longrightarrow>
      agent s' = (agent s)\<lparr>connections := [], current := None\<rparr> \<Longrightarrow> da s' = da s \<Longrightarrow>
      sqlstate s' = sqlstate s \<Longrightarrow> Q () s'"
  shows "ok (vsql_m_close_all L s) Q"
  using assms
proof (induction "connections (agent s)" arbitrary: s)
  case Nil
  then have "current (agent s) = None"
    by (auto simp: invar_def wf_agent_def)
  then have "agent s = (agent s)\<lparr>connections := [], current := None\<rparr>"
    using Nil.hyps by simp
  then have "Q () s"
    using Nil.prems by simp
  then show ?case
    using Nil.hyps by (simp add: vsql_m_close_all.simps)
next
  case (Cons k ks)
  let ?c = "c_address k"
  have k: "connections (agent s) = k # ks" using Cons.hyps(2) by simp
  then have live: "live ?c (agent s)" and lookup: "lookup ?c (agent s) = k"
    by (auto simp: live_def lookup_def)
  have "?c \<notin> c_address ` set ks"
    using Cons.prems(1) by (auto simp: invar_def wf_agent_def k)
  then have rest: "connections (without ?c (agent s)) = ks"
    using k by (simp add: without_def filter_id_conv) (metis imageI)
  have "ok (vsql_m_close L ?c s) (\<lambda>_ s. ok (vsql_m_close_all L s) Q)"
  proof (rule vsql_m_close_ok [OF Cons.prems(1) live])
    fix t :: "'w state"
    assume t: "invar J cursor_count X t" "agent t = without ?c (agent s)" "da t = da s"
      "sqlstate t = sqlstate s"
    then have "(agent t)\<lparr>connections := [], current := None\<rparr> =
        (agent s)\<lparr>connections := [], current := None\<rparr>"
      by (simp add: without_def)
    then show "ok (vsql_m_close_all L t) Q"
      using t Cons.prems(2) by (intro Cons.hyps(1) Cons.prems(3)) (simp_all add: rest k)
  qed (use lookup Cons.prems(2) in \<open>simp add: k\<close>)
  then show ?case
    by (auto simp: vsql_m_close_all.simps [of L s] k elim: ok_conseq)
qed

section \<open>Opening\<close>

lemma alloc_ok [wp]:
  assumes "invar J cursor_count X s" "parent t p (held (agent s) + X)"
    and "\<And>rc h s'. agent s' = agent s \<Longrightarrow> da s' = da s \<Longrightarrow> sqlstate s' = sqlstate s \<Longrightarrow>
      completed rc \<Longrightarrow> h \<noteq> 0 \<Longrightarrow> invar J cursor_count (add_mset (t, h) X) s' \<Longrightarrow> Q (rc, h) s'"
    and "\<And>rc s'. agent s' = agent s \<Longrightarrow> da s' = da s \<Longrightarrow> sqlstate s' = sqlstate s \<Longrightarrow>
      \<not> completed rc \<Longrightarrow> invar J cursor_count X s' \<Longrightarrow> Q (rc, 0) s'"
  shows "ok (call (SQLAllocHandle L t p) s) Q"
proof (rule call_alloc [OF assms(1) alloc [OF assms(2)]])
  fix rc h and s' :: "'w state"
  assume f: "SQLAllocHandle L t p (world s) = ((rc, h), world s')"
    and s': "agent s' = agent s" "da s' = da s" "sqlstate s' = sqlstate s"
      "invar J cursor_count (if completed rc then add_mset (t, h) X else X) s'"
  have h: "completed rc \<longleftrightarrow> h \<noteq> 0"
    using gives_handlesD [OF cli_contractD(6) [OF contract] f] by (simp add: SQL_NULL_HANDLE_def)
  show "Q (rc, h) s'"
    using s' h assms(3) [of s' rc h] assms(4) [of s' rc] by (cases "completed rc") auto
qed

lemma parent_env: "ready a \<Longrightarrow> parent SQL_HANDLE_DBC (env a) (held a + X)"
  by (simp add: parent_def held_env)

lemma parent_dbc: "live c a \<Longrightarrow> c_dbc (lookup c a) \<noteq> 0 \<Longrightarrow>
    parent SQL_HANDLE_STMT (c_dbc (lookup c a)) (held a + X)"
  by (simp add: parent_def held_dbc)

lemma vsql_m_schema_ok [wp]:
  assumes "invar J cursor_count X s" "live c (agent s)" "c_dbc (lookup c (agent s)) \<noteq> 0"
    and bad: "\<And>s'. invar J cursor_count X s' \<Longrightarrow> agent s' = agent s \<Longrightarrow>
      header (da s') = header (da s) \<Longrightarrow> length (sqlstate s') = 5 \<Longrightarrow> Q False s'"
    and same: "c_module (lookup c (agent s)) = Some (own M) \<Longrightarrow> Q True s"
    and set: "\<And>s'. invar J cursor_count X s' \<Longrightarrow> da s' = da s \<Longrightarrow>
      agent s' = update c (\<lambda>k. k\<lparr>c_module := Some (own M)\<rparr>) (agent s) \<Longrightarrow>
      sqlstate s' = sqlstate s \<Longrightarrow> Q True s'"
  shows "ok (vsql_m_schema L M c s) Q"
proof -
  let ?dbc = "c_dbc (lookup c (agent s))"
  have dbc: "(SQL_HANDLE_DBC, ?dbc) \<in># held (agent s)"
    using assms(2,3) by (rule held_dbc)
  have set': "ok (modify c (\<lambda>k. k\<lparr>c_module := Some (own M)\<rparr>) t) (\<lambda>_. Q True)"
    if "invar J cursor_count X t" "agent t = agent s" "da t = da s" "sqlstate t = sqlstate s" for t
    using that assms(2)
    by (auto intro!: modify_invar [where X' = X, OF that(1)] set
        simp: wf_connection_def held_connection_def)
  show ?thesis
    unfolding vsql_m_schema_def using assms(1,2) dbc parent_dbc [OF assms(2,3), of X]
    by - ((erule wp | erule call_preserves | rule conjI impI deref_ok uses same bad set'
        | clarsimp simp: vsql_m_failed_iff)[1])+
qed

text \<open>The SQL-connection that was linked last.\<close>

lemma head_simps:
  assumes "connections a = k # ks"
  shows "live (c_address k) a" "lookup (c_address k) a = k"
  using assms by (simp_all add: live_def lookup_def)

lemma head_fresh:
  assumes "wf_agent cc a" "connections a = k # ks" "k' \<in> set ks"
  shows "c_address k' \<noteq> c_address k"
proof -
  have "c_address k \<notin> c_address ` set ks"
    using assms(1,2) by (simp add: wf_agent_def)
  with assms(3) show ?thesis by (metis imageI)
qed

lemma update_head:
  assumes "wf_agent cc a" "connections a = k # ks"
  shows "update (c_address k) f a = a\<lparr>connections := f k # ks\<rparr>"
proof -
  have "\<forall>k'\<in>set ks. c_address k' \<noteq> c_address k"
    using head_fresh [OF assms(1,2)] by blast
  then have "map (\<lambda>k'. if c_address k' = c_address k then f k' else k') ks = ks"
    by (auto intro: map_idI)
  then show ?thesis using assms(2) by (simp add: update_def)
qed

lemma without_head:
  assumes "wf_agent cc a" "connections a = k # ks" "current a \<noteq> Some (c_address k)"
  shows "without (c_address k) a = a\<lparr>connections := ks\<rparr>"
proof -
  have "\<forall>k'\<in>set ks. c_address k' \<noteq> c_address k"
    using head_fresh [OF assms(1,2)] by blast
  then have "filter (\<lambda>k'. c_address k' \<noteq> c_address k) ks = ks"
    by (auto intro: filter_True)
  then show ?thesis using assms(2,3) by (simp add: without_def)
qed

lemma modify_head:
  assumes "invar J cursor_count X s" "connections (agent s) = k # ks" "c_address (f k) = c_address k"
    and "wf_connection cursor_count k \<Longrightarrow> wf_connection cursor_count (f k)"
    and "held_connection (f k) + X' = held_connection k + X"
    and "\<And>s'. invar J cursor_count X' s' \<Longrightarrow> agent s' = (agent s)\<lparr>connections := f k # ks\<rparr> \<Longrightarrow>
      da s' = da s \<Longrightarrow> sqlstate s' = sqlstate s \<Longrightarrow> Q () s'"
  shows "ok (modify (c_address k) f s) Q"
proof -
  have wf: "wf_agent cursor_count (agent s)" using assms(1) by (rule invar_wf_agent)
  let ?a = "(agent s)\<lparr>connections := f k # ks\<rparr>"
  have "wf_agent cursor_count ?a"
    using wf assms(2,3,4) unfolding wf_agent_def by simp
  moreover have "held ?a + X' = held (agent s) + X"
    using assms(5) by (simp add: held_def assms(2) ac_simps)
  ultimately have "invar J cursor_count X' (s\<lparr>agent := ?a\<rparr>)"
    using assms(1) by (simp add: invar_def)
  then show ?thesis
    using head_simps [OF assms(2)]
    by (auto intro!: modify_ok assms(6) simp: update_head [OF wf assms(2)])
qed

lemma vsql_m_open_env_ok [wp]:
  assumes "invar J cursor_count X s"
    and "\<And>s'. invar J cursor_count X s' \<Longrightarrow> ready (agent s') \<Longrightarrow>
      connections (agent s') = connections (agent s) \<Longrightarrow> current (agent s') = current (agent s) \<Longrightarrow>
      connected (agent s') = connected (agent s) \<Longrightarrow>
      next_address (agent s') = next_address (agent s) \<Longrightarrow>
      header (da s') = header (da s) \<Longrightarrow> sqlstate s' = sqlstate s \<Longrightarrow> Q True s'"
    and "\<And>s'. invar J cursor_count X s' \<Longrightarrow>
      connections (agent s') = connections (agent s) \<Longrightarrow> current (agent s') = current (agent s) \<Longrightarrow>
      connected (agent s') = connected (agent s) \<Longrightarrow>
      header (da s') = header (da s) \<Longrightarrow> length (sqlstate s') = 5 \<Longrightarrow> Q False s'"
  shows "ok (vsql_m_open_env L s) Q"
proof (cases "ready (agent s)")
  case True
  then show ?thesis using assms(1,2) by (simp add: vsql_m_open_env_def)
next
  case False
  have none: "connections (agent s) = []" "current (agent s) = None"
    using assms(1) False by (auto simp: invar_def wf_agent_def)
  let ?good = "\<lambda>h t. t\<lparr>agent := (agent t)\<lparr>env := h, ready := True, atexits := Suc (atexits (agent t))\<rparr>\<rparr>"
  have "invar J cursor_count X (?good h t)"
    if "invar J cursor_count (add_mset (SQL_HANDLE_ENV, h) X) t" "agent t = agent s" for h t
    using that False none by (simp add: invar_def wf_agent_def held_def)
  moreover have "ok (vsql_m_status ''HY001'' (t\<lparr>agent := (agent s)\<lparr>env := 0\<rparr>\<rparr>)) (\<lambda>_. Q False)"
    if "invar J cursor_count X t" "agent t = agent s" "da t = da s" for t
  proof (rule vsql_m_status_ok)
    show "invar J cursor_count X (t\<lparr>agent := (agent s)\<lparr>env := 0\<rparr>\<rparr>)"
      using that False none by (simp add: invar_def wf_agent_def held_def)
  qed (use that in \<open>auto intro!: assms(3)\<close>)
  ultimately show ?thesis
    unfolding vsql_m_open_env_def using False assms(1)
    by (auto intro!: alloc_ok [OF assms(1)] assms(2)
        simp: parent_def vsql_m_failed_iff)
qed

lemma push_invar:
  assumes "invar J cursor_count X s" "ready (agent s)"
  shows "invar J cursor_count X (s\<lparr>agent := (agent s)\<lparr>
    connections := new_connection (next_address (agent s)) # connections (agent s),
    next_address := Suc (next_address (agent s))\<rparr>\<rparr>)"
  using assms
  by (auto simp: invar_def wf_agent_def held_def held_connection_def new_connection_def
      wf_connection_def less_Suc_eq)

text \<open>A new SQL-connection: it has no name yet, and its default schema is the module's.\<close>

definition fresh :: "vsql_m_module \<Rightarrow> string \<Rightarrow> vsql_m_connection \<Rightarrow> bool" where
  "fresh M server k \<longleftrightarrow> (\<exists>n v d. d \<noteq> 0 \<and> (v = None \<or> v = Some server) \<and>
     k = (new_connection n)\<lparr>c_server := v, c_dbc := d, c_module := Some (own M)\<rparr>)"

lemma freshD:
  assumes "fresh M server k"
  shows "c_dbc k \<noteq> 0" "c_module k = Some (own M)" "c_name k = ''''" "\<not> c_is_default k"
    "\<not> c_active k" "c_cursors k = []" "c_prepared k = []" "c_descriptors k = []"
  using assms by (cases k, auto simp: fresh_def new_connection_def)+

lemma vsql_m_open_ok [wp]:
  assumes s: "invar J cursor_count X s"
    and bad: "\<And>s'. invar J cursor_count X s' \<Longrightarrow> connections (agent s') = connections (agent s) \<Longrightarrow>
      current (agent s') = current (agent s) \<Longrightarrow> connected (agent s') = connected (agent s) \<Longrightarrow>
      header (da s') = header (da s) \<Longrightarrow> length (sqlstate s') = 5 \<Longrightarrow> Q None s'"
    and good: "\<And>k s'. invar J cursor_count X s' \<Longrightarrow> fresh M server k \<Longrightarrow>
      connections (agent s') = k # connections (agent s) \<Longrightarrow>
      current (agent s') = current (agent s) \<Longrightarrow> connected (agent s') = connected (agent s) \<Longrightarrow>
      header (da s') = header (da s) \<Longrightarrow> Q (Some (c_address k)) s'"
  shows "ok (vsql_m_open L M server user s) Q"
proof -
  let ?same = "\<lambda>ks t. connections (agent t) = ks \<and> current (agent t) = current (agent s) \<and>
    connected (agent t) = connected (agent s) \<and> header (da t) = header (da s)"
  let ?ks = "connections (agent s)"
  have current: "current (agent t) \<noteq> Some (c_address k)"
    if "invar J cursor_count X t" "?same (k # ?ks) t" for t :: "'w state" and k
  proof
    assume "current (agent t) = Some (c_address k)"
    then have "c_address k \<in> c_address ` set ?ks"
      using s that(2) by (simp add: invar_def wf_agent_def)
    moreover have "c_address k \<notin> c_address ` set ?ks"
      using that by (simp add: invar_def wf_agent_def)
    ultimately show False by blast
  qed
  have close: "ok (vsql_m_close L (c_address k) t) (\<lambda>_. Q None)"
    if t: "invar J cursor_count X t" "?same (k # ?ks) t" "c_dbc k \<noteq> 0" "length (sqlstate t) = 5" for t k
  proof (rule vsql_m_close_ok [OF t(1)])
    fix t' :: "'w state"
    assume t': "invar J cursor_count X t'" "agent t' = without (c_address k) (agent t)"
      "da t' = da t" "sqlstate t' = sqlstate t"
    then have "agent t' = (agent t)\<lparr>connections := ?ks\<rparr>"
      using t(2) without_head [OF invar_wf_agent [OF t(1)]] current [OF t(1,2)] by simp
    with t show "Q None t'" by (intro bad [OF t'(1)]) (simp_all add: t'(3,4))
  qed (use t head_simps [of "agent t"] in simp_all)
  have schema: "ok (vsql_m_schema L M (c_address k) t) (\<lambda>g s.
      (\<not> g \<longrightarrow> ok (vsql_m_close L (c_address k) s) (\<lambda>_. Q None)) \<and>
      (g \<longrightarrow> Q (Some (c_address k)) s))"
    if t: "invar J cursor_count X t" "?same (k # ?ks) t" and
      k: "k = (new_connection (c_address k))\<lparr>c_server := v, c_dbc := d\<rparr>" "d \<noteq> 0"
      "v = None \<or> v = Some server" for t k v d
  proof -
    have k': "c_dbc k = d" "c_module k = None"
      by (subst k(1), simp add: new_connection_def)+
    have "fresh M server (k\<lparr>c_module := Some (own M)\<rparr>)"
      unfolding fresh_def using k
      by (intro exI [of _ "c_address k"] exI [of _ v] exI [of _ d]) (subst k(1), simp)
    then show ?thesis
      using t k(2) head_simps [of "agent t" k ?ks] update_head [OF invar_wf_agent [OF t(1)], of k ?ks]
      by (intro vsql_m_schema_ok [OF t(1)])
        (auto intro!: close good [of _ "k\<lparr>c_module := Some (own M)\<rparr>", simplified] simp: k')
  qed
  have diag: "ok (vsql_m_diag L rc SQL_HANDLE_DBC d t) (\<lambda>_ s. ok (vsql_m_close L (c_address k) s) (\<lambda>_. Q None))"
    if t: "invar J cursor_count X t" "?same (k # ?ks) t" "c_dbc k = d" "d \<noteq> 0" for t rc k d
  proof (rule vsql_m_diag_ok [OF t(1)])
    show "(SQL_HANDLE_DBC, d) \<in># held (agent t) + X"
      using t head_simps [of "agent t" k ?ks] held_dbc [of "c_address k" "agent t"] by auto
  qed (use t in \<open>auto intro!: close\<close>)
  have connect: "ok (call (SQLConnect L d server user) t) (\<lambda>rc s.
      (\<not> completed rc \<longrightarrow> ok (vsql_m_diag L rc SQL_HANDLE_DBC d s) (\<lambda>_ s.
         ok (vsql_m_close L n s) (\<lambda>_. Q None))) \<and>
      (completed rc \<longrightarrow> ok (vsql_m_schema L M n s) (\<lambda>g s.
         (\<not> g \<longrightarrow> ok (vsql_m_close L n s) (\<lambda>_. Q None)) \<and> (g \<longrightarrow> Q (Some n) s))))"
    if t: "invar J cursor_count X t"
      "?same ((new_connection n)\<lparr>c_server := v, c_dbc := d\<rparr> # ?ks) t" "d \<noteq> 0"
      "v = None \<or> v = Some server" for t v d n
  proof (rule call_preserves [OF t(1)])
    let ?k = "(new_connection n)\<lparr>c_server := v, c_dbc := d\<rparr>"
    have n: "c_address ?k = n" "c_dbc ?k = d" by (simp_all add: new_connection_def)
    show "preserves J (held (agent t) + X) (SQLConnect L d server user)"
      using t(2,3) head_simps [of "agent t" ?k ?ks] held_dbc [of n "agent t"] n
      by (intro uses) auto
  qed (use t diag [of _ "(new_connection n)\<lparr>c_server := v, c_dbc := d\<rparr>" d]
      schema [of _ "(new_connection n)\<lparr>c_server := v, c_dbc := d\<rparr>" d v]
      in \<open>auto simp: new_connection_def\<close>)
  have push: "ok (vsql_m_copy server (t\<lparr>agent := a\<lparr>connections := new_connection n # ?ks,
      next_address := Suc n\<rparr>\<rparr>)) R"
    if t: "invar J cursor_count X t" "agent t = a" "?same ?ks t" "ready a" "n = next_address a"
      "\<And>v t'. invar J cursor_count X t' \<Longrightarrow> ?same (new_connection n # ?ks) t' \<Longrightarrow> ready (agent t') \<Longrightarrow>
        v = None \<or> v = Some server \<Longrightarrow> R v t'" for t n a R
    using push_invar [OF t(1)] t(2-5)
    by (intro vsql_m_copy_invar [where J = J and cc = cursor_count and X = X] t(6)) auto
  have server: "ok (modify n (\<lambda>k. k\<lparr>c_server := v\<rparr>) t) R"
    if "invar J cursor_count X t" "?same (new_connection n # ?ks) t" "ready (agent t)"
      "\<And>t'. invar J cursor_count X t' \<Longrightarrow> ?same ((new_connection n)\<lparr>c_server := v\<rparr> # ?ks) t' \<Longrightarrow>
        ready (agent t') \<Longrightarrow> R () t'" for t n v R
    using that
    by (intro modify_head [of X t "new_connection n", simplified new_connection_def, simplified])
      (auto simp: new_connection_def wf_connection_def held_connection_def)
  have dbc: "ok (modify n (\<lambda>k. k\<lparr>c_dbc := d\<rparr>) t) R"
    if "invar J cursor_count (if d = 0 then X else add_mset (SQL_HANDLE_DBC, d) X) t"
      "?same ((new_connection n)\<lparr>c_server := v\<rparr> # ?ks) t" "ready (agent t)"
      "\<And>t'. invar J cursor_count X t' \<Longrightarrow>
        ?same ((new_connection n)\<lparr>c_server := v, c_dbc := d\<rparr> # ?ks) t' \<Longrightarrow>
        ready (agent t') \<Longrightarrow> R () t'" for t n d v R
    using that
    by (intro modify_head [OF that(1), of "(new_connection n)\<lparr>c_server := v\<rparr>", simplified new_connection_def, simplified])
      (auto simp: new_connection_def wf_connection_def held_connection_def)
  have unlink: "Q None (t\<lparr>agent := (agent t)\<lparr>connections := tl (connections (agent t))\<rparr>\<rparr>)"
    if t: "invar J cursor_count X t"
      "?same ((new_connection n)\<lparr>c_server := v, c_dbc := 0\<rparr> # ?ks) t" "length (sqlstate t) = 5"
    for t n v
  proof (rule bad)
    show "invar J cursor_count X (t\<lparr>agent := (agent t)\<lparr>connections := tl (connections (agent t))\<rparr>\<rparr>)"
      using t(1,2) current [OF t(1,2)] by (auto simp: invar_def wf_agent_def held_def
          held_connection_def new_connection_def)
  qed (use t in auto)
  show ?thesis
    unfolding vsql_m_open_def using s
    by - ((rule push server dbc unlink connect conjI impI refl | erule wp | assumption
       | clarsimp simp: parent_env held_env vsql_m_failed_iff | (rule bad; simp))[1])+
qed

text \<open>The SQL-connection of a statement is the current one, with the schema of the module.\<close>

lemma vsql_m_connection_ok [wp]:
  assumes s: "invar J cursor_count X s" and settled: "settled (agent s)"
    and bad: "\<And>s'. invar J cursor_count X s' \<Longrightarrow> settled (agent s') \<Longrightarrow>
      header (da s') = header (da s) \<Longrightarrow> length (sqlstate s') = 5 \<Longrightarrow> Q None s'"
    and good: "\<And>c s'. invar J cursor_count X s' \<Longrightarrow> settled (agent s') \<Longrightarrow> live c (agent s') \<Longrightarrow>
      current (agent s') = Some c \<Longrightarrow> c_module (lookup c (agent s')) = Some (own M) \<Longrightarrow>
      header (da s') = header (da s) \<Longrightarrow> Q (Some c) s'"
  shows "ok (vsql_m_connection L M s) Q"
proof (cases "current (agent s)")
  case (Some c)
  have live: "live c (agent s)" using s Some by (rule invar_current)
  show ?thesis
    unfolding vsql_m_connection_def using Some live settled settled_dbc [OF settled live]
    by (simp, intro vsql_m_schema_ok [OF s live])
      (auto intro!: bad good simp: settled_update live_update lookup_update s)
next
  case None
  show ?thesis
  proof (cases "connected (agent s)")
    case True
    then show ?thesis
      unfolding vsql_m_connection_def using None settled
      by (auto intro!: vsql_m_status_ok [OF s] bad)
  next
    case False
    then have empty: "connections (agent s) = []"
      using settled None by (auto simp: settled_def)
    have opened: "ok (modify (c_address k) (\<lambda>k. k\<lparr>c_is_default := True\<rparr>)
        (t\<lparr>agent := (agent t)\<lparr>current := Some (c_address k)\<rparr>\<rparr>)) (\<lambda>_ s. Q (current (agent s)) s)"
      if t: "invar J cursor_count X t" "fresh M ''DEFAULT'' k" "connections (agent t) = [k]"
        "header (da t) = header (da s)" for t k
    proof (rule modify_head [OF set_current_invar [OF t(1)]])
      let ?k = "k\<lparr>c_is_default := True\<rparr>"
      fix t' :: "'w state"
      let ?a = "(agent t)\<lparr>current := Some (c_address k)\<rparr>"
      assume t': "invar J cursor_count X t'"
        "agent t' = (agent (t\<lparr>agent := ?a\<rparr>))\<lparr>connections := [?k]\<rparr>" "da t' = da (t\<lparr>agent := ?a\<rparr>)"
      have "Q (Some (c_address k)) t'"
        using t' t(4) freshD [OF t(2)] by (intro good) (auto simp: settled_def named_def live_def lookup_def)
      then show "Q (current (agent t')) t'" using t'(2) by simp
    qed (use t in \<open>auto simp: wf_connection_def held_connection_def head_simps\<close>)
    have closed: "Q None (t\<lparr>agent := (agent t)\<lparr>current := None\<rparr>\<rparr>)"
      if "invar J cursor_count X t" "connections (agent t) = []" "header (da t) = header (da s)"
        "length (sqlstate t) = 5" for t
      using that set_current_invar [OF that(1), of None]
      by (intro bad) (auto simp: settled_def named_def)
    show ?thesis
      unfolding vsql_m_connection_def using None False empty
      by (auto intro!: vsql_m_open_ok [OF s] opened closed)
  qed
qed

text \<open>The current SQL-connection is the same one when there is one.\<close>

lemma vsql_m_connection_same:
  assumes s: "invar J cursor_count X s" and settled: "settled (agent s)" and c: "current (agent s) = Some c"
    and bad: "\<And>s'. invar J cursor_count X s' \<Longrightarrow> settled (agent s') \<Longrightarrow>
      same_session c (agent s) (agent s') \<Longrightarrow> length (sqlstate s') = 5 \<Longrightarrow> Q None s'"
    and good: "\<And>s'. invar J cursor_count X s' \<Longrightarrow> settled (agent s') \<Longrightarrow>
      same_session c (agent s) (agent s') \<Longrightarrow> Q (Some c) s'"
  shows "ok (vsql_m_connection L M s) Q"
proof -
  have live: "live c (agent s)" using s c by (rule invar_current)
  have "held (update c (\<lambda>k. k\<lparr>c_module := m\<rparr>) (agent s)) = held (agent s)" for m
    using held_update [OF invar_wf_agent [OF s] live, of "\<lambda>k. k\<lparr>c_module := m\<rparr>" "{#}" "{#}"]
    by (simp add: held_connection_def)
  then show ?thesis
    unfolding vsql_m_connection_def using c live settled settled_dbc [OF settled live]
    by (simp, intro vsql_m_schema_ok [OF s live])
      (auto intro!: bad good simp: settled_update live_update lookup_update s)
qed

text \<open>At the end of the program every handle is freed.\<close>

lemma vsql_m_exit_ok [wp]:
  assumes "invar J cursor_count X s" "settled (agent s)" "ready (agent s)"
    and Q: "\<And>s'. invar J cursor_count X s' \<Longrightarrow> connections (agent s') = [] \<Longrightarrow> \<not> ready (agent s') \<Longrightarrow>
      J X (world s') \<Longrightarrow> Q () s'"
  shows "ok (vsql_m_exit L s) Q"
proof -
  have free: "ok (call (SQLFreeHandle L SQL_HANDLE_ENV (env (agent t))) t)
      (\<lambda>_ t. Q () (vsql_m_clear (t\<lparr>agent := (agent t)\<lparr>ready := False\<rparr>\<rparr>)))"
    if t: "invar J cursor_count X t" "agent t = (agent s)\<lparr>connections := [], current := None\<rparr>" for t
  proof (rule call_ok)
    fix a w
    assume call: "SQLFreeHandle L SQL_HANDLE_ENV (env (agent t)) (world t) = (a, w)"
    have "held (agent t) = {#(SQL_HANDLE_ENV, env (agent t))#}"
      using t(2) assms(3) by (simp add: held_def)
    then have "J X w"
      using free [of "held (agent t) + X" "world t" SQL_HANDLE_ENV "env (agent t)"] t(1) call
      by (simp add: invar_def)
    then show "Q () (vsql_m_clear (t\<lparr>world := w, agent := (agent (t\<lparr>world := w\<rparr>))\<lparr>ready := False\<rparr>\<rparr>))"
      using t by (intro Q) (auto simp: invar_def wf_agent_def held_def vsql_m_clear_def wf_da_def)
  qed
  show ?thesis
    unfolding vsql_m_exit_def using assms(2)
    by (auto intro!: vsql_m_close_all_ok [OF assms(1)] free simp: settled_def)
qed

section \<open>Starting and ending an SQL-transaction\<close>

lemma keep_active:
  assumes "invar J cursor_count X s" "settled (agent s)" "live c (agent s)"
    and "\<And>s'. invar J cursor_count X s' \<Longrightarrow> settled (agent s') \<Longrightarrow>
      agent s' = update c (\<lambda>k. k\<lparr>c_active := b\<rparr>) (agent s) \<Longrightarrow> da s' = da s \<Longrightarrow>
      sqlstate s' = sqlstate s \<Longrightarrow> Q () s'"
  shows "ok (modify c (\<lambda>k. k\<lparr>c_active := b\<rparr>) s) Q"
  by (rule modify_invar [OF assms(1,3), where X' = X])
    (auto intro!: assms(4) simp: settled_update assms(2) wf_connection_def held_connection_def)

lemma vsql_m_start_ok [wp]:
  assumes "invar J cursor_count X s" "settled (agent s)"
    and "\<And>s'. invar J cursor_count X s' \<Longrightarrow> settled (agent s') \<Longrightarrow> length (sqlstate s') = 5 \<Longrightarrow> Q () s'"
  shows "ok (vsql_m_start L M s) Q"
  unfolding vsql_m_start_def using assms(1,2)
  by - ((erule wp | rule deref_ok uses conjI impI keep_active | erule call_preserves | assumption
    | clarsimp simp: held_dbc settled_dbc | (rule assms(3); simp))[1])+

lemma vsql_m_end_ok [wp]:
  assumes "invar J cursor_count X s" "settled (agent s)"
    and "\<And>s'. invar J cursor_count X s' \<Longrightarrow> settled (agent s') \<Longrightarrow> length (sqlstate s') = 5 \<Longrightarrow> Q () s'"
  shows "ok (vsql_m_end L M completion s) Q"
proof -
  have ended: "ok (modify c (\<lambda>k. k\<lparr>c_active := False\<rparr>) (t\<lparr>da := d\<rparr>)) Q"
    if "invar J cursor_count X t" "settled (agent t)" "live c (agent t)" "length (sqlstate t) = 5"
      "wf_da (da t) \<Longrightarrow> wf_da d" for t c d
    using that by (intro keep_active [OF invar_da [OF that(1)]])
      (auto intro: invar_wf_da intro!: assms(3))
  show ?thesis
    unfolding vsql_m_end_def Let_def using assms(1,2)
    by - ((erule wp | rule deref_ok uses ended conjI impI | erule call_preserves
      | clarsimp simp: held_dbc settled_dbc wf_da_def | (rule keep_active, assumption)
      | (rule assms(3); simp))[1])+
qed

end

end
