(* ===== verification/Names.thy ===== *)
theory Names
  imports Prelude
begin

text \<open>
  \<open>vsql_m_name\<close> (\<open>std_2_13_1_sql_client_module_definition.c\<close>, section name): the identifier in a
  character string that names an SQL-connection or a user, either delimited or regular.
\<close>

section \<open>The function\<close>

definition quote :: char where "quote = CHR 0x22"

text \<open>
  The loop over the characters between the quotes of a delimited identifier, of which \<open>n\<close> have
  been copied to \<open>name\<close>. The first of two quotes must be followed by the second one. \<open>None\<close> is
  the early return.
\<close>

fun vsql_m_name_delimited :: "nat \<Rightarrow> string \<Rightarrow> string option" where
  "vsql_m_name_delimited n [] = Some []"
| "vsql_m_name_delimited n (c # cs) =
     (if n = 128 then None
      else if c = quote then
        (case cs of
           [] \<Rightarrow> None
         | d # ds \<Rightarrow>
             if d \<noteq> quote then None
             else map_option ((#) d) (vsql_m_name_delimited (Suc n) ds))
      else map_option ((#) c) (vsql_m_name_delimited (Suc n) cs))"

text \<open>
  The loop over a regular identifier, of which \<open>n\<close> characters have been copied: a digit can't
  be the first one.
\<close>

fun vsql_m_name_regular :: "nat \<Rightarrow> string \<Rightarrow> string option" where
  "vsql_m_name_regular n [] = Some []"
| "vsql_m_name_regular n (c # cs) =
     (if n = 128 \<or> \<not> (isalpha c \<or> c = CHR ''_'' \<or> (n > 0 \<and> isdigit c)) then None
      else map_option ((#) (toupper c)) (vsql_m_name_regular (Suc n) cs))"

definition trim_spaces :: "string \<Rightarrow> string" where
  "trim_spaces s =
     rev (dropWhile (\<lambda>c. c = CHR '' '') (rev (dropWhile (\<lambda>c. c = CHR '' '') s)))"

text \<open>The name is empty if the string isn't an identifier.\<close>

definition vsql_m_name :: "string \<Rightarrow> string" where
  "vsql_m_name s = (let t = trim_spaces s in
     if t \<noteq> [] \<and> hd t = quote then
       if length t < 3 \<or> last t \<noteq> quote then ''''
       else (case vsql_m_name_delimited 0 (butlast (tl t)) of None \<Rightarrow> '''' | Some n \<Rightarrow> n)
     else (case vsql_m_name_regular 0 t of None \<Rightarrow> '''' | Some n \<Rightarrow> n))"

section \<open>Bounds\<close>

lemma length_name_delimited:
  "vsql_m_name_delimited n s = Some t \<Longrightarrow> n \<le> 128 \<Longrightarrow> n + length t \<le> 128"
  by (induction n s arbitrary: t rule: vsql_m_name_delimited.induct)
    (fastforce split: if_splits list.splits)+

lemma length_name_regular:
  "vsql_m_name_regular n s = Some t \<Longrightarrow> n \<le> 128 \<Longrightarrow> n + length t \<le> 128"
  by (induction n s arbitrary: t rule: vsql_m_name_regular.induct)
    (fastforce split: if_splits)+

lemma length_vsql_m_name: "length (vsql_m_name s) \<le> 128"
  using length_name_delimited [of 0] length_name_regular [of 0]
  by (auto simp: vsql_m_name_def Let_def split: option.splits)

section \<open>Delimited identifiers\<close>

text \<open>The delimited identifier of a name: every quote in it is doubled.\<close>

fun double_quotes :: "string \<Rightarrow> string" where
  "double_quotes [] = []"
| "double_quotes (c # cs) = (if c = quote then [c, c] else [c]) @ double_quotes cs"

definition delimited :: "string \<Rightarrow> string" where
  "delimited n = quote # double_quotes n @ [quote]"

lemma name_delimited_double_quotes:
  "n + length s \<le> 128 \<Longrightarrow> vsql_m_name_delimited n (double_quotes s) = Some s"
  by (induction s arbitrary: n) auto

lemma name_delimited_inv:
  "vsql_m_name_delimited n s = Some t \<Longrightarrow> s = double_quotes t"
  by (induction n s arbitrary: t rule: vsql_m_name_delimited.induct)
    (auto split: if_splits list.splits)

lemma trim_spaces_id:
  assumes "t = [] \<or> hd t \<noteq> CHR '' '' \<and> last t \<noteq> CHR '' ''"
  shows "trim_spaces t = t"
proof -
  have "dropWhile (\<lambda>c. c = CHR '' '') t = t"
    using assms by (auto simp: dropWhile_eq_self_iff)
  moreover have "dropWhile (\<lambda>c. c = CHR '' '') (rev t) = rev t"
    using assms by (auto simp: dropWhile_eq_self_iff hd_rev)
  ultimately show ?thesis by (simp add: trim_spaces_def)
qed

lemma trim_spaces_spaces:
  "trim_spaces (replicate i (CHR '' '') @ s @ replicate j (CHR '' '')) = trim_spaces s"
proof -
  have left: "dropWhile (\<lambda>c. c = x) (replicate i x @ t) = dropWhile (\<lambda>c. c = x) t"
    for x :: char and i t
    by (induction i) auto
  have right: "rev (dropWhile (\<lambda>c. c = x) (t @ replicate j x)) =
      replicate (if dropWhile (\<lambda>c. c = x) t = [] then 0 else j) x @ rev (dropWhile (\<lambda>c. c = x) t)"
    for x :: char and t
    by (induction t) (auto simp: dropWhile_eq_Nil_conv)
  show ?thesis
    unfolding trim_spaces_def by (simp add: left right)
qed

lemma quote_not_space: "quote \<noteq> CHR '' ''"
  by (simp add: quote_def)

lemma vsql_m_name_delimited_eq:
  assumes "n \<noteq> ''''"
  shows "vsql_m_name (delimited n) = (if length n \<le> 128 then n else '''')"
proof -
  have "trim_spaces (delimited n) = delimited n"
    by (rule trim_spaces_id) (simp add: delimited_def quote_not_space)
  moreover have "3 \<le> length (delimited n)"
    using assms by (cases n) (auto simp: delimited_def)
  moreover have "vsql_m_name_delimited 0 (double_quotes n) =
      (if length n \<le> 128 then Some n else None)"
  proof (cases "vsql_m_name_delimited 0 (double_quotes n)")
    case None
    then show ?thesis using name_delimited_double_quotes [of 0 n] by auto
  next
    case (Some t)
    have inj: "double_quotes a = double_quotes b \<Longrightarrow> a = b" for a b
      by (induction a arbitrary: b rule: double_quotes.induct;
          case_tac b) (auto split: if_splits)
    show ?thesis
      using Some name_delimited_inv [OF Some] inj length_name_delimited [OF Some] by auto
  qed
  ultimately show ?thesis
    by (auto simp: vsql_m_name_def delimited_def Let_def butlast_append)
qed

section \<open>Regular identifiers\<close>

lemma name_regular_eq:
  "vsql_m_name_regular n s = Some t \<Longrightarrow> t = map toupper s"
  by (induction n s arbitrary: t rule: vsql_m_name_regular.induct) (auto split: if_splits)

lemma toupper_underscore [simp]: "toupper c = CHR ''_'' \<longleftrightarrow> c = CHR ''_''"
  by (rule toupper_eq_other) (simp add: isalpha_def isupper_def islower_def octet_def)

lemma toupper_quote [simp]: "toupper c = quote \<longleftrightarrow> c = quote"
  by (rule toupper_eq_other) (simp add: isalpha_def isupper_def islower_def octet_def quote_def)

lemma toupper_space [simp]: "toupper c = CHR '' '' \<longleftrightarrow> c = CHR '' ''"
  by (rule toupper_eq_other) (simp add: isalpha_def isupper_def islower_def octet_def)

lemma name_regular_toupper:
  "vsql_m_name_regular n (map toupper s) = vsql_m_name_regular n s"
  by (induction n s rule: vsql_m_name_regular.induct) auto

lemma dropWhile_space_toupper:
  "dropWhile (\<lambda>c. c = CHR '' '') (map toupper s) = map toupper (dropWhile (\<lambda>c. c = CHR '' '') s)"
  by (simp add: dropWhile_map comp_def)

lemma trim_spaces_toupper: "trim_spaces (map toupper s) = map toupper (trim_spaces s)"
  by (simp only: trim_spaces_def dropWhile_space_toupper rev_map)

lemma vsql_m_name_no_quote:
  "quote \<notin> set s \<Longrightarrow> vsql_m_name s =
    (case vsql_m_name_regular 0 (trim_spaces s) of None \<Rightarrow> '''' | Some n \<Rightarrow> n)"
proof -
  assume s: "quote \<notin> set s"
  have "set (trim_spaces s) \<subseteq> set s"
    unfolding trim_spaces_def by (metis set_dropWhileD set_rev subsetI)
  then have "\<not> (trim_spaces s \<noteq> [] \<and> hd (trim_spaces s) = quote)"
    using s by (metis hd_in_set subsetD)
  then show ?thesis
    unfolding vsql_m_name_def Let_def by (simp only: if_False)
qed

lemma quote_toupper: "quote \<in> set (map toupper s) \<longleftrightarrow> quote \<in> set s"
  by (induction s) (auto simp: eq_commute [of quote])

lemma vsql_m_name_map_toupper:
  "quote \<notin> set s \<Longrightarrow> vsql_m_name (map toupper s) = vsql_m_name s"
  using quote_toupper [of s]
  by (simp only: vsql_m_name_no_quote trim_spaces_toupper name_regular_toupper not_False_eq_True)

lemma vsql_m_name_regular_eq:
  "quote \<notin> set s \<Longrightarrow> vsql_m_name s = '''' \<or> vsql_m_name s = map toupper (trim_spaces s)"
  by (auto simp: vsql_m_name_no_quote dest: name_regular_eq split: option.splits)

end
