(* ===== verification/Connect.thy ===== *)
theory Connect
  imports Session Names
begin

text \<open>
  The connection statements (\<open>std_2_13_1_sql_client_module_definition.c\<close>, sections string to
  disconnect): CONNECT, SET CONNECTION and DISCONNECT, and the SQL-connections by their names.
\<close>

section \<open>Routines\<close>

text \<open>
  \<open>s\<close> is the array of the host parameter, which is read up to its first null character.
\<close>

definition vsql_m_string :: "string \<Rightarrow> nat \<Rightarrow> 'w state \<Rightarrow> (bool \<times> 'w state) option" where
  "vsql_m_string text len s =
     (if NUL \<in> set (take len text) then Some (True, s)
      else if length text < len then None
      else do {
        (_, s) \<leftarrow> vsql_m_status ''22024'' s;
        Some (False, s)
      })"

definition vsql_m_find :: "string \<Rightarrow> vsql_m_agent \<Rightarrow> nat option" where
  "vsql_m_find name a =
     map_option c_address (List.find (\<lambda>c. \<not> c_is_default c \<and> c_name c = name) (connections a))"

definition vsql_m_find_default :: "vsql_m_agent \<Rightarrow> nat option" where
  "vsql_m_find_default a = map_option c_address (List.find c_is_default (connections a))"

definition vsql_m_switch :: "'w state \<Rightarrow> (bool \<times> 'w state) option" where
  "vsql_m_switch s = do {
     let s = s\<lparr>agent := (agent s)\<lparr>connected := True\<rparr>\<rparr>;
     (active, s) \<leftarrow> (case current (agent s) of
         None \<Rightarrow> Some (False, s)
       | Some c \<Rightarrow> do {
           (k, s) \<leftarrow> deref c s;
           Some (c_active k, s)
         });
     if active then do {
       (_, s) \<leftarrow> vsql_m_status ''0A001'' s;
       Some (False, s)
     } else Some (True, s)
   }"

text \<open>The part of \<open>vsql_m_connect\<close> for CONNECT TO DEFAULT.\<close>

definition vsql_m_connect_default ::
  "'w cli \<Rightarrow> vsql_m_module \<Rightarrow> 'w state \<Rightarrow> (unit \<times> 'w state) option" where
  "vsql_m_connect_default L M s =
     (if vsql_m_find_default (agent s) \<noteq> None then vsql_m_status ''08002'' s
      else do {
        (c, s) \<leftarrow> vsql_m_open L M ''DEFAULT'' None s;
        case c of
          None \<Rightarrow> Some ((), s)
        | Some c \<Rightarrow> do {
            (_, s) \<leftarrow> modify c (\<lambda>k. k\<lparr>c_is_default := True\<rparr>) s;
            vsql_m_status ''00000'' (s\<lparr>agent := (agent s)\<lparr>current := Some c\<rparr>\<rparr>)
          }
      })"

text \<open>The rest of \<open>vsql_m_connect\<close>, which is for a server that is named.\<close>

definition vsql_m_connect_to ::
  "'w cli \<Rightarrow> vsql_m_module \<Rightarrow> string \<Rightarrow> string option \<Rightarrow> string option \<Rightarrow> 'w state
    \<Rightarrow> (unit \<times> 'w state) option" where
  "vsql_m_connect_to L M server name user s =
     (if (case user of None \<Rightarrow> False | Some u \<Rightarrow> vsql_m_name u = '''')
      then vsql_m_status ''28000'' s
      else do {
        let cn = vsql_m_name (case name of None \<Rightarrow> server | Some n \<Rightarrow> n);
        if cn = '''' then vsql_m_status ''2E000'' s
        else if vsql_m_find cn (agent s) \<noteq> None then vsql_m_status ''08002'' s
        else do {
          (c, s) \<leftarrow> vsql_m_open L M server user s;
          case c of
            None \<Rightarrow> Some ((), s)
          | Some c \<Rightarrow> do {
              cn \<leftarrow> strcpy 129 cn;
              (_, s) \<leftarrow> modify c (\<lambda>k. k\<lparr>c_name := cn\<rparr>) s;
              vsql_m_status ''00000'' (s\<lparr>agent := (agent s)\<lparr>current := Some c\<rparr>\<rparr>)
            }
        }
      })"

definition vsql_m_connect ::
  "'w cli \<Rightarrow> vsql_m_module \<Rightarrow> string option \<Rightarrow> string option \<Rightarrow> string option \<Rightarrow> 'w state
    \<Rightarrow> (unit \<times> 'w state) option" where
  "vsql_m_connect L M server name user s = do {
     (good, s) \<leftarrow> vsql_m_switch s;
     if \<not> good then Some ((), s)
     else (case server of
         None \<Rightarrow> vsql_m_connect_default L M s
       | Some server \<Rightarrow> vsql_m_connect_to L M server name user s)
   }"

definition vsql_m_set_connection ::
  "string option \<Rightarrow> 'w state \<Rightarrow> (unit \<times> 'w state) option" where
  "vsql_m_set_connection name s = do {
     (good, s) \<leftarrow> vsql_m_switch s;
     if \<not> good then Some ((), s)
     else if (case name of None \<Rightarrow> False | Some n \<Rightarrow> vsql_m_name n = '''')
     then vsql_m_status ''2E000'' s
     else (case (case name of
           None \<Rightarrow> vsql_m_find_default (agent s)
         | Some n \<Rightarrow> vsql_m_find (vsql_m_name n) (agent s)) of
         None \<Rightarrow> vsql_m_status ''08003'' s
       | Some c \<Rightarrow> vsql_m_status ''00000'' (s\<lparr>agent := (agent s)\<lparr>current := Some c\<rparr>\<rparr>))
   }"

text \<open>
  \<open>which\<close> is \<open>n\<close> for a name, \<open>D\<close> for DEFAULT, \<open>A\<close> for ALL or \<open>C\<close> for CURRENT.
\<close>

definition vsql_m_disconnect ::
  "'w cli \<Rightarrow> char \<Rightarrow> string \<Rightarrow> 'w state \<Rightarrow> (unit \<times> 'w state) option" where
  "vsql_m_disconnect L which name s = do {
     let s = s\<lparr>agent := (agent s)\<lparr>connected := True\<rparr>\<rparr>;
     if which = CHR ''n'' \<and> vsql_m_name name = '''' then vsql_m_status ''2E000'' s
     else do {
       let c = (if which = CHR ''n'' then vsql_m_find (vsql_m_name name) (agent s)
         else if which = CHR ''D'' then vsql_m_find_default (agent s)
         else if which = CHR ''C'' then current (agent s)
         else None);
       if which \<noteq> CHR ''A'' \<and> c = None then vsql_m_status ''08003'' s
       else if list_ex (\<lambda>k. (which = CHR ''A'' \<or> Some (c_address k) = c) \<and> c_active k)
         (connections (agent s))
       then vsql_m_status ''25001'' s
       else do {
         (_, s) \<leftarrow> (if which = CHR ''A'' then vsql_m_close_all L s
           else (case c of None \<Rightarrow> None | Some a \<Rightarrow> vsql_m_close L a s));
         vsql_m_status ''00000'' s
       }
     }
   }"

section \<open>Rules\<close>

lemma vsql_m_find_Some:
  "vsql_m_find n a = Some c \<Longrightarrow>
   \<exists>k\<in>set (connections a). c_address k = c \<and> \<not> c_is_default k \<and> c_name k = n"
  by (auto simp: vsql_m_find_def find_Some_iff)

lemma vsql_m_find_None: "vsql_m_find n a = None \<longleftrightarrow> n \<notin> set (named (connections a))"
  by (auto simp: vsql_m_find_def named_def find_None_iff)

lemma vsql_m_find_default_Some:
  "vsql_m_find_default a = Some c \<Longrightarrow> \<exists>k\<in>set (connections a). c_address k = c \<and> c_is_default k"
  by (auto simp: vsql_m_find_default_def find_Some_iff)

lemma vsql_m_find_default_None:
  "vsql_m_find_default a = None \<longleftrightarrow> filter c_is_default (connections a) = []"
  by (auto simp: vsql_m_find_default_def find_None_iff filter_empty_conv)

lemma vsql_m_find_live:
  "vsql_m_find n a = Some c \<Longrightarrow> live c a"
  "vsql_m_find_default a = Some c \<Longrightarrow> live c a"
  by (auto simp: live_def dest: vsql_m_find_Some vsql_m_find_default_Some)

lemma settled_connected: "settled a \<Longrightarrow> settled (a\<lparr>connected := True\<rparr>)"
  by (simp add: settled_def)

lemma settled_current: "settled a \<Longrightarrow> connected a \<Longrightarrow> settled (a\<lparr>current := c\<rparr>)"
  by (simp add: settled_def)

lemma settled_empty: "settled a \<Longrightarrow> settled (a\<lparr>connections := [], current := None\<rparr>)"
  by (simp add: settled_def named_def)

lemma connected_invar: "invar J cc X s \<Longrightarrow>
    invar J cc X (s\<lparr>agent := (agent s)\<lparr>connected := True\<rparr>\<rparr>)"
  by (auto simp: invar_def wf_agent_def held_def)

text \<open>A connection statement is not allowed in an active SQL-transaction.\<close>

definition active :: "vsql_m_agent \<Rightarrow> bool" where
  "active a \<longleftrightarrow> (case current a of None \<Rightarrow> False | Some c \<Rightarrow> c_active (lookup c a))"

section \<open>Specification\<close>

text \<open>
  What the connection statements do to the names of the SQL-connections and the name of the
  current one (\<open>None\<close> is DEFAULT), and the SQLSTATE. \<open>names a\<close> is the set of names.
\<close>

definition conn_name :: "vsql_m_connection \<Rightarrow> string option" where
  "conn_name k = (if c_is_default k then None else Some (c_name k))"

definition names :: "vsql_m_agent \<Rightarrow> string option set" where
  "names a = conn_name ` set (connections a)"

definition current_name :: "vsql_m_agent \<Rightarrow> string option option" where
  "current_name a = map_option (\<lambda>c. conn_name (lookup c a)) (current a)"

definition active_names :: "vsql_m_agent \<Rightarrow> string option set" where
  "active_names a = conn_name ` {k \<in> set (connections a). c_active k}"

definition connect_name :: "string option \<Rightarrow> string option \<Rightarrow> string option" where
  "connect_name server name =
     map_option (\<lambda>v. vsql_m_name (case name of None \<Rightarrow> v | Some n \<Rightarrow> n)) server"

definition connect_check ::
  "vsql_m_agent \<Rightarrow> string option \<Rightarrow> string option \<Rightarrow> string option \<Rightarrow> string" where
  "connect_check a server name user =
     (if active a then ''0A001''
      else if server \<noteq> None \<and> map_option vsql_m_name user = Some '''' then ''28000''
      else if connect_name server name = Some '''' then ''2E000''
      else if connect_name server name \<in> names a then ''08002''
      else ''00000'')"

definition set_connection_check :: "vsql_m_agent \<Rightarrow> string option \<Rightarrow> string" where
  "set_connection_check a name =
     (if active a then ''0A001''
      else if map_option vsql_m_name name = Some '''' then ''2E000''
      else if map_option vsql_m_name name \<notin> names a then ''08003''
      else ''00000'')"

text \<open>The names that a DISCONNECT selects, or \<open>None\<close> when the name isn't an identifier.\<close>

definition selected :: "vsql_m_agent \<Rightarrow> char \<Rightarrow> string \<Rightarrow> string option set option" where
  "selected a which name =
     (if which = CHR ''n'' then
        if vsql_m_name name = '''' then None else Some ({Some (vsql_m_name name)} \<inter> names a)
      else if which = CHR ''D'' then Some ({None} \<inter> names a)
      else if which = CHR ''C'' then Some (set_option (current_name a))
      else if which = CHR ''A'' then Some (names a)
      else Some {})"

definition disconnect_check :: "vsql_m_agent \<Rightarrow> char \<Rightarrow> string \<Rightarrow> string" where
  "disconnect_check a which name = (case selected a which name of
     None \<Rightarrow> ''2E000''
   | Some N \<Rightarrow> if which \<noteq> CHR ''A'' \<and> N = {} then ''08003''
       else if N \<inter> active_names a \<noteq> {} then ''25001''
       else ''00000'')"

lemma vsql_m_find_names: "vsql_m_find n a = None \<longleftrightarrow> Some n \<notin> names a"
  by (auto simp: vsql_m_find_None names_def named_def conn_name_def)

lemma vsql_m_find_default_names: "vsql_m_find_default a = None \<longleftrightarrow> None \<notin> names a"
  by (auto simp: vsql_m_find_default_None filter_empty_conv names_def conn_name_def)

lemma vsql_m_find_case_names:
  "(case name of None \<Rightarrow> vsql_m_find_default a | Some n \<Rightarrow> vsql_m_find (vsql_m_name n) a) = None
    \<longleftrightarrow> map_option vsql_m_name name \<notin> names a"
  by (cases name) (simp_all add: vsql_m_find_names vsql_m_find_default_names)

lemma settled_cons:
  assumes "settled a" "connected a" "c_dbc k \<noteq> 0" "conn_name k \<notin> names a" "conn_name k \<noteq> Some ''''"
  shows "settled (a\<lparr>connections := k # connections a\<rparr>)"
proof (cases "c_is_default k")
  case True
  then have "filter c_is_default (connections a) = []"
    using assms(4) by (auto simp: names_def conn_name_def filter_empty_conv)
  with True assms(1-3) show ?thesis by (simp add: settled_def named_def)
next
  case False
  then have "c_name k \<notin> set (named (connections a))" "c_name k \<noteq> ''''"
    using assms(4,5) by (auto simp: names_def conn_name_def named_def)
  with False assms(1-3) show ?thesis by (simp add: settled_def named_def)
qed

lemma inj_conn_name:
  assumes "settled a"
  shows "inj_on conn_name (set (connections a))"
proof -
  have "inj_on conn_name (set ks)"
    if "distinct (named ks)" "length (filter c_is_default ks) \<le> 1" for ks
    using that
  proof (induction ks)
    case (Cons k ks)
    have "length (filter c_is_default ks) \<le> 1"
      using Cons.prems(2) by (auto split: if_splits)
    moreover have "distinct (named ks)"
      using Cons.prems(1) by (auto simp: named_def split: if_splits)
    moreover have "conn_name k \<notin> conn_name ` set ks"
    proof (cases "c_is_default k")
      case True
      then have "filter c_is_default ks = []" using Cons.prems(2) by simp
      with True show ?thesis by (auto simp: conn_name_def filter_empty_conv)
    next
      case False
      then show ?thesis
        using Cons.prems(1) by (auto simp: conn_name_def named_def split: if_splits)
    qed
    ultimately show ?case using Cons.IH by auto
  qed simp
  then show ?thesis using assms by (simp add: settled_def)
qed

lemma settled_named:
  assumes "settled a" "k \<in> set (connections a)"
  shows "conn_name k \<noteq> Some ''''"
proof
  assume "conn_name k = Some ''''"
  then have "c_name k = ''''" "\<not> c_is_default k" by (auto simp: conn_name_def split: if_splits)
  then have "k \<in> set (filter (\<lambda>k. \<not> c_is_default k) (connections a))" using assms(2) by simp
  then have "'''' \<in> set (named (connections a))"
    unfolding named_def using \<open>c_name k = ''''\<close> by (metis imageI list.set_map)
  then show False using assms(1) by (simp add: settled_def)
qed

lemma lookup_unique:
  assumes "wf_agent cc a" "k \<in> set (connections a)"
  shows "lookup (c_address k) a = k"
proof -
  have live: "live (c_address k) a" using assms(2) by (simp add: live_def)
  have "inj_on c_address (set (connections a))"
    using assms(1) by (simp add: wf_agent_def distinct_map)
  with lookup_mem [OF live] assms(2) show ?thesis by (meson inj_onD)
qed

lemma names_without:
  assumes "wf_agent cc a" "settled a" "live c a"
  shows "names (without c a) = names a - {conn_name (lookup c a)}"
proof -
  have "conn_name ` {k \<in> set (connections a). c_address k \<noteq> c} =
      conn_name ` set (connections a) - {conn_name (lookup c a)}"
    using inj_conn_name [OF assms(2)] lookup_mem [OF assms(3)] lookup_unique [OF assms(1)]
    by (fastforce dest: inj_onD)
  then show ?thesis by (simp add: names_def without_def)
qed

lemma current_name_without:
  assumes "wf_agent cc a" "settled a" "live c a"
  shows "current_name (without c a) =
    (if current_name a = Some (conn_name (lookup c a)) then None else current_name a)"
proof (cases "current a")
  case (Some d)
  then have d: "live d a" using wf_agent_current [OF assms(1)] by simp
  have "conn_name (lookup d a) = conn_name (lookup c a) \<longleftrightarrow> d = c"
    using inj_conn_name [OF assms(2)] lookup_mem [OF assms(3)] lookup_mem [OF d]
    by (metis inj_onD)
  then show ?thesis
    using Some lookup_without [of d c a] by (simp add: current_name_def without_def)
qed (simp add: current_name_def without_def)

text \<open>\<open>a'\<close> is \<open>a\<close> without the SQL-connections that have the names \<open>N\<close>.\<close>

definition removed :: "vsql_m_agent \<Rightarrow> string option set \<Rightarrow> vsql_m_agent \<Rightarrow> bool" where
  "removed a N a' \<longleftrightarrow> names a' = names a - N \<and>
     current_name a' = (if set_option (current_name a) \<subseteq> N then None else current_name a)"

lemma vsql_m_switch_ok:
  fixes s :: "'w state"
  assumes s: "invar J cursor_count X s"
    and bad: "\<And>s'. invar J cursor_count X s' \<Longrightarrow> agent s' = (agent s)\<lparr>connected := True\<rparr> \<Longrightarrow>
      active (agent s) \<Longrightarrow> sqlstate s' = ''0A001'' \<Longrightarrow> has_status ''0A001'' s' \<Longrightarrow> Q False s'"
    and good: "\<And>s'. invar J cursor_count X s' \<Longrightarrow> agent s' = (agent s)\<lparr>connected := True\<rparr> \<Longrightarrow>
      \<not> active (agent s) \<Longrightarrow> da s' = da s \<Longrightarrow> world s' = world s \<Longrightarrow> Q True s'"
  shows "ok (vsql_m_switch s) Q"
proof -
  let ?s = "s\<lparr>agent := (agent s)\<lparr>connected := True\<rparr>\<rparr>"
  have s': "invar J cursor_count X ?s" using s by (rule connected_invar)
  have live: "live c (agent ?s)" "lookup c (agent ?s) = lookup c (agent s)"
    if "current (agent s) = Some c" for c
    using invar_current [OF s that] by (simp_all add: live_def lookup_def)
  show ?thesis
    unfolding vsql_m_switch_def using good [OF s'] live
    by (auto intro!: deref_ok vsql_m_status_ok [OF s'] bad simp: active_def split: option.splits)
qed

text \<open>
  The three statements refine the specification: the SQLSTATE is the one of the check, and only a
  statement that is successful changes the names of the SQL-connections and of the current one.
\<close>

lemma vsql_m_set_connection_ok:
  fixes s :: "'w state"
  assumes s: "invar J cursor_count X s" and settled: "settled (agent s)"
    and Q: "\<And>s'. invar J cursor_count X s' \<Longrightarrow> settled (agent s') \<Longrightarrow> connected (agent s') \<Longrightarrow>
      connections (agent s') = connections (agent s) \<Longrightarrow>
      sqlstate s' = set_connection_check (agent s) name \<Longrightarrow>
      has_status (set_connection_check (agent s) name) s' \<Longrightarrow>
      current_name (agent s') = (if set_connection_check (agent s) name = ''00000''
        then Some (map_option vsql_m_name name) else current_name (agent s)) \<Longrightarrow> Q () s'"
  shows "ok (vsql_m_set_connection name s) Q"
proof -
  let ?a = "(agent s)\<lparr>connected := True\<rparr>" and ?n = "map_option vsql_m_name name"
  have a: "settled ?a" "names ?a = names (agent s)" "current_name ?a = current_name (agent s)"
    using settled by (simp_all add: settled_connected names_def current_name_def lookup_def)
  have same: "ok (vsql_m_status st t) Q"
    if "invar J cursor_count X t" "agent t = ?a" "st = set_connection_check (agent s) name"
      "st \<noteq> ''00000''" "length st = 5" for t st
    using that a by (auto intro!: vsql_m_status_ok [OF that(1)] Q)
  have select: "ok (vsql_m_status ''00000'' (t\<lparr>agent := ?a\<lparr>current := Some c\<rparr>\<rparr>)) Q"
    if t: "invar J cursor_count X t" "agent t = ?a" and c: "live c ?a" "conn_name (lookup c ?a) = ?n"
      and check: "set_connection_check (agent s) name = ''00000''" for t c
  proof (rule vsql_m_status_ok)
    show "invar J cursor_count X (t\<lparr>agent := ?a\<lparr>current := Some c\<rparr>\<rparr>)"
      using set_current_invar [OF t(1), of "Some c"] t(2) c(1) by simp
    fix s' :: "'w state"
    assume s': "invar J cursor_count X s'"
      "agent s' = agent (t\<lparr>agent := ?a\<lparr>current := Some c\<rparr>\<rparr>)" "sqlstate s' = ''00000''"
      "has_status ''00000'' s'"
    then show "Q () s'"
      using settled_current [OF a(1)] c(2) check
      by (intro Q) (simp_all add: current_name_def lookup_def)
  qed simp
  have named: "live c ?a \<and> conn_name (lookup c ?a) = Some n" if "vsql_m_find n ?a = Some c"
    "wf_agent cursor_count ?a" for n c
    using vsql_m_find_Some [OF that(1)] lookup_unique [OF that(2)]
    by (auto simp: live_def conn_name_def)
  have default: "live c ?a \<and> conn_name (lookup c ?a) = None" if "vsql_m_find_default ?a = Some c"
    "wf_agent cursor_count ?a" for c
    using vsql_m_find_default_Some [OF that(1)] lookup_unique [OF that(2)]
    by (auto simp: live_def conn_name_def)
  have bad: "Q () t"
    if "invar J cursor_count X t" "agent t = ?a" "active (agent s)" "sqlstate t = ''0A001''"
      "has_status ''0A001'' t" for t
    using that a by (intro Q) (simp_all add: set_connection_check_def)
  have rest: "ok (case (case name of None \<Rightarrow> vsql_m_find_default (agent t)
        | Some n \<Rightarrow> vsql_m_find (vsql_m_name n) (agent t)) of
      None \<Rightarrow> vsql_m_status ''08003'' t
    | Some c \<Rightarrow> vsql_m_status ''00000'' (t\<lparr>agent := (agent t)\<lparr>current := Some c\<rparr>\<rparr>)) Q"
    (is "ok (case ?c of None \<Rightarrow> _ | Some _ \<Rightarrow> _) Q")
    if t: "invar J cursor_count X t" "agent t = ?a" "\<not> active (agent s)" "?n \<noteq> Some ''''" for t
  proof (cases ?c)
    case None
    then have "?n \<notin> names ?a"
      using t(2) vsql_m_find_case_names [of "agent t" name] by metis
    with None t a(2) show ?thesis
      by (simp only: option.case) (intro same, simp_all add: set_connection_check_def)
  next
    case (Some c)
    then have "?n \<in> names ?a"
      using t(2) vsql_m_find_case_names [of "agent t" name] by (metis option.distinct(1))
    moreover have "live c ?a \<and> conn_name (lookup c ?a) = ?n"
      using Some t(2) invar_wf_agent [OF t(1)] by (auto split: option.splits dest: named default)
    ultimately show ?thesis
      using Some t a(2) by (simp only: option.case) (intro select, simp_all add: set_connection_check_def)
  qed
  show ?thesis
    unfolding vsql_m_set_connection_def
  proof (simp only: ok_bind split_conv, rule vsql_m_switch_ok [OF s], goal_cases)
    case (1 t)
    then show ?case using bad by simp
  next
    case (2 t)
    show ?case
    proof (cases "?n = Some ''''")
      case True
      with 2 have "set_connection_check (agent s) name = ''2E000''"
        by (simp add: set_connection_check_def)
      with True 2 show ?thesis by (auto intro!: same)
    next
      case False
      then have "\<not> (case name of None \<Rightarrow> False | Some n \<Rightarrow> vsql_m_name n = '''')"
        by (simp split: option.splits)
      with rest [OF 2(1,2,3) False] show ?thesis by simp
    qed
  qed
qed

context runtime
begin

lemma vsql_m_string_ok [wp]:
  assumes "invar J cursor_count X s" "len \<le> length text"
    and "NUL \<in> set (take len text) \<Longrightarrow> Q True s"
    and "\<And>s'. NUL \<notin> set (take len text) \<Longrightarrow> invar J cursor_count X s' \<Longrightarrow> agent s' = agent s \<Longrightarrow>
      header (da s') = header (da s) \<Longrightarrow> sqlstate s' = ''22024'' \<Longrightarrow> Q False s'"
  shows "ok (vsql_m_string text len s) Q"
  unfolding vsql_m_string_def using assms(1,2)
  by (auto intro!: vsql_m_status_ok [OF assms(1)] assms(3,4))

lemma vsql_m_find_dbc:
  "settled a \<Longrightarrow> vsql_m_find n a = Some c \<Longrightarrow> c_dbc (lookup c a) \<noteq> 0"
  by (rule settled_dbc, assumption, rule vsql_m_find_live)

lemma connect_opened:
  assumes t: "invar J cursor_count X t" "fresh M server k" "connections (agent t) = k # ks"
    and f: "c_address (f k) = c_address k" "c_dbc (f k) = c_dbc k" "length (c_name (f k)) < 129"
      "c_cursors (f k) = c_cursors k" "c_prepared (f k) = c_prepared k"
      "c_descriptors (f k) = c_descriptors k"
    and Q: "\<And>s'. invar J cursor_count X s' \<Longrightarrow>
      agent s' = (agent t)\<lparr>connections := f k # ks, current := Some (c_address k)\<rparr> \<Longrightarrow>
      sqlstate s' = ''00000'' \<Longrightarrow> has_status ''00000'' s' \<Longrightarrow> Q () s'"
  shows "ok (modify (c_address k) f t) (\<lambda>_ s.
    ok (vsql_m_status ''00000'' (s\<lparr>agent := (agent s)\<lparr>current := Some (c_address k)\<rparr>\<rparr>)) Q)"
proof (rule modify_head [OF t(1,3), of f X])
  fix s' :: "'w state"
  assume s': "invar J cursor_count X s'" "agent s' = (agent t)\<lparr>connections := f k # ks\<rparr>"
  then have "live (c_address k) (agent s')" using f(1) by (simp add: live_def)
  then have "invar J cursor_count X (s'\<lparr>agent := (agent s')\<lparr>current := Some (c_address k)\<rparr>\<rparr>)"
    by (intro set_current_invar [OF s'(1)]) simp
  then show "ok (vsql_m_status ''00000'' (s'\<lparr>agent := (agent s')\<lparr>current := Some (c_address k)\<rparr>\<rparr>)) Q"
    by (rule vsql_m_status_ok) (use s'(2) in \<open>auto intro!: Q\<close>)
qed (use f in \<open>auto simp: wf_connection_def held_connection_def\<close>)

text \<open>Closing an SQL-connection, or all of them, by name.\<close>

lemma conn_name_live:
  assumes "wf_agent cc a" "k \<in> set (connections a)" "c_address k = c"
  shows "live c a" "lookup c a = k"
  using assms lookup_unique [OF assms(1,2)] by (auto simp: live_def)

lemma selected_link:
  assumes wf: "wf_agent cc a" and which: "which \<noteq> CHR ''A''"
    and sel: "selected a which name = Some N"
    and c: "c = (if which = CHR ''n'' then vsql_m_find (vsql_m_name name) a
         else if which = CHR ''D'' then vsql_m_find_default a
         else if which = CHR ''C'' then current a
         else None)"
  shows "N = conn_name ` (\<lambda>c. lookup c a) ` set_option c" "\<forall>d\<in>set_option c. live d a"
proof -
  have n: "N = conn_name ` (\<lambda>c. lookup c a) ` set_option (vsql_m_find n a)"
    "\<forall>d\<in>set_option (vsql_m_find n a). live d a" if "N = {Some n} \<inter> names a" for n
  proof (atomize (full), cases "vsql_m_find n a")
    case None
    then show "N = conn_name ` (\<lambda>c. lookup c a) ` set_option (vsql_m_find n a) \<and>
        (\<forall>d\<in>set_option (vsql_m_find n a). live d a)"
      using that vsql_m_find_names [of n a] by simp
  next
    case (Some d)
    then have "Some n \<in> names a" using vsql_m_find_names [of n a] by simp
    moreover obtain k where "k \<in> set (connections a)" "c_address k = d" "conn_name k = Some n"
      using vsql_m_find_Some [OF Some] by (auto simp: conn_name_def)
    ultimately show "N = conn_name ` (\<lambda>c. lookup c a) ` set_option (vsql_m_find n a) \<and>
        (\<forall>d\<in>set_option (vsql_m_find n a). live d a)"
      using Some that conn_name_live [OF wf] by auto
  qed
  have d: "N = conn_name ` (\<lambda>c. lookup c a) ` set_option (vsql_m_find_default a)"
    "\<forall>d\<in>set_option (vsql_m_find_default a). live d a" if "N = {None} \<inter> names a"
  proof (atomize (full), cases "vsql_m_find_default a")
    case None
    then show "N = conn_name ` (\<lambda>c. lookup c a) ` set_option (vsql_m_find_default a) \<and>
        (\<forall>d\<in>set_option (vsql_m_find_default a). live d a)"
      using that vsql_m_find_default_names [of a] by simp
  next
    case (Some d)
    then have "None \<in> names a" using vsql_m_find_default_names [of a] by simp
    moreover obtain k where "k \<in> set (connections a)" "c_address k = d" "conn_name k = None"
      using vsql_m_find_default_Some [OF Some] by (auto simp: conn_name_def)
    ultimately show "N = conn_name ` (\<lambda>c. lookup c a) ` set_option (vsql_m_find_default a) \<and>
        (\<forall>d\<in>set_option (vsql_m_find_default a). live d a)"
      using Some that conn_name_live [OF wf] by auto
  qed
  have cur: "set_option (current_name a) = conn_name ` (\<lambda>c. lookup c a) ` set_option (current a)"
    "\<forall>d\<in>set_option (current a). live d a"
    using wf_agent_current [OF wf] by (auto simp: current_name_def option.set_map)
  show "N = conn_name ` (\<lambda>c. lookup c a) ` set_option c"
    using sel which n(1) d(1) cur(1) unfolding c selected_def by (auto split: if_splits)
  show "\<forall>d\<in>set_option c. live d a"
    using sel which n(2) d(2) cur(2) unfolding c selected_def by (auto split: if_splits)
qed

lemma active_names_lookup:
  assumes "wf_agent cc a" "settled a" "live d a"
  shows "conn_name (lookup d a) \<in> active_names a \<longleftrightarrow> c_active (lookup d a)"
    "list_ex (\<lambda>k. c_address k = d \<and> c_active k) (connections a) \<longleftrightarrow> c_active (lookup d a)"
proof -
  show "conn_name (lookup d a) \<in> active_names a \<longleftrightarrow> c_active (lookup d a)"
    using inj_conn_name [OF assms(2)] lookup_mem [OF assms(3)]
    by (auto simp: active_names_def dest: inj_onD)
  show "list_ex (\<lambda>k. c_address k = d \<and> c_active k) (connections a) \<longleftrightarrow> c_active (lookup d a)"
    using lookup_unique [OF assms(1)] lookup_mem [OF assms(3)] by (auto simp: list_ex_iff)
qed

lemma removed_without:
  assumes "wf_agent cc a" "settled a" "live c a"
  shows "removed a {conn_name (lookup c a)} (without c a)"
  using names_without [OF assms] current_name_without [OF assms]
  by (cases "current_name a") (auto simp: removed_def)

lemma removed_all: "wf_agent cc a \<Longrightarrow> removed a (names a) (a\<lparr>connections := [], current := None\<rparr>)"
  using wf_agent_current [of cc a] lookup_mem(1) [of _ a]
  by (auto simp: removed_def names_def current_name_def)

lemma vsql_m_disconnect_ok:
  assumes s: "invar J cursor_count X s" and settled: "settled (agent s)"
    and Q: "\<And>s'. invar J cursor_count X s' \<Longrightarrow> settled (agent s') \<Longrightarrow> connected (agent s') \<Longrightarrow>
      sqlstate s' = disconnect_check (agent s) which name \<Longrightarrow>
      has_status (disconnect_check (agent s) which name) s' \<Longrightarrow>
      (disconnect_check (agent s) which name \<noteq> ''00000'' \<Longrightarrow>
        agent s' = (agent s)\<lparr>connected := True\<rparr>) \<Longrightarrow>
      (disconnect_check (agent s) which name = ''00000'' \<Longrightarrow>
        removed (agent s) (the (selected (agent s) which name)) (agent s')) \<Longrightarrow> Q () s'"
  shows "ok (vsql_m_disconnect L which name s) Q"
proof -
  let ?a = "(agent s)\<lparr>connected := True\<rparr>"
  let ?s = "s\<lparr>agent := ?a\<rparr>"
  let ?check = "disconnect_check (agent s) which name"
  have s': "invar J cursor_count X ?s" using s by (rule connected_invar)
  have wf: "wf_agent cursor_count ?a" using invar_wf_agent [OF s'] by simp
  have a: "settled ?a" "names ?a = names (agent s)" "current_name ?a = current_name (agent s)"
    "active_names ?a = active_names (agent s)" "selected ?a which name = selected (agent s) which name"
    "removed ?a = removed (agent s)"
    using settled by (simp_all add: settled_connected names_def current_name_def lookup_def
        active_names_def selected_def removed_def fun_eq_iff)
  have same: "ok (vsql_m_status st ?s) Q" if "st = ?check" "st \<noteq> ''00000''" "length st = 5" for st
    using that a by (auto intro!: vsql_m_status_ok [OF s'] Q)
  have closed: "ok (vsql_m_status ''00000'' t) Q"
    if "invar J cursor_count X t" "settled (agent t)" "connected (agent t)" "?check = ''00000''"
      "removed ?a N (agent t)" "selected ?a which name = Some N" for t N
    using that a by (intro vsql_m_status_ok [OF that(1)] Q) simp_all
  have all: "ok (vsql_m_close_all L ?s) (\<lambda>_ s. ok (vsql_m_status ''00000'' s) Q)"
    if "which = CHR ''A''" "?check = ''00000''"
    using that removed_all [OF wf] a(1) settled_empty [OF a(1)]
    by (intro vsql_m_close_all_ok [OF s'] closed [where N = "names ?a"])
      (auto simp: settled_def selected_def)
  have one: "ok (vsql_m_close L d ?s) (\<lambda>_ s. ok (vsql_m_status ''00000'' s) Q)"
    if "live d ?a" "?check = ''00000''" "selected ?a which name = Some {conn_name (lookup d ?a)}" for d
    using that removed_without [OF wf a(1)] settled_dbc [OF a(1)] settled_without [OF a(1)]
    by (intro vsql_m_close_ok [OF s'] closed) auto
  let ?c = "if which = CHR ''n'' then vsql_m_find (vsql_m_name name) ?a
    else if which = CHR ''D'' then vsql_m_find_default ?a
    else if which = CHR ''C'' then current ?a
    else None"
  have body: "ok (if which \<noteq> CHR ''A'' \<and> ?c = None then vsql_m_status ''08003'' ?s
      else if list_ex (\<lambda>k. (which = CHR ''A'' \<or> Some (c_address k) = ?c) \<and> c_active k)
        (connections (agent ?s))
      then vsql_m_status ''25001'' ?s
      else do {
        (_, s) \<leftarrow> (if which = CHR ''A'' then vsql_m_close_all L ?s
          else (case ?c of None \<Rightarrow> None | Some d \<Rightarrow> vsql_m_close L d ?s));
        vsql_m_status ''00000'' s
      }) Q"
    if N: "selected ?a which name = Some N" for N
  proof (cases "which = CHR ''A''")
    case True
    then have "N = names (agent s)" using N by (simp add: selected_def names_def)
    then have "list_ex c_active (connections (agent s)) \<longleftrightarrow> N \<inter> active_names (agent s) \<noteq> {}"
      by (auto simp: list_ex_iff names_def active_names_def)
    moreover have "selected (agent s) which name = Some N" using N a(5) by metis
    ultimately have "?check = (if list_ex c_active (connections (agent s)) then ''25001'' else ''00000'')"
      using True by (simp add: disconnect_check_def)
    then show ?thesis
      using True same [of "''25001''"] all by simp
  next
    case False
    show ?thesis
    proof (cases ?c)
      case None
      then have "N = {}" using selected_link(1) [OF wf False N refl] by simp
      then have "?check = ''08003''" using False N a(5) by (simp add: disconnect_check_def)
      then show ?thesis using same [of "''08003''"] None False by simp
    next
      case (Some d)
      then have d: "live d ?a" "N = {conn_name (lookup d ?a)}"
        using selected_link [OF wf False N refl] by simp_all
      let ?active = "c_active (lookup d ?a)"
      have "?check = (if ?active then ''25001'' else ''00000'')"
        using False N a(4,5) d(2) active_names_lookup(1) [OF wf a(1) d(1)]
        by (simp add: disconnect_check_def)
      then show ?thesis
        using False Some same [of "''25001''"] one [OF d(1)] N d(2)
          active_names_lookup(2) [OF wf a(1) d(1)] by simp
    qed
  qed
  show ?thesis
  proof (cases "selected ?a which name")
    case None
    then have "which = CHR ''n'' \<and> vsql_m_name name = ''''"
      by (auto simp: selected_def split: if_splits)
    moreover have "?check = ''2E000''" using None a(5) by (simp add: disconnect_check_def)
    ultimately show ?thesis using same [of "''2E000''"] by (simp add: vsql_m_disconnect_def)
  next
    case (Some N)
    then have "\<not> (which = CHR ''n'' \<and> vsql_m_name name = '''')"
      by (auto simp: selected_def)
    moreover have "agent ?s = ?a" by simp
    ultimately show ?thesis
      using body [OF Some] by (simp only: vsql_m_disconnect_def Let_def if_False)
  qed
qed

text \<open>
  CONNECT either fails as the check says, or because the SQL-connection could not be made, or
  makes it the current one.
\<close>

lemma vsql_m_connect_ok:
  assumes s: "invar J cursor_count X s" and settled: "settled (agent s)"
    and Q: "\<And>s'. invar J cursor_count X s' \<Longrightarrow> settled (agent s') \<Longrightarrow> connected (agent s') \<Longrightarrow>
      length (sqlstate s') = 5 \<Longrightarrow>
      (connect_check (agent s) server name user \<noteq> ''00000'' \<Longrightarrow>
        sqlstate s' = connect_check (agent s) server name user) \<Longrightarrow>
      (connections (agent s') = connections (agent s) \<and> current (agent s') = current (agent s)) \<or>
      (connect_check (agent s) server name user = ''00000'' \<and> sqlstate s' = ''00000'' \<and>
        (\<exists>k. connections (agent s') = k # connections (agent s) \<and> \<not> c_active k \<and>
          conn_name k = connect_name server name \<and> current (agent s') = Some (c_address k))) \<Longrightarrow>
      Q () s'"
  shows "ok (vsql_m_connect L M server name user s) Q"
proof -
  let ?a = "(agent s)\<lparr>connected := True\<rparr>"
  let ?n = "connect_name server name" and ?check = "connect_check (agent s) server name user"
  have a: "settled ?a" "names ?a = names (agent s)"
    using settled by (simp_all add: settled_connected names_def)
  have same: "ok (vsql_m_status st t) Q"
    if "invar J cursor_count X t" "agent t = ?a" "st = ?check" "st \<noteq> ''00000''" "length st = 5"
    for t st
    using that a by (auto intro!: vsql_m_status_ok [OF that(1)] Q)
  have failed: "Q () t" if "invar J cursor_count X t" "connections (agent t) = connections ?a"
    "current (agent t) = current ?a" "connected (agent t) = connected ?a" "length (sqlstate t) = 5"
    "?check = ''00000''" for t
    using that a by (intro Q) (simp_all add: settled_def)
  have opened: "ok (modify (c_address k) f t) (\<lambda>_ s.
      ok (vsql_m_status ''00000'' (s\<lparr>agent := (agent s)\<lparr>current := Some (c_address k)\<rparr>\<rparr>)) Q)"
    if t: "invar J cursor_count X t" "fresh M v k" "connections (agent t) = k # connections ?a"
      "connected (agent t) = connected ?a" and "?check = ''00000''"
      and f: "c_address (f k) = c_address k" "c_dbc (f k) = c_dbc k" "length (c_name (f k)) < 129"
      "c_cursors (f k) = c_cursors k" "c_prepared (f k) = c_prepared k"
      "c_descriptors (f k) = c_descriptors k" "c_active (f k) = c_active k"
      "conn_name (f k) = ?n" "?n \<noteq> Some ''''" for t f k v
  proof (rule connect_opened [OF t(1,2,3), of f])
    fix s' :: "'w state"
    assume s': "invar J cursor_count X s'" "sqlstate s' = ''00000''"
      "agent s' = (agent t)\<lparr>connections := f k # connections ?a, current := Some (c_address k)\<rparr>"
    have "?n \<notin> names ?a" using \<open>?check = ''00000''\<close> a(2)
      by (simp add: connect_check_def split: if_splits)
    then have "settled (agent s')"
      using a(1) s'(3) t(4) f(2,8,9) freshD(1) [OF t(2)] settled_cons [of ?a "f k"]
      by (simp add: settled_def)
    with s' show "Q () s'"
      using t(4) f(1,7,8) freshD(5) [OF t(2)] \<open>?check = ''00000''\<close>
      by (intro Q) auto
  qed (use f in auto)
  have default: "ok (vsql_m_connect_default L M t) Q"
    if t: "invar J cursor_count X t" "agent t = ?a" and "\<not> active (agent s)" "server = None" for t
  proof (cases "None \<in> names ?a")
    case True
    then show ?thesis
      using that a(2) vsql_m_find_default_names [of ?a] same [OF t]
      by (simp add: vsql_m_connect_default_def connect_check_def connect_name_def)
  next
    case False
    then have "?check = ''00000''"
      using that a(2) by (simp add: connect_check_def connect_name_def)
    with False that show ?thesis
      using vsql_m_find_default_names [of ?a] unfolding vsql_m_connect_default_def
      by (auto intro!: vsql_m_open_ok [OF t(1)] failed opened
          simp: connect_name_def conn_name_def freshD)
  qed
  have named: "ok (vsql_m_connect_to L M v name user t) Q"
    if t: "invar J cursor_count X t" "agent t = ?a" and inactive: "\<not> active (agent s)"
      and v: "server = Some v" for t v
  proof (cases "map_option vsql_m_name user = Some ''''")
    case True
    then have "?check = ''28000''" using inactive v by (simp add: connect_check_def)
    with True show ?thesis using same [OF t] by (auto simp: vsql_m_connect_to_def)
  next
    case False
    then have user: "\<not> (case user of None \<Rightarrow> False | Some u \<Rightarrow> vsql_m_name u = '''')"
      by (simp split: option.splits)
    define cn where "cn = vsql_m_name (case name of None \<Rightarrow> v | Some n \<Rightarrow> n)"
    have n: "?n = Some cn" using v by (simp add: connect_name_def cn_def)
    have len: "length cn < 129" using le_less_trans [OF length_vsql_m_name, of 129] by (simp add: cn_def)
    have check: "?check = (if cn = '''' then ''2E000'' else if Some cn \<in> names ?a then ''08002''
        else ''00000'')"
      using inactive v False n a(2) by (simp add: connect_check_def)
    show ?thesis
    proof (cases "cn = '''' \<or> Some cn \<in> names ?a")
      case True
      with check user show ?thesis
        using same [OF t] t(2) vsql_m_find_names [of cn ?a]
        by (auto simp: vsql_m_connect_to_def Let_def cn_def [symmetric])
    next
      case False
      with check have "?check = ''00000''" by simp
      with False user n len show ?thesis
        using t vsql_m_find_names [of cn ?a] unfolding vsql_m_connect_to_def cn_def [symmetric] Let_def
        by (auto intro!: vsql_m_open_ok [OF t(1)] failed opened
          simp: conn_name_def freshD strcpy_ok)
    qed
  qed
  have bad: "Q () t" if "invar J cursor_count X t" "agent t = ?a" "active (agent s)"
      "sqlstate t = ''0A001''" for t
    using that a by (intro Q) (simp_all add: connect_check_def)
  show ?thesis
    unfolding vsql_m_connect_def
    by (simp, intro vsql_m_switch_ok [OF s]) (auto simp: bad default named split: option.splits)
qed

end

end
