(* ===== verification/Exec.thy ===== *)
theory Exec
  imports Connect
begin

text \<open>
  Preparing and executing an SQL statement with its host parameters
  (\<open>std_2_13_1_sql_client_module_definition.c\<close>, sections param to execute).
\<close>

section \<open>Routines\<close>

definition VSQL_M_LONG :: int where
  [codes]: "VSQL_M_LONG = (if sizeof_long = 8 then SQL_BIGINT else SQL_INTEGER)"

record vsql_m_param =
  value_type :: int
  parameter_type :: int
  param_length :: int
  param_value :: cval
  indicator :: int

text \<open>The loop of \<open>vsql_m_bind_params\<close>, for the host parameters from the \<open>i\<close>th.\<close>

fun vsql_m_bind_params_from ::
  "'w cli \<Rightarrow> int \<Rightarrow> nat \<Rightarrow> vsql_m_param list \<Rightarrow> 'w state \<Rightarrow> (int \<times> 'w state) option" where
  "vsql_m_bind_params_from L stmt i [] s = Some (SQL_SUCCESS, s)"
| "vsql_m_bind_params_from L stmt i (p # ps) s = do {
     (rc, s) \<leftarrow> call (SQLBindParameter L stmt (cast16 (int i + 1)) SQL_PARAM_MODE_IN
       (value_type p) (parameter_type p) (param_length p) 0 (param_value p) (indicator p)) s;
     if vsql_m_failed rc \<or> ps = [] then Some (rc, s)
     else vsql_m_bind_params_from L stmt (Suc i) ps s
   }"

definition vsql_m_bind_params ::
  "'w cli \<Rightarrow> int \<Rightarrow> vsql_m_param list \<Rightarrow> 'w state \<Rightarrow> (int \<times> 'w state) option" where
  "vsql_m_bind_params L stmt params s = vsql_m_bind_params_from L stmt 0 params s"

text \<open>
  An output argument that is the address of a field of the diagnostics area, which is unchanged
  when the routine does not write it.
\<close>

definition output_da ::
  "('a \<Rightarrow> vsql_m_da \<Rightarrow> vsql_m_da) \<Rightarrow> 'a option \<Rightarrow> 'w state \<Rightarrow> 'w state" where
  "output_da f v s = (case v of None \<Rightarrow> s | Some x \<Rightarrow> s\<lparr>da := f x (da s)\<rparr>)"

text \<open>The diagnostics fields of a statement that are read when it's prepared.\<close>

definition vsql_m_exec_command ::
  "'w cli \<Rightarrow> int \<Rightarrow> 'w state \<Rightarrow> (unit \<times> 'w state) option" where
  "vsql_m_exec_command L stmt s =
     (if command_function (da s) \<noteq> '''' then Some ((), s)
      else do {
        ((_, f), s) \<leftarrow>
          call (SQLGetDiagFieldText L SQL_HANDLE_STMT stmt 0 SQL_DIAG_DYNAMIC_FUNCTION 32) s;
        let s = output_da (\<lambda>t d. d\<lparr>command_function := in_buffer 32 t\<rparr>) f s;
        ((_, n), s) \<leftarrow>
          call (SQLGetDiagFieldInt L SQL_HANDLE_STMT stmt 0 SQL_DIAG_DYNAMIC_FUNCTION_CODE) s;
        Some ((), output_da (\<lambda>k d. d\<lparr>command_function_code := k\<rparr>) n s)
      })"

definition vsql_m_row_count :: "'w cli \<Rightarrow> int \<Rightarrow> 'w state \<Rightarrow> (unit \<times> 'w state) option" where
  "vsql_m_row_count L stmt s = do {
     ((_, n), s) \<leftarrow> call (SQLGetDiagFieldInt L SQL_HANDLE_STMT stmt 0 SQL_DIAG_ROW_COUNT) s;
     Some ((), output_da (\<lambda>k d. d\<lparr>row_count := k\<rparr>) n s)
   }"

definition vsql_m_exec ::
  "'w cli \<Rightarrow> nat \<Rightarrow> int \<Rightarrow> string \<Rightarrow> vsql_m_param list \<Rightarrow> 'w state
    \<Rightarrow> (bool \<times> 'w state) option" where
  "vsql_m_exec L c stmt sql params s = do {
     (rc, s) \<leftarrow> call (SQLPrepare L stmt sql) s;
     (_, s) \<leftarrow> vsql_m_exec_command L stmt s;
     (rc, s) \<leftarrow> (if vsql_m_failed rc then Some (rc, s) else vsql_m_bind_params L stmt params s);
     (rc, s) \<leftarrow> (if vsql_m_failed rc then Some (rc, s)
       else do {
         (_, s) \<leftarrow> modify c (\<lambda>k. k\<lparr>c_active := True\<rparr>) s;
         call (SQLExecute L stmt) s
       });
     (_, s) \<leftarrow> (if vsql_m_failed rc then Some ((), s) else vsql_m_row_count L stmt s);
     (_, s) \<leftarrow> vsql_m_diag L rc SQL_HANDLE_STMT stmt s;
     Some (\<not> vsql_m_failed rc, s)
   }"

text \<open>It gives the statement, which must be freed, unless it fails.\<close>

definition vsql_m_run ::
  "'w cli \<Rightarrow> vsql_m_module \<Rightarrow> string \<Rightarrow> vsql_m_param list \<Rightarrow> 'w state
    \<Rightarrow> (int option \<times> 'w state) option" where
  "vsql_m_run L M sql params s = do {
     (c, s) \<leftarrow> vsql_m_connection L M s;
     case c of
       None \<Rightarrow> Some (None, s)
     | Some c \<Rightarrow> do {
         (k, s) \<leftarrow> deref c s;
         ((rc, stmt), s) \<leftarrow> call (SQLAllocHandle L SQL_HANDLE_STMT (c_dbc k)) s;
         if vsql_m_failed rc then do {
           (_, s) \<leftarrow> vsql_m_diag L rc SQL_HANDLE_DBC (c_dbc k) s;
           Some (None, s)
         } else do {
           (good, s) \<leftarrow> vsql_m_exec L c stmt sql params s;
           if \<not> good then do {
             (_, s) \<leftarrow> call (SQLFreeHandle L SQL_HANDLE_STMT stmt) s;
             Some (None, s)
           } else Some (Some stmt, s)
         }
       }
   }"

definition vsql_m_execute ::
  "'w cli \<Rightarrow> vsql_m_module \<Rightarrow> string \<Rightarrow> vsql_m_param list \<Rightarrow> 'w state
    \<Rightarrow> (unit \<times> 'w state) option" where
  "vsql_m_execute L M sql params s = do {
     (stmt, s) \<leftarrow> vsql_m_run L M sql params s;
     case stmt of
       None \<Rightarrow> Some ((), s)
     | Some stmt \<Rightarrow> do {
         (_, s) \<leftarrow> call (SQLFreeHandle L SQL_HANDLE_STMT stmt) s;
         Some ((), s)
       }
   }"

section \<open>Rules\<close>

lemma output_da_simps [simp]:
  "agent (output_da f v s) = agent s" "sqlstate (output_da f v s) = sqlstate s"
  "world (output_da f v s) = world s" "allocations (output_da f v s) = allocations s"
  by (simp_all add: output_da_def split: option.split)

lemma output_da_conditions:
  "(\<And>x d. conditions (f x d) = conditions d) \<Longrightarrow> conditions (da (output_da f v s)) = conditions (da s)"
  by (simp add: output_da_def split: option.split)

lemma output_da_invar:
  "invar J cc X s \<Longrightarrow> (\<And>x d. wf_da d \<Longrightarrow> wf_da (f x d)) \<Longrightarrow> invar J cc X (output_da f v s)"
  by (simp add: output_da_def invar_def split: option.split)

lemma wf_da_text: "wf_da d \<Longrightarrow> wf_da (d\<lparr>command_function := in_buffer 32 t\<rparr>)"
  "wf_da d \<Longrightarrow> wf_da (d\<lparr>dynamic_function := in_buffer 32 t\<rparr>)"
  using length_in_buffer_less [of 32 t] by (simp_all add: wf_da_def)

context runtime
begin

lemma vsql_m_bind_params_from_ok:
  assumes "invar J cursor_count X s" "(SQL_HANDLE_STMT, stmt) \<in># held (agent s) + X"
    and "\<And>rc s'. invar J cursor_count X s' \<Longrightarrow> agent s' = agent s \<Longrightarrow> da s' = da s \<Longrightarrow>
      sqlstate s' = sqlstate s \<Longrightarrow> Q rc s'"
  shows "ok (vsql_m_bind_params_from L stmt i ps s) Q"
  using assms
proof (induction ps arbitrary: i s)
  case (Cons p ps)
  show ?case
    using Cons.prems(1,2)
    by (simp, intro call_preserves [OF Cons.prems(1)] uses) (auto intro!: Cons.IH Cons.prems(3))
qed simp

lemma vsql_m_bind_params_ok [wp]:
  assumes "invar J cursor_count X s" "(SQL_HANDLE_STMT, stmt) \<in># held (agent s) + X"
    and "\<And>rc s'. invar J cursor_count X s' \<Longrightarrow> agent s' = agent s \<Longrightarrow> da s' = da s \<Longrightarrow>
      sqlstate s' = sqlstate s \<Longrightarrow> Q rc s'"
  shows "ok (vsql_m_bind_params L stmt ps s) Q"
  unfolding vsql_m_bind_params_def by (rule vsql_m_bind_params_from_ok [OF assms])

lemma vsql_m_exec_command_ok [wp]:
  assumes "invar J cursor_count X s" "(SQL_HANDLE_STMT, stmt) \<in># held (agent s) + X"
    and "\<And>s'. invar J cursor_count X s' \<Longrightarrow> agent s' = agent s \<Longrightarrow> sqlstate s' = sqlstate s \<Longrightarrow>
      conditions (da s') = conditions (da s) \<Longrightarrow> Q () s'"
  shows "ok (vsql_m_exec_command L stmt s) Q"
proof -
  let ?f = "\<lambda>t d. d\<lparr>command_function := in_buffer 32 t\<rparr>"
  let ?g = "\<lambda>k d. d\<lparr>command_function_code := k\<rparr>"
  have f: "invar J cursor_count X (output_da ?f v t)" if "invar J cursor_count X t" for t v
    using that by (intro output_da_invar wf_da_text)
  have g: "invar J cursor_count X (output_da ?g v t)" if "invar J cursor_count X t" for t v
    using that by (intro output_da_invar) (auto simp: wf_da_def)
  have same: "conditions (da (output_da ?f v t)) = conditions (da t)"
    "conditions (da (output_da ?g u t)) = conditions (da t)" for u v and t :: "'w state"
    by (simp_all add: output_da_conditions)
  show ?thesis
    unfolding vsql_m_exec_command_def using assms(1,2)
    by (auto intro!: call_preserves [where X = X and J = J and cc = cursor_count] uses f g assms(3)
        simp: same)
qed

lemma vsql_m_row_count_ok [wp]:
  assumes "invar J cursor_count X s" "(SQL_HANDLE_STMT, stmt) \<in># held (agent s) + X"
    and "\<And>s'. invar J cursor_count X s' \<Longrightarrow> agent s' = agent s \<Longrightarrow> sqlstate s' = sqlstate s \<Longrightarrow>
      conditions (da s') = conditions (da s) \<Longrightarrow> Q () s'"
  shows "ok (vsql_m_row_count L stmt s) Q"
proof -
  let ?f = "\<lambda>k d. d\<lparr>row_count := k\<rparr>"
  have f: "invar J cursor_count X (output_da ?f v t)" if "invar J cursor_count X t" for t v
    using that by (intro output_da_invar) (auto simp: wf_da_def)
  show ?thesis
    unfolding vsql_m_row_count_def using assms(1,2)
    by (auto intro!: call_preserves [where X = X and J = J and cc = cursor_count] uses f assms(3)
        simp: output_da_conditions)
qed

text \<open>A statement that is executed makes its SQL-connection active.\<close>

lemma vsql_m_exec_ok [wp]:
  assumes "invar J cursor_count X s" "settled (agent s)" "live c (agent s)"
    "(SQL_HANDLE_STMT, stmt) \<in># held (agent s) + X"
    and "\<And>good s'. invar J cursor_count X s' \<Longrightarrow> settled (agent s') \<Longrightarrow> length (sqlstate s') = 5 \<Longrightarrow>
      agent s' = agent s \<and> \<not> good \<or> agent s' = update c (\<lambda>k. k\<lparr>c_active := True\<rparr>) (agent s) \<Longrightarrow>
      Q good s'"
  shows "ok (vsql_m_exec L c stmt sql params s) Q"
proof -
  have held: "(SQL_HANDLE_STMT, stmt) \<in># held (update c (\<lambda>k. k\<lparr>c_active := True\<rparr>) (agent s)) + X"
    using held_update [OF invar_wf_agent [OF assms(1)] assms(3), of "\<lambda>k. k\<lparr>c_active := True\<rparr>" X X]
      assms(4) by (simp add: held_connection_def)
  show ?thesis
    unfolding vsql_m_exec_def using assms(1-4) held
    by - ((erule wp | rule deref_ok uses conjI impI | erule call_preserves
      | clarsimp simp: settled_update | (rule keep_active, assumption)
      | (rule assms(5); simp add: settled_update))[1])+
qed

lemma vsql_m_run_ok [wp]:
  assumes "invar J cursor_count X s" "settled (agent s)"
    and "\<And>s'. invar J cursor_count X s' \<Longrightarrow> settled (agent s') \<Longrightarrow> length (sqlstate s') = 5 \<Longrightarrow>
      Q None s'"
    and "\<And>stmt s'. invar J cursor_count (add_mset (SQL_HANDLE_STMT, stmt) X) s' \<Longrightarrow>
      settled (agent s') \<Longrightarrow> length (sqlstate s') = 5 \<Longrightarrow> Q (Some stmt) s'"
  shows "ok (vsql_m_run L M sql params s) Q"
  unfolding vsql_m_run_def using assms(1,2)
  by - ((erule wp | rule deref_ok uses conjI impI | erule call_preserves
    | clarsimp simp: settled_dbc held_dbc parent_dbc vsql_m_failed_iff
    | (rule assms(3) assms(4); simp))[1])+

lemma vsql_m_execute_ok [wp]:
  assumes "invar J cursor_count X s" "settled (agent s)"
    and "\<And>s'. invar J cursor_count X s' \<Longrightarrow> settled (agent s') \<Longrightarrow> length (sqlstate s') = 5 \<Longrightarrow> Q () s'"
  shows "ok (vsql_m_execute L M sql params s) Q"
  unfolding vsql_m_execute_def using assms(1,2)
  by - ((erule wp | rule conjI impI | clarsimp | (rule assms(3); simp))[1])+

lemma num_result_cols_ok [wp]:
  assumes "invar J cursor_count X s" "(SQL_HANDLE_STMT, stmt) \<in># held (agent s) + X"
    and "\<And>rc n s'. invar J cursor_count X s' \<Longrightarrow> agent s' = agent s \<Longrightarrow> da s' = da s \<Longrightarrow>
      sqlstate s' = sqlstate s \<Longrightarrow> \<not> completed rc \<Longrightarrow> Q (rc, n) s'"
    and "\<And>rc c s'. invar J cursor_count X s' \<Longrightarrow> agent s' = agent s \<Longrightarrow> da s' = da s \<Longrightarrow>
      sqlstate s' = sqlstate s \<Longrightarrow> completed rc \<Longrightarrow> 0 \<le> c \<Longrightarrow> c < 2 ^ 15 \<Longrightarrow> Q (rc, Some c) s'"
  shows "ok (call (SQLNumResultCols L stmt) s) Q"
proof (rule call_preserves [OF assms(1)])
  show "preserves J (held (agent s) + X) (SQLNumResultCols L stmt)"
    by (rule uses) (rule assms(2))
  fix a and s' :: "'w state"
  assume call: "SQLNumResultCols L stmt (world s) = (a, world s')"
    and s': "invar J cursor_count X s'" "agent s' = agent s" "da s' = da s" "sqlstate s' = sqlstate s"
  obtain rc n where a: "a = (rc, n)" by (metis surj_pair)
  show "Q a s'"
  proof (cases "completed rc")
    case True
    then obtain c where "n = Some c" "0 \<le> c" "c < 2 ^ 15"
      using writes_columnsD [OF cli_contractD(1) [OF contract]] call a by blast
    then show ?thesis using assms(4) [OF s' True] a by simp
  next
    case False
    then show ?thesis using assms(3) [OF s'] a by simp
  qed
qed

end

end
