(* ===== verification/Retrieval.thy ===== *)
theory Retrieval
  imports Exec
begin

text \<open>
  Retrieval assignment (\<open>std_2_14_7_select_statement_single_row.c\<close>): the values of a row are
  assigned to targets, which are host parameters. A character string is cut or padded to the
  length of its target in characters, which are one to four octets (UTF-8).
\<close>

section \<open>Character strings\<close>

text \<open>
  The first loop of \<open>vsql_m_put\<close>, with the number of characters so far: the octets before the
  character that there's no room for, how many characters they are, and the rest.
\<close>

fun vsql_m_put_octets :: "nat \<Rightarrow> nat \<Rightarrow> string \<Rightarrow> string \<times> nat \<times> string" where
  "vsql_m_put_octets len n [] = ([], n, [])"
| "vsql_m_put_octets len n (c # cs) =
     (if \<not> continuation c \<and> n = len then ([], n, c # cs)
      else case vsql_m_put_octets len (if continuation c then n else Suc n) cs of
        (p, m, r) \<Rightarrow> (c # p, m, r))"

text \<open>
  \<open>vsql_m_put\<close> gives the target, which has \<open>bytes\<close> bytes, and whether the string was truncated.
  It's undefined when it writes past the end of the target.
\<close>

definition vsql_m_put :: "nat \<Rightarrow> nat \<Rightarrow> string \<Rightarrow> (string \<times> bool) option" where
  "vsql_m_put bytes len value = (case vsql_m_put_octets len 0 (cstr value) of (p, n, r) \<Rightarrow> do {
     target \<leftarrow> strcpy bytes (p @ replicate (len - n) CHR '' '');
     Some (target, r \<noteq> [])
   })"

definition vsql_m_characters :: "string \<Rightarrow> int" where
  "vsql_m_characters s = int (length (filter (\<lambda>c. \<not> continuation c) s))"

section \<open>Targets\<close>

record vsql_m_target =
  t_type :: int
  t_length :: int
  t_value :: cval
  t_max_indicator :: int
  t_indicator :: int

text \<open>The pointer to the indicator of a target is NULL when there isn't an indicator parameter.\<close>

definition has_indicator :: "vsql_m_target \<Rightarrow> bool" where
  "has_indicator t \<longleftrightarrow> t_max_indicator t > 0"

definition output_indicator :: "int option \<Rightarrow> vsql_m_target \<Rightarrow> vsql_m_target" where
  "output_indicator n t = (case n of
     Some k \<Rightarrow> if has_indicator t then t\<lparr>t_indicator := k\<rparr> else t
   | None \<Rightarrow> t)"

definition output_value :: "cval option \<Rightarrow> vsql_m_target \<Rightarrow> vsql_m_target" where
  "output_value v t = (case v of Some x \<Rightarrow> t\<lparr>t_value := x\<rparr> | None \<Rightarrow> t)"

definition not_null :: "vsql_m_target \<Rightarrow> bool" where
  "not_null t \<longleftrightarrow> \<not> has_indicator t \<or> t_indicator t \<ge> 0"

text \<open>The text in a buffer of \<open>n\<close> bytes that SQLGetData has written to.\<close>

definition buffer_text :: "nat \<Rightarrow> cval option \<Rightarrow> string option" where
  "buffer_text n v = (case v of Some (CText x) \<Rightarrow> Some (in_buffer n x) | _ \<Rightarrow> None)"

text \<open>
  The loop of \<open>vsql_m_assign\<close> that counts the characters of the rest of a long value, and its
  return code.
\<close>

partial_function (option) vsql_m_assign_rest ::
  "'w cli \<Rightarrow> int \<Rightarrow> int \<Rightarrow> int \<Rightarrow> int \<Rightarrow> 'w state \<Rightarrow> ((int \<times> int) \<times> 'w state) option" where
  "vsql_m_assign_rest L stmt i rc characters s =
     (if rc \<noteq> SQL_SUCCESS_WITH_INFO then Some ((rc, characters), s)
      else do {
        ((rc, v, _), s) \<leftarrow> call (SQLGetData L stmt i SQL_CHAR 256 False) s;
        if vsql_m_failed rc then Some ((rc, characters), s)
        else do {
          b \<leftarrow> buffer_text 256 v;
          characters \<leftarrow> int32 (characters + vsql_m_characters b);
          vsql_m_assign_rest L stmt i rc characters s
        }
      })"

definition vsql_m_assign_text ::
  "'w cli \<Rightarrow> int \<Rightarrow> int \<Rightarrow> vsql_m_target \<Rightarrow> 'w state
    \<Rightarrow> ((int \<times> vsql_m_target) \<times> 'w state) option" where
  "vsql_m_assign_text L stmt i t s = do {
     bytes \<leftarrow> int32 ((t_length t + 1) * 4);
     ((rc, v, n), s) \<leftarrow> call (SQLGetData L stmt i SQL_CHAR bytes (has_indicator t)) s;
     let t = output_indicator n (output_value (map_option CText (buffer_text (nat bytes) v)) t);
     if vsql_m_failed rc \<or> \<not> not_null t then Some ((rc, t), s)
     else do {
       x \<leftarrow> (case t_value t of CText x \<Rightarrow> Some x | _ \<Rightarrow> None);
       (put, truncated) \<leftarrow>
         (if t_length t < 0 then None else vsql_m_put (nat bytes) (nat (t_length t)) x);
       let t = t\<lparr>t_value := CText put\<rparr>;
       if \<not> truncated then Some ((rc, t\<lparr>t_indicator := 0\<rparr>), s)
       else if \<not> has_indicator t then Some ((SQL_SUCCESS_WITH_INFO, t), s)
       else do {
         ((rc, characters), s) \<leftarrow> vsql_m_assign_rest L stmt i rc (vsql_m_characters x) s;
         if vsql_m_failed rc then Some ((rc, t), s)
         else if characters > t_max_indicator t then Some ((VSQL_M_INDICATOR_OVERFLOW, t), s)
         else Some ((SQL_SUCCESS_WITH_INFO, t\<lparr>t_indicator := characters\<rparr>), s)
       }
     }
   }"

definition vsql_m_assign ::
  "'w cli \<Rightarrow> int \<Rightarrow> int \<Rightarrow> vsql_m_target \<Rightarrow> 'w state
    \<Rightarrow> ((int \<times> vsql_m_target) \<times> 'w state) option" where
  "vsql_m_assign L stmt i t s =
     (if t_type t = SQL_INTEGER then do {
        ((rc, v, n), s) \<leftarrow> call (SQLGetData L stmt i SQL_INTEGER 0 (has_indicator t)) s;
        let t = output_indicator n t;
        if \<not> vsql_m_failed rc \<and> not_null t
        then (case v of
            Some (CInt integer) \<Rightarrow> Some ((rc, t\<lparr>t_value := CLong integer, t_indicator := 0\<rparr>), s)
          | _ \<Rightarrow> None)
        else Some ((rc, t), s)
      } else if t_type t = SQL_BOOLEAN then do {
        ((rc, v, n), s) \<leftarrow> call (SQLGetData L stmt i SQL_CHAR 256 (has_indicator t)) s;
        let t = output_indicator n t;
        if \<not> vsql_m_failed rc \<and> not_null t
        then do {
          b \<leftarrow> buffer_text 256 v;
          Some ((rc, t\<lparr>t_value := CLong (if b = ''TRUE'' then 1 else 0), t_indicator := 0\<rparr>), s)
        } else Some ((rc, t), s)
      } else if t_type t \<noteq> SQL_CHAR \<and> t_type t \<noteq> SQL_VARCHAR then do {
        ((rc, v, n), s) \<leftarrow> call (SQLGetData L stmt i (t_type t) 0 (has_indicator t)) s;
        Some ((rc, output_indicator n (output_value v t)), s)
      } else vsql_m_assign_text L stmt i t s)"

text \<open>
  The loop of \<open>vsql_m_assign_row\<close> from target \<open>i\<close> (from 0), which gives the return code, the
  targets and \<open>truncated\<close>.
\<close>

fun vsql_m_assign_targets ::
  "'w cli \<Rightarrow> int \<Rightarrow> nat \<Rightarrow> int \<Rightarrow> bool \<Rightarrow> vsql_m_target list \<Rightarrow> 'w state
    \<Rightarrow> ((int \<times> vsql_m_target list \<times> bool) \<times> 'w state) option" where
  "vsql_m_assign_targets L stmt i rc truncated [] s = Some ((rc, [], truncated), s)"
| "vsql_m_assign_targets L stmt i rc truncated (t # ts) s =
     (if rc \<noteq> SQL_SUCCESS \<and> rc \<noteq> SQL_SUCCESS_WITH_INFO then Some ((rc, t # ts, truncated), s)
      else do {
        ((rc, t), s) \<leftarrow> vsql_m_assign L stmt (cast16 (int i + 1)) t s;
        let truncated = (truncated \<or> rc = SQL_SUCCESS_WITH_INFO);
        ((rc, ts, truncated), s) \<leftarrow> vsql_m_assign_targets L stmt (Suc i) rc truncated ts s;
        Some ((rc, t # ts, truncated), s)
      })"

definition vsql_m_assign_row ::
  "'w cli \<Rightarrow> int \<Rightarrow> int \<Rightarrow> vsql_m_target list \<Rightarrow> 'w state
    \<Rightarrow> ((int \<times> vsql_m_target list \<times> bool) \<times> 'w state) option" where
  "vsql_m_assign_row L stmt rc targets s = vsql_m_assign_targets L stmt 0 rc False targets s"

section \<open>The select statement: single row\<close>

text \<open>The rest of \<open>vsql_m_select\<close> when the statement has the number of columns that it must have.\<close>

definition vsql_m_select_row ::
  "'w cli \<Rightarrow> int \<Rightarrow> int \<Rightarrow> vsql_m_target list \<Rightarrow> 'w state
    \<Rightarrow> ((bool \<times> vsql_m_target list) \<times> 'w state) option" where
  "vsql_m_select_row L stmt rc targets s = do {
     (rc, s) \<leftarrow> (if vsql_m_failed rc then Some (rc, s) else call (SQLFetch L stmt) s);
     ((rc, targets, truncated), s) \<leftarrow> vsql_m_assign_row L stmt rc targets s;
     if vsql_m_failed rc \<or> rc = SQL_NO_DATA then do {
       (_, s) \<leftarrow> vsql_m_diag L rc SQL_HANDLE_STMT stmt s;
       (_, s) \<leftarrow> call (SQLFreeHandle L SQL_HANDLE_STMT stmt) s;
       Some ((False, targets), s)
     } else do {
       (rc, s) \<leftarrow> call (SQLFetch L stmt) s;
       (_, s) \<leftarrow> (if rc = SQL_NO_DATA
         then vsql_m_status (if truncated then ''01004'' else ''00000'') s
         else if vsql_m_failed rc then vsql_m_diag L rc SQL_HANDLE_STMT stmt s
         else vsql_m_status ''21000'' s);
       (_, s) \<leftarrow> call (SQLFreeHandle L SQL_HANDLE_STMT stmt) s;
       Some ((True, targets), s)
     }
   }"

definition vsql_m_select ::
  "'w cli \<Rightarrow> vsql_m_module \<Rightarrow> string \<Rightarrow> vsql_m_param list \<Rightarrow> vsql_m_target list \<Rightarrow> 'w state
    \<Rightarrow> ((bool \<times> vsql_m_target list) \<times> 'w state) option" where
  "vsql_m_select L M sql params targets s = do {
     (stmt, s) \<leftarrow> vsql_m_run L M sql params s;
     case stmt of
       None \<Rightarrow> Some ((False, targets), s)
     | Some stmt \<Rightarrow> do {
         ((rc, columns), s) \<leftarrow> call (SQLNumResultCols L stmt) s;
         if vsql_m_failed rc then vsql_m_select_row L stmt rc targets s
         else (case columns of
             None \<Rightarrow> None
           | Some columns \<Rightarrow>
               if columns \<noteq> int (length targets) then do {
                 (_, s) \<leftarrow> vsql_m_status ''07002'' s;
                 (_, s) \<leftarrow> call (SQLFreeHandle L SQL_HANDLE_STMT stmt) s;
                 Some ((False, targets), s)
               } else vsql_m_select_row L stmt rc targets s)
       }
   }"

section \<open>Properties of \<open>vsql_m_put\<close>\<close>

lemma put_octets_split:
  "vsql_m_put_octets len n s = (p, m, r) \<Longrightarrow> s = p @ r \<and>
     m = n + length (filter (\<lambda>c. \<not> continuation c) p)"
  by (induction len n s arbitrary: p m r rule: vsql_m_put_octets.induct)
    (auto split: if_splits prod.splits)

lemma put_octets_le:
  "vsql_m_put_octets len n s = (p, m, r) \<Longrightarrow> n \<le> len \<Longrightarrow> m \<le> len"
  by (induction len n s arbitrary: p m r rule: vsql_m_put_octets.induct)
    (fastforce split: if_splits prod.splits)+

lemma put_octets_rest:
  "vsql_m_put_octets len n s = (p, m, c # r) \<Longrightarrow> \<not> continuation c \<and> m = len"
  by (induction len n s arbitrary: p m rule: vsql_m_put_octets.induct)
    (auto split: if_splits prod.splits)

text \<open>
  A string that fits in \<open>bytes\<close> bytes, in UTF-8, is put in the same target without writing past its
  end.
\<close>

lemma vsql_m_put_fits:
  assumes "utf8_piece x"
  shows "\<exists>p. vsql_m_put (4 * (len + 1)) len x = Some p"
proof -
  obtain p n r where p: "vsql_m_put_octets len 0 (cstr x) = (p, n, r)" by (metis prod_cases3)
  have x: "cstr x = p @ r" "n = length (filter (\<lambda>c. \<not> continuation c) p)"
    using put_octets_split [OF p] by simp_all
  have "n \<le> len" using put_octets_le [OF p] by simp
  have "x = cstr x @ dropWhile (\<lambda>c. c \<noteq> NUL) x" by (simp add: cstr_def)
  then have "utf8_from 3 p"
    using assms utf8_from_append [of 3 p] unfolding utf8_piece_def by (metis append.assoc x(1))
  then have "length p \<le> 4 * n + 3" using utf8_from_length x(2) by blast
  with \<open>n \<le> len\<close> have "length (p @ replicate (len - n) CHR '' '') < 4 * (len + 1)" by simp
  then show ?thesis by (simp add: vsql_m_put_def p strcpy_ok)
qed

section \<open>Rules\<close>

text \<open>The targets that a procedure has: the size of the buffer of a string is an SQLINTEGER.\<close>

definition wf_target :: "vsql_m_target \<Rightarrow> bool" where
  "wf_target t \<longleftrightarrow> (t_type t = SQL_CHAR \<or> t_type t = SQL_VARCHAR \<longrightarrow>
     0 \<le> t_length t \<and> t_length t < 2 ^ 29 - 1)"

lemma output_indicator_simps [simp]:
  "t_type (output_indicator n t) = t_type t" "t_length (output_indicator n t) = t_length t"
  "t_value (output_indicator n t) = t_value t"
  "t_max_indicator (output_indicator n t) = t_max_indicator t"
  "has_indicator (output_indicator n t) = has_indicator t"
  by (simp_all add: output_indicator_def has_indicator_def split: option.split)

lemma output_value_simps [simp]:
  "t_type (output_value v t) = t_type t" "t_length (output_value v t) = t_length t"
  "t_max_indicator (output_value v t) = t_max_indicator t"
  "has_indicator (output_value v t) = has_indicator t"
  "t_value (output_value (Some x) t) = x"
  by (simp_all add: output_value_def has_indicator_def split: option.split)

lemma wf_target_simps [simp]:
  "wf_target (output_indicator n t) = wf_target t" "wf_target (output_value v t) = wf_target t"
  "wf_target (t\<lparr>t_value := x\<rparr>) = wf_target t" "wf_target (t\<lparr>t_indicator := k\<rparr>) = wf_target t"
  "wf_target (t\<lparr>t_value := x, t_indicator := k\<rparr>) = wf_target t"
  by (simp_all add: wf_target_def)

lemma characters_le: "vsql_m_characters s \<le> int (length s)" "0 \<le> vsql_m_characters s"
  by (simp_all add: vsql_m_characters_def)

lemma buffer_text_Some: "buffer_text n v = Some b \<longleftrightarrow> (\<exists>x. v = Some (CText x) \<and> b = in_buffer n x)"
  by (auto simp: buffer_text_def split: option.splits cval.splits)

lemma has_c_type_text: "has_c_type SQL_CHAR v \<Longrightarrow> \<exists>x. v = CText x"
  by (cases v) (auto simp: has_c_type_def codes)

lemma has_c_type_int: "has_c_type SQL_INTEGER v \<Longrightarrow> \<exists>n. v = CInt n"
  by (cases v) (auto simp: has_c_type_def codes)

context runtime
begin

text \<open>A value that is not null has been written.\<close>

lemma written_not_null:
  assumes "SQLGetData L h i ct b (has_indicator t) w = ((rc, v, n), w')" "completed rc"
    and "not_null (output_indicator n t')" "has_indicator t' = has_indicator t"
  shows "\<exists>x. v = Some x \<and> has_c_type ct x"
  using writes_dataD [OF cli_contractD(3) [OF contract] assms(1,2)] assms(3,4)
  by (auto simp: not_null_def output_indicator_def has_indicator_def codes)

lemma vsql_m_assign_rest_ok:
  assumes \<mu>: "retrieves_text L \<mu>" and s: "invar J cursor_count X s"
    and held: "(SQL_HANDLE_STMT, stmt) \<in># held (agent s) + X"
    and bound: "0 \<le> characters" "characters + (if rc = SQL_SUCCESS_WITH_INFO then int (\<mu> stmt i (world s)) else 0) < 2 ^ 31"
    and Q: "\<And>rc characters s'. invar J cursor_count X s' \<Longrightarrow> agent s' = agent s \<Longrightarrow> da s' = da s \<Longrightarrow>
      sqlstate s' = sqlstate s \<Longrightarrow> Q (rc, characters) s'"
  shows "ok (vsql_m_assign_rest L stmt i rc characters s) Q"
  using s held bound Q
proof (induction "\<mu> stmt i (world s)" arbitrary: s rc characters rule: less_induct)
  case less
  show ?case
  proof (cases "rc = SQL_SUCCESS_WITH_INFO")
    case False
    then show ?thesis
      by (simp add: vsql_m_assign_rest.simps [of L stmt i rc] less.prems)
  next
    case True
    have step: "ok (do {
        b \<leftarrow> buffer_text 256 v;
        characters \<leftarrow> int32 (characters + vsql_m_characters b);
        vsql_m_assign_rest L stmt i rc' characters s'
      }) Q"
      if call: "SQLGetData L stmt i SQL_CHAR 256 False (world s) = ((rc', v, n), world s')"
        and s': "invar J cursor_count X s'" "agent s' = agent s" "da s' = da s" "sqlstate s' = sqlstate s"
        and rc': "completed rc'" for rc' v n s'
    proof -
      obtain x where v: "v = Some (CText x)"
        using writes_dataD [OF cli_contractD(3) [OF contract] call rc'] has_c_type_text by blast
      let ?k = "vsql_m_characters (in_buffer 256 x)"
      note piece = retrieves_textD [OF \<mu> _ call]
      have "?k + (if rc' = SQL_SUCCESS_WITH_INFO then int (\<mu> stmt i (world s')) else 0)
          \<le> int (\<mu> stmt i (world s))"
        using piece(2) [OF _ rc' v] characters_le(1) [of "in_buffer 256 x"] by (auto split: if_splits)
      then have bound: "characters + ?k + (if rc' = SQL_SUCCESS_WITH_INFO then int (\<mu> stmt i (world s')) else 0)
          < 2 ^ 31"
        using less.prems(4) True by simp
      then have "int32 (characters + ?k) = Some (characters + ?k)"
        using less.prems(3) characters_le(2) [of "in_buffer 256 x"] by (auto simp: int32_def split: if_splits)
      moreover have "ok (vsql_m_assign_rest L stmt i rc' (characters + ?k) s') Q"
      proof (cases "rc' = SQL_SUCCESS_WITH_INFO")
        case True
        then show ?thesis
          using piece(3) s' less.prems(2,3,5) bound characters_le(2) [of "in_buffer 256 x"]
          by (intro less.hyps) auto
      next
        case False
        then show ?thesis
          using s' less.prems(5) by (simp add: vsql_m_assign_rest.simps [of L stmt i rc'])
      qed
      ultimately show ?thesis
        by (simp add: v buffer_text_def)
    qed
    show ?thesis
      using True less.prems(1,2,5) step
      by (subst vsql_m_assign_rest.simps)
        (auto intro!: call_preserves [OF less.prems(1)] uses simp: vsql_m_failed_iff)
  qed
qed

lemma vsql_m_assign_text_ok:
  assumes s: "invar J cursor_count X s" and held: "(SQL_HANDLE_STMT, stmt) \<in># held (agent s) + X"
    and t: "wf_target t" "t_type t = SQL_CHAR \<or> t_type t = SQL_VARCHAR"
    and Q: "\<And>rc t' s'. invar J cursor_count X s' \<Longrightarrow> agent s' = agent s \<Longrightarrow> da s' = da s \<Longrightarrow>
      sqlstate s' = sqlstate s \<Longrightarrow> wf_target t' \<Longrightarrow> Q (rc, t') s'"
  shows "ok (vsql_m_assign_text L stmt i t s) Q"
proof -
  obtain \<mu> where \<mu>: "retrieves_text L \<mu>" using cli_contractD(5) [OF contract] by blast
  have len: "0 \<le> t_length t" "t_length t < 2 ^ 29 - 1"
    using t by (auto simp: wf_target_def)
  define bytes where "bytes = (t_length t + 1) * 4"
  have b: "int32 bytes = Some bytes" "nat bytes = 4 * (nat (t_length t) + 1)" "2 \<le> bytes"
    using len by (simp_all add: bytes_def int32_def nat_eq_iff)
  obtain rc v n w where call: "SQLGetData L stmt i SQL_CHAR bytes (has_indicator t) (world s) = ((rc, v, n), w)"
    by (metis surj_pair)
  let ?s = "s\<lparr>world := w\<rparr>"
  let ?t = "output_indicator n (output_value (map_option CText (buffer_text (nat bytes) v)) t)"
  have s': "invar J cursor_count X ?s"
  proof -
    have "preserves J (held (agent s) + X) (SQLGetData L stmt i SQL_CHAR bytes (has_indicator t))"
      by (rule uses) (rule held)
    then have "J (held (agent s) + X) w"
      using s call by (auto simp: preserves_def invar_def dest!: spec [of _ "world s"])
    then show ?thesis using s by (simp add: invar_def)
  qed
  have done1: "Q (r, t') ?s" if "wf_target t'" for r t'
    using Q [OF s'] that by simp
  show ?thesis
  proof (cases "vsql_m_failed rc \<or> \<not> not_null ?t")
    case True
    then show ?thesis
      unfolding vsql_m_assign_text_def bytes_def [symmetric]
      using b(1) done1 t(1) by (simp add: call_def call Let_def)
  next
    case False
    then have rc: "completed rc" and not_null: "not_null ?t" by (simp_all add: vsql_m_failed_iff)
    obtain x where v: "v = Some (CText x)"
      using written_not_null [OF call rc not_null] has_c_type_text by auto
    let ?x = "in_buffer (nat bytes) x"
    note piece = retrieves_textD [OF \<mu> b(3) call]
    have bound: "utf8_piece ?x" "length ?x + (if rc = SQL_SUCCESS_WITH_INFO then \<mu> stmt i w else 0) < 2 ^ 31"
      using piece(2) [OF rc v] piece(1) utf8_piece_in_buffer by auto
    have "length ?x < nat bytes" using length_in_buffer_less [of "nat bytes" x] b(3) by simp
    then obtain y tr where put: "vsql_m_put (nat bytes) (nat (t_length t)) ?x = Some (y, tr)"
      using vsql_m_put_fits [OF bound(1), of "nat (t_length t)"] unfolding b(2) by auto
    have buf: "buffer_text (nat bytes) v = Some ?x" using v by (simp add: buffer_text_def)
    have rest: "ok (vsql_m_assign_rest L stmt i rc (vsql_m_characters ?x) ?s) R"
      if "\<And>rc k s'. invar J cursor_count X s' \<Longrightarrow> agent s' = agent s \<Longrightarrow> da s' = da s \<Longrightarrow>
        sqlstate s' = sqlstate s \<Longrightarrow> R (rc, k) s'" for R
    proof (rule vsql_m_assign_rest_ok [OF \<mu> s'])
      show "(SQL_HANDLE_STMT, stmt) \<in># held (agent ?s) + X" using held by simp
      show "0 \<le> vsql_m_characters ?x" by (rule characters_le)
      show "vsql_m_characters ?x + (if rc = SQL_SUCCESS_WITH_INFO then int (\<mu> stmt i (world ?s)) else 0) < 2 ^ 31"
        using bound(2) characters_le(1) [of ?x] by (auto split: if_splits)
    qed (use that in auto)
    show ?thesis
      unfolding vsql_m_assign_text_def bytes_def [symmetric]
      using False b(1) buf put t(1) len(1) done1
      by (auto simp: call_def call Let_def intro!: rest Q)
  qed
qed

lemma vsql_m_assign_ok [wp]:
  assumes s: "invar J cursor_count X s" and held: "(SQL_HANDLE_STMT, stmt) \<in># held (agent s) + X"
    and t: "wf_target t"
    and Q: "\<And>rc t' s'. invar J cursor_count X s' \<Longrightarrow> agent s' = agent s \<Longrightarrow> da s' = da s \<Longrightarrow>
      sqlstate s' = sqlstate s \<Longrightarrow> wf_target t' \<Longrightarrow> Q (rc, t') s'"
  shows "ok (vsql_m_assign L stmt i t s) Q"
proof (cases "t_type t = SQL_CHAR \<or> t_type t = SQL_VARCHAR")
  case True
  then have "t_type t \<noteq> SQL_INTEGER" "t_type t \<noteq> SQL_BOOLEAN" by (auto simp: codes)
  with True show ?thesis
    by (auto simp: vsql_m_assign_def intro!: vsql_m_assign_text_ok [OF s held t] Q)
next
  case False
  have int: "\<exists>k. v = Some (CInt k)"
    if "SQLGetData L stmt i SQL_INTEGER 0 (has_indicator t) w = ((rc, v, n), w')"
      "\<not> vsql_m_failed rc" "not_null (output_indicator n t)" for rc v n w w'
    using written_not_null [OF that(1) _ that(3)] that(2) has_c_type_int
    by (auto simp: vsql_m_failed_iff)
  have bool: "\<exists>x. v = Some (CText x)"
    if "SQLGetData L stmt i SQL_CHAR 256 (has_indicator t) w = ((rc, v, n), w')"
      "\<not> vsql_m_failed rc" "not_null (output_indicator n t)" for rc v n w w'
    using written_not_null [OF that(1) _ that(3)] that(2) has_c_type_text
    by (auto simp: vsql_m_failed_iff)
  show ?thesis
    unfolding vsql_m_assign_def Let_def using False t held
    by (auto intro!: call_preserves [OF s] uses Q dest!: int bool simp: buffer_text_def)
qed

lemma vsql_m_assign_targets_ok:
  assumes "invar J cursor_count X s" "(SQL_HANDLE_STMT, stmt) \<in># held (agent s) + X"
    "\<forall>t\<in>set ts. wf_target t"
    and "\<And>rc ts' tr s'. invar J cursor_count X s' \<Longrightarrow> agent s' = agent s \<Longrightarrow> da s' = da s \<Longrightarrow>
      sqlstate s' = sqlstate s \<Longrightarrow> Q (rc, ts', tr) s'"
  shows "ok (vsql_m_assign_targets L stmt i rc tr ts s) Q"
  using assms
proof (induction ts arbitrary: i rc tr s Q)
  case (Cons t ts)
  show ?case
  proof (cases "rc \<noteq> SQL_SUCCESS \<and> rc \<noteq> SQL_SUCCESS_WITH_INFO")
    case True
    then show ?thesis using Cons.prems(1,4) by simp
  next
    case False
    then show ?thesis
      using Cons.prems(2,3)
      by (auto simp: Let_def intro!: vsql_m_assign_ok [OF Cons.prems(1)] Cons.IH Cons.prems(4))
  qed
qed simp

lemma vsql_m_assign_row_ok [wp]:
  assumes "invar J cursor_count X s" "(SQL_HANDLE_STMT, stmt) \<in># held (agent s) + X"
    "\<forall>t\<in>set ts. wf_target t"
    and "\<And>rc ts' tr s'. invar J cursor_count X s' \<Longrightarrow> agent s' = agent s \<Longrightarrow> da s' = da s \<Longrightarrow>
      sqlstate s' = sqlstate s \<Longrightarrow> Q (rc, ts', tr) s'"
  shows "ok (vsql_m_assign_row L stmt rc ts s) Q"
  unfolding vsql_m_assign_row_def
  by (intro vsql_m_assign_targets_ok [where X = X and s = s and Q = Q] assms)

lemma vsql_m_select_row_ok [wp]:
  assumes "invar J cursor_count (add_mset (SQL_HANDLE_STMT, stmt) X) s" "settled (agent s)"
    "\<forall>t\<in>set ts. wf_target t"
    and "\<And>good ts' s'. invar J cursor_count X s' \<Longrightarrow> settled (agent s') \<Longrightarrow>
      length (sqlstate s') = 5 \<Longrightarrow> Q (good, ts') s'"
  shows "ok (vsql_m_select_row L stmt rc ts s) Q"
  unfolding vsql_m_select_row_def using assms(1-3)
  by - ((erule wp | rule uses conjI impI | erule call_preserves | clarsimp
    | (rule assms(4); simp))[1])+

lemma vsql_m_select_ok [wp]:
  assumes "invar J cursor_count X s" "settled (agent s)" "\<forall>t\<in>set ts. wf_target t"
    and "\<And>good ts' s'. invar J cursor_count X s' \<Longrightarrow> settled (agent s') \<Longrightarrow>
      length (sqlstate s') = 5 \<Longrightarrow> Q (good, ts') s'"
  shows "ok (vsql_m_select L M sql params ts s) Q"
  unfolding vsql_m_select_def using assms(1-3)
  by - ((erule wp | rule uses conjI impI | erule call_preserves
    | clarsimp simp: vsql_m_failed_iff | (rule assms(4); simp))[1])+

end

end
