(* ===== verification/Cursor.thy ===== *)
theory Cursor
  imports Retrieval
begin

text \<open>
  The cursors of a module (\<open>std_2_14_1_declare_cursor.c\<close>): each SQL-connection has an array of
  the CLI statements of the cursors of each module, with the null handle for a cursor that has
  not been opened.
\<close>

section \<open>Routines\<close>

text \<open>
  The array is found by the module in the list of the SQL-connection, so the pointer to it that
  \<open>vsql_m_cursors\<close> gives is only whether there is one. \<open>cursors_get\<close> and \<open>cursors_set\<close> are
  \<open>cursors[i]\<close>, which is undefined out of the range of the array.
\<close>

definition find_cursors :: "nat \<Rightarrow> vsql_m_connection \<Rightarrow> vsql_m_cursors option" where
  "find_cursors w k = List.find (\<lambda>m. m_module m = w) (c_cursors k)"

definition new_cursors :: "vsql_m_module \<Rightarrow> vsql_m_cursors" where
  "new_cursors M = \<lparr>m_module = own M, m_stmts = replicate (vsql_m_cursor_count M + 1) 0,
     m_n = vsql_m_cursor_count M\<rparr>"

definition vsql_m_cursors ::
  "vsql_m_module \<Rightarrow> nat \<Rightarrow> 'w state \<Rightarrow> (bool \<times> 'w state) option" where
  "vsql_m_cursors M c s = do {
     (k, s) \<leftarrow> deref c s;
     if find_cursors (own M) k \<noteq> None then Some (True, s)
     else do {
       (good, s) \<leftarrow> allocate s;
       if \<not> good then Some (False, s)
       else do {
         (good, s) \<leftarrow> allocate s;
         if \<not> good then Some (False, s)
         else do {
           (_, s) \<leftarrow> modify c (\<lambda>k. k\<lparr>c_cursors := new_cursors M # c_cursors k\<rparr>) s;
           Some (True, s)
         }
       }
     }
   }"

definition set_cursor :: "nat \<Rightarrow> nat \<Rightarrow> int \<Rightarrow> vsql_m_connection \<Rightarrow> vsql_m_connection" where
  "set_cursor w i h k = k\<lparr>c_cursors := map (\<lambda>m.
     if m_module m = w then m\<lparr>m_stmts := (m_stmts m)[i := h]\<rparr> else m) (c_cursors k)\<rparr>"

definition cursors_get :: "vsql_m_module \<Rightarrow> nat \<Rightarrow> nat \<Rightarrow> 'w state \<Rightarrow> (int \<times> 'w state) option" where
  "cursors_get M c i s = do {
     (k, s) \<leftarrow> deref c s;
     m \<leftarrow> find_cursors (own M) k;
     if i < length (m_stmts m) then Some (m_stmts m ! i, s) else None
   }"

definition cursors_set ::
  "vsql_m_module \<Rightarrow> nat \<Rightarrow> nat \<Rightarrow> int \<Rightarrow> 'w state \<Rightarrow> (unit \<times> 'w state) option" where
  "cursors_set M c i h s = do {
     (_, s) \<leftarrow> cursors_get M c i s;
     modify c (set_cursor (own M) i h) s
   }"

text \<open>The part of \<open>vsql_m_cursor\<close> that allocates the statement of the cursor.\<close>

definition vsql_m_cursor_alloc ::
  "'w cli \<Rightarrow> vsql_m_module \<Rightarrow> nat \<Rightarrow> nat \<Rightarrow> string \<Rightarrow> int \<Rightarrow> 'w state \<Rightarrow> (int \<times> 'w state) option"
  where
  "vsql_m_cursor_alloc L M c i name holdable s = do {
     (k, s) \<leftarrow> deref c s;
     ((rc, stmt), s) \<leftarrow> call (SQLAllocHandle L SQL_HANDLE_STMT (c_dbc k)) s;
     (_, s) \<leftarrow> cursors_set M c i stmt s;
     if vsql_m_failed rc then do {
       (_, s) \<leftarrow> vsql_m_diag L rc SQL_HANDLE_DBC (c_dbc k) s;
       (_, s) \<leftarrow> cursors_set M c i 0 s;
       Some (0, s)
     } else do {
       (rc, s) \<leftarrow> call (SQLSetCursorName L stmt name) s;
       (rc, s) \<leftarrow> (if vsql_m_failed rc then Some (rc, s)
         else call (SQLSetStmtAttr L stmt SQL_ATTR_CURSOR_HOLDABLE holdable) s);
       if vsql_m_failed rc then do {
         (_, s) \<leftarrow> vsql_m_diag L rc SQL_HANDLE_STMT stmt s;
         (_, s) \<leftarrow> call (SQLFreeHandle L SQL_HANDLE_STMT stmt) s;
         (_, s) \<leftarrow> cursors_set M c i 0 s;
         Some (0, s)
       } else cursors_get M c i s
     }
   }"

definition vsql_m_cursor ::
  "'w cli \<Rightarrow> vsql_m_module \<Rightarrow> nat \<Rightarrow> string option \<Rightarrow> bool \<Rightarrow> 'w state \<Rightarrow> (int \<times> 'w state) option"
  where
  "vsql_m_cursor L M i name hold s = do {
     (c, s) \<leftarrow> vsql_m_connection L M s;
     case c of
       None \<Rightarrow> Some (0, s)
     | Some c \<Rightarrow> do {
         (good, s) \<leftarrow> vsql_m_cursors M c s;
         if \<not> good then do {
           (_, s) \<leftarrow> vsql_m_status ''HY001'' s;
           Some (0, s)
         } else do {
           (h, s) \<leftarrow> cursors_get M c i s;
           if h \<noteq> 0 then Some (h, s)
           else (case name of
               None \<Rightarrow> do {
                 (_, s) \<leftarrow> vsql_m_status ''24000'' s;
                 Some (0, s)
               }
             | Some name \<Rightarrow> vsql_m_cursor_alloc L M c i name
                 (if hold then SQL_HOLDABLE else SQL_NONHOLDABLE) s)
         }
       }
   }"

definition vsql_m_open_cursor ::
  "'w cli \<Rightarrow> vsql_m_module \<Rightarrow> nat \<Rightarrow> string \<Rightarrow> bool \<Rightarrow> string \<Rightarrow> vsql_m_param list \<Rightarrow> 'w state
    \<Rightarrow> (unit \<times> 'w state) option" where
  "vsql_m_open_cursor L M i name hold sql params s = do {
     (stmt, s) \<leftarrow> vsql_m_cursor L M i (Some name) hold s;
     if stmt = 0 then Some ((), s)
     else (case current (agent s) of
         None \<Rightarrow> None
       | Some c \<Rightarrow> do {
           (good, s) \<leftarrow> vsql_m_exec L c stmt sql params s;
           if \<not> good \<and> sqlstate s \<noteq> ''24000'' then do {
             (_, s) \<leftarrow> call (SQLFreeHandle L SQL_HANDLE_STMT stmt) s;
             (good, s) \<leftarrow> vsql_m_cursors M c s;
             if good then cursors_set M c i 0 s else None
           } else Some ((), s)
         })
   }"

text \<open>The rest of \<open>vsql_m_fetch\<close> when the statement has the number of columns that it must have.\<close>

definition vsql_m_fetch_row ::
  "'w cli \<Rightarrow> int \<Rightarrow> int \<Rightarrow> vsql_m_target list \<Rightarrow> 'w state
    \<Rightarrow> ((bool \<times> vsql_m_target list) \<times> 'w state) option" where
  "vsql_m_fetch_row L stmt rc targets s = do {
     ((rc, targets, truncated), s) \<leftarrow> vsql_m_assign_row L stmt rc targets s;
     if vsql_m_failed rc \<or> rc = SQL_NO_DATA then do {
       (_, s) \<leftarrow> vsql_m_diag L rc SQL_HANDLE_STMT stmt s;
       Some ((False, targets), s)
     } else do {
       (_, s) \<leftarrow> vsql_m_status (if truncated then ''01004'' else ''00000'') s;
       Some ((True, targets), s)
     }
   }"

definition vsql_m_fetch ::
  "'w cli \<Rightarrow> vsql_m_module \<Rightarrow> nat \<Rightarrow> vsql_m_target list \<Rightarrow> 'w state
    \<Rightarrow> ((bool \<times> vsql_m_target list) \<times> 'w state) option" where
  "vsql_m_fetch L M i targets s = do {
     (stmt, s) \<leftarrow> vsql_m_cursor L M i None False s;
     if stmt = 0 then Some ((False, targets), s)
     else do {
       (rc, s) \<leftarrow> call (SQLFetch L stmt) s;
       if rc = SQL_SUCCESS \<or> rc = SQL_SUCCESS_WITH_INFO then do {
         ((rc, columns), s) \<leftarrow> call (SQLNumResultCols L stmt) s;
         if vsql_m_failed rc then vsql_m_fetch_row L stmt rc targets s
         else (case columns of
             None \<Rightarrow> None
           | Some columns \<Rightarrow>
               if columns \<noteq> int (length targets) then do {
                 (_, s) \<leftarrow> vsql_m_status ''07002'' s;
                 Some ((False, targets), s)
               } else vsql_m_fetch_row L stmt rc targets s)
       } else vsql_m_fetch_row L stmt rc targets s
     }
   }"

definition vsql_m_close_cursor ::
  "'w cli \<Rightarrow> vsql_m_module \<Rightarrow> nat \<Rightarrow> 'w state \<Rightarrow> (unit \<times> 'w state) option" where
  "vsql_m_close_cursor L M i s = do {
     (stmt, s) \<leftarrow> vsql_m_cursor L M i None False s;
     if stmt = 0 then Some ((), s)
     else do {
       (rc, s) \<leftarrow> call (SQLCloseCursor L stmt) s;
       vsql_m_diag L rc SQL_HANDLE_STMT stmt s
     }
   }"

section \<open>The handles of the cursors\<close>

definition handle_mset :: "int \<Rightarrow> handles" where
  "handle_mset h = (if h = 0 then {#} else {#(SQL_HANDLE_STMT, h)#})"

lemma handle_mset_simps [simp]:
  "handle_mset 0 = {#}" "h \<noteq> 0 \<Longrightarrow> handle_mset h = {#(SQL_HANDLE_STMT, h)#}"
  by (simp_all add: handle_mset_def)

lemma held_cursors_update:
  assumes "i < length (m_stmts m)"
  shows "held_cursors (m\<lparr>m_stmts := (m_stmts m)[i := h]\<rparr>) + handle_mset (m_stmts m ! i) =
    held_cursors m + handle_mset h"
proof -
  let ?f = "\<lambda>M. image_mset (Pair SQL_HANDLE_STMT) (filter_mset (\<lambda>h. h \<noteq> 0) M)"
  have "mset ((m_stmts m)[i := h]) + {#m_stmts m ! i#} = mset (m_stmts m) + {#h#}"
    using assms by (simp add: mset_update)
  then have "?f (mset ((m_stmts m)[i := h]) + {#m_stmts m ! i#}) = ?f (mset (m_stmts m) + {#h#})"
    by simp
  then show ?thesis
    by (simp add: held_cursors_def handle_mset_def split: if_splits)
qed

lemma held_set_cursor:
  assumes "distinct (map m_module (c_cursors k))" "find_cursors w k = Some m"
    and "i < length (m_stmts m)"
  shows "held_connection (set_cursor w i h k) + handle_mset (m_stmts m ! i) =
    held_connection k + handle_mset h"
proof -
  from assms(2) have m: "m \<in> set (c_cursors k)" "m_module m = w"
    by (auto simp: find_cursors_def find_Some_iff)
  then obtain xs ys where xs: "c_cursors k = xs @ m # ys" by (meson split_list)
  let ?g = "\<lambda>m. if m_module m = w then m\<lparr>m_stmts := (m_stmts m)[i := h]\<rparr> else m"
  have "w \<notin> m_module ` set xs" "w \<notin> m_module ` set ys"
    using assms(1) m(2) by (auto simp: xs)
  then have "map ?g xs = xs" "map ?g ys = ys" by (auto intro!: map_idI)
  then show ?thesis
    using held_cursors_update [OF assms(3), of h] m(2)
    by (simp add: held_connection_def set_cursor_def xs ac_simps)
qed

lemma keeps_set_cursor [simp]:
  "c_address (set_cursor w i h k) = c_address k" "c_name (set_cursor w i h k) = c_name k"
  "c_is_default (set_cursor w i h k) = c_is_default k" "c_dbc (set_cursor w i h k) = c_dbc k"
  "c_active (set_cursor w i h k) = c_active k" "c_module (set_cursor w i h k) = c_module k"
  "c_prepared (set_cursor w i h k) = c_prepared k"
  "c_descriptors (set_cursor w i h k) = c_descriptors k"
  by (simp_all add: set_cursor_def)

lemma wf_set_cursor:
  assumes "wf_connection cc k" "i < cc w"
  shows "wf_connection cc (set_cursor w i h k)"
proof -
  have "map m_module (c_cursors (set_cursor w i h k)) = map m_module (c_cursors k)"
    by (simp add: set_cursor_def)
  moreover have "\<forall>m\<in>set (c_cursors (set_cursor w i h k)). wf_cursors cc m"
    using assms by (auto simp: set_cursor_def wf_connection_def wf_cursors_def nth_list_update)
  ultimately show ?thesis using assms(1) by (simp add: wf_connection_def)
qed

lemma find_set_cursor:
  "find_cursors w (set_cursor w i h k) =
     map_option (\<lambda>m. m\<lparr>m_stmts := (m_stmts m)[i := h]\<rparr>) (find_cursors w k)"
proof -
  have "List.find (\<lambda>m. m_module m = w) (map (\<lambda>m. if m_module m = w then m\<lparr>m_stmts := (m_stmts m)[i := h]\<rparr> else m) ms) =
      map_option (\<lambda>m. m\<lparr>m_stmts := (m_stmts m)[i := h]\<rparr>) (List.find (\<lambda>m. m_module m = w) ms)" for ms
    by (induction ms) auto
  then show ?thesis by (simp add: find_cursors_def set_cursor_def)
qed

section \<open>Rules\<close>

text \<open>A handle that is still in the SQL-agent, but has been freed.\<close>

definition freed ::
  "(handles \<Rightarrow> 'w \<Rightarrow> bool) \<Rightarrow> (nat \<Rightarrow> nat) \<Rightarrow> int \<Rightarrow> handles \<Rightarrow> 'w state \<Rightarrow> bool" where
  "freed J cc h X s \<longleftrightarrow> wf_agent cc (agent s) \<and> wf_da (da s) \<and>
     (SQL_HANDLE_STMT, h) \<in># held (agent s) \<and>
     J (held (agent s) + X - {#(SQL_HANDLE_STMT, h)#}) (world s)"

text \<open>The array of the cursors of the module \<open>M\<close> in the SQL-connection \<open>c\<close>.\<close>

definition slots :: "vsql_m_module \<Rightarrow> nat \<Rightarrow> vsql_m_agent \<Rightarrow> vsql_m_cursors option" where
  "slots M c a = find_cursors (own M) (lookup c a)"

lemma slots_mem: "slots M c a = Some m \<Longrightarrow> m \<in> set (c_cursors (lookup c a)) \<and> m_module m = own M"
  by (auto simp: slots_def find_cursors_def find_Some_iff)

lemma slots_update:
  "live c a \<Longrightarrow> slots M c (update c (set_cursor (own M) i h) a) =
     map_option (\<lambda>m. m\<lparr>m_stmts := (m_stmts m)[i := h]\<rparr>) (slots M c a)"
  by (simp add: slots_def lookup_update find_set_cursor)

lemma cursors_get_eq:
  "live c (agent s) \<Longrightarrow> slots M c (agent s) = Some m \<Longrightarrow> i < length (m_stmts m) \<Longrightarrow>
   cursors_get M c i s = Some (m_stmts m ! i, s)"
  by (simp add: cursors_get_def deref_live slots_def)

lemma cursors_set_eq:
  "live c (agent s) \<Longrightarrow> slots M c (agent s) = Some m \<Longrightarrow> i < length (m_stmts m) \<Longrightarrow>
   cursors_set M c i h s = modify c (set_cursor (own M) i h) s"
  by (simp add: cursors_set_def cursors_get_eq)

lemma vsql_m_cursors_found:
  "live c (agent s) \<Longrightarrow> slots M c (agent s) = Some m \<Longrightarrow> vsql_m_cursors M c s = Some (True, s)"
  by (simp add: vsql_m_cursors_def deref_live slots_def)

text \<open>
  The CLI statements of the cursors in the SQL-connection \<open>c\<close>, by their modules and indexes: 0 is the
  null handle of a cursor that has never been opened, or that couldn't be opened.
\<close>

definition cursor_stmts :: "nat \<Rightarrow> vsql_m_agent \<Rightarrow> nat \<times> nat \<Rightarrow> int" where
  "cursor_stmts c a = (\<lambda>(w, i). case find_cursors w (lookup c a) of
     None \<Rightarrow> 0
   | Some m \<Rightarrow> if i < length (m_stmts m) then m_stmts m ! i else 0)"

lemma cursor_stmts_active [simp]:
  "live c a \<Longrightarrow> cursor_stmts c (update c (\<lambda>k. k\<lparr>c_active := b\<rparr>) a) = cursor_stmts c a"
  by (simp add: cursor_stmts_def lookup_update find_cursors_def)

lemma cursor_stmts_cong:
  "c_cursors (lookup c a) = c_cursors (lookup c a') \<Longrightarrow> cursor_stmts c a = cursor_stmts c a'"
  by (simp add: cursor_stmts_def find_cursors_def)

lemma cursor_stmts_new:
  assumes "live c a" "slots M c a = None"
  shows "cursor_stmts c (update c (\<lambda>k. k\<lparr>c_cursors := new_cursors M # c_cursors k\<rparr>) a) = cursor_stmts c a"
  using assms
  by (auto simp: cursor_stmts_def lookup_update find_cursors_def slots_def new_cursors_def fun_eq_iff
      simp del: replicate_Suc split: option.split)

lemma cursor_stmts_set:
  assumes "live c a" "slots M c a = Some m" "i < length (m_stmts m)"
  shows "cursor_stmts c (update c (set_cursor (own M) i h) a) = (cursor_stmts c a)((own M, i) := h)"
proof -
  have other: "find_cursors w (set_cursor (own M) i h k) = find_cursors w k" if "w \<noteq> own M" for w k
  proof -
    have "List.find (\<lambda>m. m_module m = w) (map (\<lambda>m. if m_module m = own M
        then m\<lparr>m_stmts := (m_stmts m)[i := h]\<rparr> else m) ms) = List.find (\<lambda>m. m_module m = w) ms" for ms
      using that by (induction ms) auto
    then show ?thesis by (simp add: find_cursors_def set_cursor_def)
  qed
  have "cursor_stmts c (update c (set_cursor (own M) i h) a) (w, j) =
      ((cursor_stmts c a)((own M, i) := h)) (w, j)" for w j
    using assms other [of w]
    by (cases "w = own M") (auto simp: cursor_stmts_def lookup_update slots_def find_set_cursor nth_list_update)
  then show ?thesis by (auto simp: fun_eq_iff)
qed

text \<open>
  A module is linked: \<open>cc\<close> gives the number of its cursors, and it has the statement of each (or
  NULL).
\<close>

definition linked :: "(nat \<Rightarrow> nat) \<Rightarrow> vsql_m_module \<Rightarrow> bool" where
  "linked cc M \<longleftrightarrow> vsql_m_cursor_count M = cc (own M) \<and>
     length (cursor_statements M) = vsql_m_cursor_count M"

context runtime
begin

lemma slots_length:
  assumes "wf_agent cursor_count a" "live c a" "slots M c a = Some m" "linked cursor_count M"
    "i < vsql_m_cursor_count M"
  shows "i < length (m_stmts m)" "i < cursor_count (own M)"
proof -
  have "wf_cursors cursor_count m"
    using slots_mem [OF assms(3)] wf_agent_lookup [OF assms(1,2)] by (auto simp: wf_connection_def)
  then show "i < length (m_stmts m)" "i < cursor_count (own M)"
    using slots_mem [OF assms(3)] assms(4,5) by (auto simp: wf_cursors_def linked_def)
qed

lemma vsql_m_cursors_ok:
  assumes "invar J cursor_count X s" "settled (agent s)" "live c (agent s)" "linked cursor_count M"
    and "\<And>s'. invar J cursor_count X s' \<Longrightarrow> agent s' = agent s \<Longrightarrow> header (da s') = header (da s) \<Longrightarrow>
      sqlstate s' = sqlstate s \<Longrightarrow> Q False s'"
    and "\<And>m s'. invar J cursor_count X s' \<Longrightarrow> settled (agent s') \<Longrightarrow> live c (agent s') \<Longrightarrow>
      current (agent s') = current (agent s) \<Longrightarrow> slots M c (agent s') = Some m \<Longrightarrow>
      c_prepared (lookup c (agent s')) = c_prepared (lookup c (agent s)) \<Longrightarrow>
      cursor_stmts c (agent s') = cursor_stmts c (agent s) \<Longrightarrow>
      header (da s') = header (da s) \<Longrightarrow> sqlstate s' = sqlstate s \<Longrightarrow> Q True s'"
  shows "ok (vsql_m_cursors M c s) Q"
proof (cases "slots M c (agent s)")
  case (Some m)
  then show ?thesis
    using assms(1-3,6) by (simp add: vsql_m_cursors_found)
next
  case None
  let ?f = "\<lambda>k. k\<lparr>c_cursors := new_cursors M # c_cursors k\<rparr>"
  have new: "held_cursors (new_cursors M) = {#}" "wf_cursors cursor_count (new_cursors M)"
    using assms(4) by (simp_all add: held_cursors_def new_cursors_def wf_cursors_def linked_def nth_Cons')
  note same = cursor_stmts_new [OF assms(3) None]
  have "own M \<notin> m_module ` set (c_cursors (lookup c (agent s)))"
    using None by (auto simp: slots_def find_cursors_def find_None_iff)
  then have modify: "ok (modify c ?f t) (\<lambda>_. Q True)"
    if "invar J cursor_count X t" "agent t = agent s" "da t = da s" "sqlstate t = sqlstate s" for t
    using that assms(2,3) new
    by (intro modify_invar [OF that(1), where X' = X])
      (auto intro!: assms(6) [of _ "new_cursors M"] simp: same wf_connection_def held_connection_def settled_update live_update
        slots_def find_cursors_def lookup_update, auto simp: new_cursors_def)
  show ?thesis
    using assms(3) None unfolding vsql_m_cursors_def
    by (simp add: deref_live slots_def) (auto intro!: allocate_invar [OF assms(1)] allocate_invar [of J cursor_count X] modify assms(5))
qed

lemma free_held_ok:
  assumes "invar J cursor_count X s" "(SQL_HANDLE_STMT, h) \<in># held (agent s)"
    and "\<And>a s'. freed J cursor_count h X s' \<Longrightarrow> agent s' = agent s \<Longrightarrow> da s' = da s \<Longrightarrow>
      sqlstate s' = sqlstate s \<Longrightarrow> Q a s'"
  shows "ok (call (SQLFreeHandle L SQL_HANDLE_STMT h) s) Q"
proof -
  obtain a w where f: "SQLFreeHandle L SQL_HANDLE_STMT h (world s) = (a, w)" by (metis surj_pair)
  have "J (held (agent s) + X - {#(SQL_HANDLE_STMT, h)#}) w"
    using assms(1,2) free [of "held (agent s) + X" "world s" SQL_HANDLE_STMT h] f
    by (simp add: invar_def)
  then have "freed J cursor_count h X (s\<lparr>world := w\<rparr>)"
    using assms(1,2) by (simp add: freed_def invar_def)
  then show ?thesis
    using f by (auto simp: call_def intro!: assms(3))
qed

text \<open>The handle that has been freed is taken out of the SQL-agent.\<close>

lemma modify_freed:
  assumes s: "freed J cursor_count h X s" and c: "live c (agent s)" "keeps_address f"
    and wf: "wf_connection cursor_count (lookup c (agent s)) \<Longrightarrow>
      wf_connection cursor_count (f (lookup c (agent s)))"
    and held: "held_connection (f (lookup c (agent s))) + {#(SQL_HANDLE_STMT, h)#} =
      held_connection (lookup c (agent s))"
    and Q: "\<And>s'. invar J cursor_count X s' \<Longrightarrow> da s' = da s \<Longrightarrow> sqlstate s' = sqlstate s \<Longrightarrow>
      agent s' = update c f (agent s) \<Longrightarrow> Q () s'"
  shows "ok (modify c f s) Q"
proof -
  have a: "wf_agent cursor_count (agent s)" using s by (simp add: freed_def)
  have eq: "held (update c f (agent s)) + {#(SQL_HANDLE_STMT, h)#} = held (agent s)"
    using held_update [OF a c(1), of f "{#(SQL_HANDLE_STMT, h)#}" "{#}"] held by simp
  have "held (agent s) + X - {#(SQL_HANDLE_STMT, h)#} = held (update c f (agent s)) + X"
    by (simp flip: eq)
  moreover have "wf_agent cursor_count (update c f (agent s))"
    using a c(2) wf by (rule wf_agent_update)
  ultimately have "invar J cursor_count X (s\<lparr>agent := update c f (agent s)\<rparr>)"
    using s unfolding freed_def invar_def by simp
  then show ?thesis
    using c by (auto intro!: modify_ok Q)
qed

lemma cursors_set_freed:
  assumes s: "freed J cursor_count h X s" and c: "live c (agent s)" "slots M c (agent s) = Some m"
    and i: "i < length (m_stmts m)" "i < cursor_count (own M)" "m_stmts m ! i = h" "h \<noteq> 0"
    and Q: "\<And>s'. invar J cursor_count X s' \<Longrightarrow> da s' = da s \<Longrightarrow> sqlstate s' = sqlstate s \<Longrightarrow>
      agent s' = update c (set_cursor (own M) i 0) (agent s) \<Longrightarrow> Q () s'"
  shows "ok (cursors_set M c i 0 s) Q"
proof -
  have "wf_agent cursor_count (agent s)" using s by (simp add: freed_def)
  then have "distinct (map m_module (c_cursors (lookup c (agent s))))"
    using wf_agent_lookup c(1) by (auto simp: wf_connection_def)
  then have "held_connection (set_cursor (own M) i 0 (lookup c (agent s))) + {#(SQL_HANDLE_STMT, h)#} =
      held_connection (lookup c (agent s))"
    using held_set_cursor [of "lookup c (agent s)" "own M" m i 0] c(2) i
    by (simp add: slots_def)
  then show ?thesis
    using c i by (auto simp: cursors_set_eq intro!: modify_freed [OF s] wf_set_cursor Q)
qed

lemma cursors_set_alloc:
  assumes s: "invar J cursor_count (handle_mset h + X) s" and c: "live c (agent s)" "slots M c (agent s) = Some m"
    and i: "i < length (m_stmts m)" "i < cursor_count (own M)" "m_stmts m ! i = 0"
    and Q: "\<And>s'. invar J cursor_count X s' \<Longrightarrow> da s' = da s \<Longrightarrow> sqlstate s' = sqlstate s \<Longrightarrow>
      agent s' = update c (set_cursor (own M) i h) (agent s) \<Longrightarrow> Q () s'"
  shows "ok (cursors_set M c i h s) Q"
proof -
  have "distinct (map m_module (c_cursors (lookup c (agent s))))"
    using wf_agent_lookup [OF invar_wf_agent [OF s] c(1)] by (simp add: wf_connection_def)
  then have "held_connection (set_cursor (own M) i h (lookup c (agent s))) + X =
      held_connection (lookup c (agent s)) + (handle_mset h + X)"
    using held_set_cursor [of "lookup c (agent s)" "own M" m i h] c(2) i
    by (simp add: slots_def)
  then show ?thesis
    using c i by (simp add: cursors_set_eq)
      (auto intro!: modify_invar [OF s c(1), where X' = X] wf_set_cursor Q)
qed

text \<open>The statement of cursor \<open>i\<close> in the current SQL-connection.\<close>

definition at_cursor :: "vsql_m_module \<Rightarrow> nat \<Rightarrow> int \<Rightarrow> nat \<Rightarrow> vsql_m_agent \<Rightarrow> bool" where
  "at_cursor M i h c a \<longleftrightarrow> live c a \<and> current a = Some c \<and>
     (\<exists>m. slots M c a = Some m \<and> i < length (m_stmts m) \<and> i < cursor_count (own M) \<and>
       m_stmts m ! i = h)"

lemma at_cursor_held: "at_cursor M i h c a \<Longrightarrow> h \<noteq> 0 \<Longrightarrow> (SQL_HANDLE_STMT, h) \<in># held a"
  by (auto simp: at_cursor_def dest!: slots_mem intro!: held_stmt)

lemma at_cursor_stmts: "at_cursor M i h c a \<Longrightarrow> cursor_stmts c a (own M, i) = h"
  by (auto simp: at_cursor_def cursor_stmts_def slots_def)

lemma at_cursor_update:
  "at_cursor M i g c a \<Longrightarrow>
     cursor_stmts c (update c (set_cursor (own M) i h) a) = (cursor_stmts c a)((own M, i) := h)"
  by (auto simp: at_cursor_def cursor_stmts_set)

lemma at_cursor_current: "at_cursor M i h c a \<Longrightarrow> current a = Some c"
  by (simp add: at_cursor_def)

lemma at_cursor_set: "at_cursor M i g c a \<Longrightarrow> at_cursor M i h c (update c (set_cursor (own M) i h) a)"
  by (auto simp: at_cursor_def live_update slots_update)

lemma at_cursor_active:
  "at_cursor M i h c a \<Longrightarrow> at_cursor M i h c (update c (\<lambda>k. k\<lparr>c_active := b\<rparr>) a)"
  by (auto simp: at_cursor_def live_update slots_def find_cursors_def lookup_update)

lemma settled_set_cursor: "settled a \<Longrightarrow> settled (update c (set_cursor w i h) a)"
  by (simp add: settled_update)

lemma cursors_get_ok: "at_cursor M i h c (agent s) \<Longrightarrow> Q h s \<Longrightarrow> ok (cursors_get M c i s) Q"
  by (auto simp: at_cursor_def cursors_get_eq)

lemma vsql_m_cursor_alloc_ok:
  assumes s: "invar J cursor_count X s" "settled (agent s)" and c: "at_cursor M i 0 c (agent s)"
    and bad: "\<And>s'. invar J cursor_count X s' \<Longrightarrow> settled (agent s') \<Longrightarrow> length (sqlstate s') = 5 \<Longrightarrow>
      current (agent s') = Some c \<Longrightarrow>
      cursor_stmts c (agent s') = cursor_stmts c (agent s) \<Longrightarrow> Q 0 s'"
    and good: "\<And>h s'. invar J cursor_count X s' \<Longrightarrow> settled (agent s') \<Longrightarrow> h \<noteq> 0 \<Longrightarrow>
      at_cursor M i h c (agent s') \<Longrightarrow>
      c_prepared (lookup c (agent s')) = c_prepared (lookup c (agent s)) \<Longrightarrow>
      cursor_stmts c (agent s') = (cursor_stmts c (agent s))((own M, i) := h) \<Longrightarrow> Q h s'"
  shows "ok (vsql_m_cursor_alloc L M c i name holdable s) Q"
proof -
  have live: "live c (agent s)" using c by (simp add: at_cursor_def)
  have set: "ok (cursors_set M c i h t) R"
    if t: "if h = 0 then invar J cursor_count X t
        else invar J cursor_count (add_mset (SQL_HANDLE_STMT, h) X) t"
      "settled (agent t)" "at_cursor M i 0 c (agent t)"
      "\<And>s'. invar J cursor_count X s' \<Longrightarrow> settled (agent s') \<Longrightarrow> at_cursor M i h c (agent s') \<Longrightarrow>
        live c (agent s') \<Longrightarrow> current (agent s') = Some c \<Longrightarrow>
        (SQL_HANDLE_DBC, c_dbc (lookup c (agent t))) \<in># held (agent s') \<Longrightarrow>
        c_prepared (lookup c (agent s')) = c_prepared (lookup c (agent t)) \<Longrightarrow>
        cursor_stmts c (agent s') = (cursor_stmts c (agent t))((own M, i) := h) \<Longrightarrow>
        sqlstate s' = sqlstate t \<Longrightarrow> R () s'"
    for t h R
  proof -
    have h: "invar J cursor_count (handle_mset h + X) t"
      using t(1) by (simp add: handle_mset_def split: if_splits)
    obtain m where m: "live c (agent t)" "slots M c (agent t) = Some m" "i < length (m_stmts m)"
        "i < cursor_count (own M)" "m_stmts m ! i = 0"
      using t(3) by (auto simp: at_cursor_def)
    have dbc: "(SQL_HANDLE_DBC, c_dbc (lookup c (agent t))) \<in>#
        held (update c (set_cursor (own M) i h) (agent t))"
      using m(1) t(2) held_dbc [of c "update c (set_cursor (own M) i h) (agent t)"]
      by (simp add: live_update lookup_update settled_dbc)
    with m t(2,3) show ?thesis
      by (intro cursors_set_alloc [OF h, of c M m])
        (auto intro!: t(4) at_cursor_set at_cursor_update simp: settled_set_cursor live_update lookup_update at_cursor_current)
  qed
  have null: "(cursor_stmts c (agent s))((own M, i) := 0) = cursor_stmts c (agent s)"
    using at_cursor_stmts [OF c] by auto
  have unset: "ok (cursors_set M c i 0 t) (\<lambda>_. Q 0)"
    if t: "freed J cursor_count h X t" "settled (agent t)" "at_cursor M i h c (agent t)" "h \<noteq> 0"
      "length (sqlstate t) = 5" "cursor_stmts c (agent t) = (cursor_stmts c (agent s))((own M, i) := h)" for t h
  proof -
    obtain m where "live c (agent t)" "slots M c (agent t) = Some m" "i < length (m_stmts m)"
        "i < cursor_count (own M)" "m_stmts m ! i = h"
      using t(3) by (auto simp: at_cursor_def)
    with t(2-) at_cursor_update [OF t(3), of 0] null show ?thesis
      by (intro cursors_set_freed [OF t(1), of c M m])
        (auto intro!: bad simp: settled_set_cursor at_cursor_def)
  qed
  have free: "ok (call (SQLFreeHandle L SQL_HANDLE_STMT h) t)
      (\<lambda>_ s. ok (cursors_set M c i 0 s) (\<lambda>_. Q 0))"
    if "invar J cursor_count X t" "settled (agent t)" "at_cursor M i h c (agent t)" "h \<noteq> 0"
      "length (sqlstate t) = 5" "cursor_stmts c (agent t) = (cursor_stmts c (agent s))((own M, i) := h)" for t h
    using that at_cursor_held [OF that(3,4)] by (intro free_held_ok [OF that(1)]) (auto intro!: unset)
  show ?thesis
    unfolding vsql_m_cursor_alloc_def
    using s c live settled_dbc [OF s(2) live] null
    by - ((simp add: vsql_m_failed_iff parent_dbc at_cursor_held | erule wp
      | rule deref_ok set free cursors_get_ok uses conjI impI | erule call_preserves | (rule bad good; simp))[1])+
qed

lemma vsql_m_cursor_ok:
  assumes s: "invar J cursor_count X s" "settled (agent s)" "linked cursor_count M" "i < vsql_m_cursor_count M"
    and bad: "\<And>s'. invar J cursor_count X s' \<Longrightarrow> settled (agent s') \<Longrightarrow> length (sqlstate s') = 5 \<Longrightarrow>
      Q 0 s'"
    and good: "\<And>h c s'. invar J cursor_count X s' \<Longrightarrow> settled (agent s') \<Longrightarrow> h \<noteq> 0 \<Longrightarrow>
      at_cursor M i h c (agent s') \<Longrightarrow> Q h s'"
  shows "ok (vsql_m_cursor L M i name hold s) Q"
proof -
  have get: "ok (cursors_get M c i t) R"
    if t: "invar J cursor_count X t" "live c (agent t)" "current (agent t) = Some c"
      "slots M c (agent t) = Some m"
      "\<And>h. invar J cursor_count X t \<Longrightarrow> at_cursor M i h c (agent t) \<Longrightarrow> R h t" for t c m R
    using slots_length [OF invar_wf_agent [OF t(1)] t(2,4) s(3,4)] t
    by (auto simp: cursors_get_eq at_cursor_def)
  show ?thesis
    unfolding vsql_m_cursor_def using s
    by - ((erule vsql_m_cursor_alloc_ok vsql_m_cursors_ok get wp | rule conjI impI allI refl
      | clarsimp | (rule bad; simp) | (rule good; (assumption | simp)))[1])+
qed

text \<open>The prepared statements stay when there is a current SQL-connection.\<close>

lemma vsql_m_cursor_same:
  assumes s: "invar J cursor_count X s" "settled (agent s)" "current (agent s) = Some c"
    "linked cursor_count M" "i < vsql_m_cursor_count M"
    and bad: "\<And>s'. invar J cursor_count X s' \<Longrightarrow> settled (agent s') \<Longrightarrow> length (sqlstate s') = 5 \<Longrightarrow>
      current (agent s') = Some c \<Longrightarrow>
      cursor_stmts c (agent s') = cursor_stmts c (agent s) \<Longrightarrow> Q 0 s'"
    and good: "\<And>h s'. invar J cursor_count X s' \<Longrightarrow> settled (agent s') \<Longrightarrow> h \<noteq> 0 \<Longrightarrow>
      at_cursor M i h c (agent s') \<Longrightarrow>
      c_prepared (lookup c (agent s')) = c_prepared (lookup c (agent s)) \<Longrightarrow>
      cursor_stmts c (agent s') = (cursor_stmts c (agent s))((own M, i) := h) \<Longrightarrow>
      cursor_stmts c (agent s) (own M, i) = h \<or> cursor_stmts c (agent s) (own M, i) = 0 \<and> name \<noteq> None \<Longrightarrow>
      Q h s'"
  shows "ok (vsql_m_cursor L M i name hold s) Q"
proof -
  have get: "ok (cursors_get M c i t) R"
    if t: "invar J cursor_count X t" "live c (agent t)" "current (agent t) = Some c"
      "slots M c (agent t) = Some m"
      "\<And>h. invar J cursor_count X t \<Longrightarrow> at_cursor M i h c (agent t) \<Longrightarrow> R h t" for t m R
    using slots_length [OF invar_wf_agent [OF t(1)] t(2,4) s(4,5)] t
    by (auto simp: cursors_get_eq at_cursor_def)
  have conn: "ok (vsql_m_connection L M s) R"
    if "\<And>s'. invar J cursor_count X s' \<Longrightarrow> settled (agent s') \<Longrightarrow> length (sqlstate s') = 5 \<Longrightarrow>
        current (agent s') = Some c \<Longrightarrow> cursor_stmts c (agent s') = cursor_stmts c (agent s) \<Longrightarrow> R None s'"
      "\<And>s'. invar J cursor_count X s' \<Longrightarrow> settled (agent s') \<Longrightarrow> live c (agent s') \<Longrightarrow>
        current (agent s') = Some c \<Longrightarrow> c_prepared (lookup c (agent s')) = c_prepared (lookup c (agent s)) \<Longrightarrow>
        cursor_stmts c (agent s') = cursor_stmts c (agent s) \<Longrightarrow> R (Some c) s'" for R
    using s(3)
    by (intro vsql_m_connection_same [OF s(1-3)]) (auto intro!: that cursor_stmts_cong)
  have good': "Q h t"
    if t: "invar J cursor_count X t" "settled (agent t)" "h \<noteq> 0" "at_cursor M i h c (agent t)"
      "c_prepared (lookup c (agent t)) = c_prepared (lookup c (agent s))"
      "cursor_stmts c (agent t) = cursor_stmts c (agent s)" for h t
    using at_cursor_stmts [OF t(4)] t(6) by (intro good t) (auto simp: fun_upd_idem)
  have alloc: "ok (vsql_m_cursor_alloc L M c i n b t) Q"
    if t: "invar J cursor_count X t" "settled (agent t)" "at_cursor M i 0 c (agent t)"
      "c_prepared (lookup c (agent t)) = c_prepared (lookup c (agent s))"
      "cursor_stmts c (agent t) = cursor_stmts c (agent s)" "name = Some n" for n b t
    using at_cursor_stmts [OF t(3)] t(4-6)
    by (intro vsql_m_cursor_alloc_ok [OF t(1-3)]) (auto intro!: bad good)
  show ?thesis
    unfolding vsql_m_cursor_def using s
    by - ((rule conn | erule vsql_m_cursors_ok get wp
      | rule conjI impI allI refl
      | clarsimp | (rule bad; simp) | (rule good' alloc; simp))[1])+
qed

lemma at_cursor_heldI [simp]:
  "at_cursor M i h c a \<Longrightarrow> h \<noteq> 0 \<Longrightarrow> (SQL_HANDLE_STMT, h) \<in># held a"
  by (rule at_cursor_held)

lemma vsql_m_close_cursor_ok [wp]:
  assumes "invar J cursor_count X s" "settled (agent s)" "linked cursor_count M" "i < vsql_m_cursor_count M"
    and Q: "\<And>s'. invar J cursor_count X s' \<Longrightarrow> settled (agent s') \<Longrightarrow> length (sqlstate s') = 5 \<Longrightarrow> Q () s'"
  shows "ok (vsql_m_close_cursor L M i s) Q"
  unfolding vsql_m_close_cursor_def using assms(1-4)
  by - ((erule vsql_m_cursor_ok wp | rule uses conjI impI | erule call_preserves | clarsimp
    | (rule Q; simp))[1])+

lemma vsql_m_fetch_row_ok [wp]:
  assumes "invar J cursor_count X s" "settled (agent s)" "(SQL_HANDLE_STMT, stmt) \<in># held (agent s) + X"
    "\<forall>t\<in>set ts. wf_target t"
    and Q: "\<And>good ts' s'. invar J cursor_count X s' \<Longrightarrow> settled (agent s') \<Longrightarrow>
      agent s' = agent s \<Longrightarrow> length (sqlstate s') = 5 \<Longrightarrow> Q (good, ts') s'"
  shows "ok (vsql_m_fetch_row L stmt rc ts s) Q"
  unfolding vsql_m_fetch_row_def using assms(1-4)
  by - ((erule wp | rule uses conjI impI | erule call_preserves | clarsimp
    | (rule Q; simp))[1])+

lemma vsql_m_fetch_ok [wp]:
  assumes "invar J cursor_count X s" "settled (agent s)" "linked cursor_count M" "i < vsql_m_cursor_count M"
    "\<forall>t\<in>set ts. wf_target t"
    and Q: "\<And>good ts' s'. invar J cursor_count X s' \<Longrightarrow> settled (agent s') \<Longrightarrow>
      length (sqlstate s') = 5 \<Longrightarrow> Q (good, ts') s'"
  shows "ok (vsql_m_fetch L M i ts s) Q"
  unfolding vsql_m_fetch_def using assms(1-5)
  by - ((erule vsql_m_cursor_ok wp | rule uses conjI impI | erule call_preserves
    | clarsimp simp: vsql_m_failed_iff | (rule Q; simp))[1])+

text \<open>Freeing the statement of a cursor that couldn't be opened.\<close>

lemma free_cursor_ok:
  assumes t: "invar J cursor_count X t" "settled (agent t)" "at_cursor M i h c (agent t)" "h \<noteq> 0"
    and Q: "\<And>s'. invar J cursor_count X s' \<Longrightarrow> settled (agent s') \<Longrightarrow> sqlstate s' = sqlstate t \<Longrightarrow>
      current (agent s') = Some c \<Longrightarrow>
      cursor_stmts c (agent s') = (cursor_stmts c (agent t))((own M, i) := 0) \<Longrightarrow> Q () s'"
  shows "ok (call (SQLFreeHandle L SQL_HANDLE_STMT h) t)
    (\<lambda>_ s. ok (vsql_m_cursors M c s) (\<lambda>g s. (g \<longrightarrow> ok (cursors_set M c i 0 s) Q) \<and> g))"
proof -
  obtain m where m: "live c (agent t)" "slots M c (agent t) = Some m" "i < length (m_stmts m)"
      "i < cursor_count (own M)" "m_stmts m ! i = h"
    using t(3) by (auto simp: at_cursor_def)
  have "ok (cursors_set M c i 0 t') Q"
    if "freed J cursor_count h X t'" "agent t' = agent t" "sqlstate t' = sqlstate t" for t'
    using m t(2,4) that(2,3) at_cursor_update [OF t(3)] at_cursor_current [OF t(3)]
    by (intro cursors_set_freed [OF that(1), of c M m]) (auto intro!: Q simp: settled_set_cursor)
  then show ?thesis
    using m by (intro free_held_ok [OF t(1) at_cursor_held [OF t(3,4)]])
      (auto simp: vsql_m_cursors_found)
qed

lemma vsql_m_open_cursor_ok [wp]:
  assumes s: "invar J cursor_count X s" "settled (agent s)" "linked cursor_count M" "i < vsql_m_cursor_count M"
    and Q: "\<And>s'. invar J cursor_count X s' \<Longrightarrow> settled (agent s') \<Longrightarrow> length (sqlstate s') = 5 \<Longrightarrow> Q () s'"
  shows "ok (vsql_m_open_cursor L M i name hold sql params s) Q"
proof -
  have exec: "ok (vsql_m_exec L c h sql params t) R"
    if t: "invar J cursor_count X t" "settled (agent t)" "at_cursor M i h c (agent t)" "h \<noteq> 0"
      "\<And>good s'. invar J cursor_count X s' \<Longrightarrow> settled (agent s') \<Longrightarrow>
        length (sqlstate s') = 5 \<Longrightarrow> at_cursor M i h c (agent s') \<Longrightarrow> R good s'" for t h c R
  proof -
    have "live c (agent t)" using t(3) by (simp add: at_cursor_def)
    then show ?thesis
      using t(2-4) by (intro vsql_m_exec_ok [OF t(1)]) (auto intro!: t(5) at_cursor_active)
  qed
  have current: "current (agent t) = Some c" if "at_cursor M i h c (agent t)" for t c h
    using that by (simp add: at_cursor_def)
  show ?thesis
    unfolding vsql_m_open_cursor_def using s
    by - ((erule vsql_m_cursor_ok | rule conjI impI | (rule exec; assumption?)
      | (rule free_cursor_ok; assumption?) | (rule Q; simp) | clarsimp simp: current)[1])+
qed

text \<open>What the statements on a cursor do to the CLI statements in the current SQL-connection.\<close>

lemma vsql_m_open_cursor_same:
  assumes s: "invar J cursor_count X s" "settled (agent s)" "current (agent s) = Some c"
    "linked cursor_count M" "i < vsql_m_cursor_count M"
    and Q: "\<And>h s'. invar J cursor_count X s' \<Longrightarrow> settled (agent s') \<Longrightarrow> length (sqlstate s') = 5 \<Longrightarrow>
      current (agent s') = Some c \<Longrightarrow>
      cursor_stmts c (agent s') = (cursor_stmts c (agent s))((own M, i) := h) \<Longrightarrow>
      cursor_stmts c (agent s) (own M, i) \<in> {0, h} \<or> h = 0 \<and> sqlstate s' \<noteq> ''24000'' \<Longrightarrow> Q () s'"
  shows "ok (vsql_m_open_cursor L M i name hold sql params s) Q"
proof -
  have bad: "Q () t"
    if t: "invar J cursor_count X t" "settled (agent t)" "length (sqlstate t) = 5" "current (agent t) = Some c"
      "cursor_stmts c (agent t) = cursor_stmts c (agent s)" for t
    using t(5) by (intro Q [of _ "cursor_stmts c (agent s) (own M, i)"] t) auto
  have opened: "ok (vsql_m_exec L c h sql params t) (\<lambda>good t'.
      (\<not> good \<and> sqlstate t' \<noteq> ''24000'' \<longrightarrow> ok (call (SQLFreeHandle L SQL_HANDLE_STMT h) t')
        (\<lambda>_ u. ok (vsql_m_cursors M c u) (\<lambda>g u. (g \<longrightarrow> ok (cursors_set M c i 0 u) Q) \<and> g))) \<and>
      (good \<or> sqlstate t' = ''24000'' \<longrightarrow> Q () t'))"
    if t: "invar J cursor_count X t" "settled (agent t)" "at_cursor M i h c (agent t)" "h \<noteq> 0"
      "cursor_stmts c (agent t) = (cursor_stmts c (agent s))((own M, i) := h)"
      "cursor_stmts c (agent s) (own M, i) = h \<or> cursor_stmts c (agent s) (own M, i) = 0" for h t
  proof (rule vsql_m_exec_ok [OF t(1,2)])
    show live: "live c (agent t)" using t(3) by (simp add: at_cursor_def)
    show "(SQL_HANDLE_STMT, h) \<in># held (agent t) + X" using t(3,4) by simp
    fix good t'
    assume t': "invar J cursor_count X t'" "settled (agent t')" "length (sqlstate t') = 5"
      "agent t' = agent t \<and> \<not> good \<or> agent t' = update c (\<lambda>k. k\<lparr>c_active := True\<rparr>) (agent t)"
    then have at: "at_cursor M i h c (agent t')" "cursor_stmts c (agent t') = cursor_stmts c (agent t)"
      using t(3) at_cursor_active [OF t(3)] live by auto
    have "ok (call (SQLFreeHandle L SQL_HANDLE_STMT h) t')
        (\<lambda>_ u. ok (vsql_m_cursors M c u) (\<lambda>g u. (g \<longrightarrow> ok (cursors_set M c i 0 u) Q) \<and> g))"
      if "sqlstate t' \<noteq> ''24000''"
      using t' that t(5) at(2) by (intro free_cursor_ok [OF t'(1,2) at(1) t(4)] Q [of _ 0]) auto
    moreover have "Q () t'"
      using t' t(5,6) at(2) at_cursor_current [OF at(1)] by (intro Q [of _ h]) auto
    ultimately show "(\<not> good \<and> sqlstate t' \<noteq> ''24000'' \<longrightarrow> ok (call (SQLFreeHandle L SQL_HANDLE_STMT h) t')
        (\<lambda>_ u. ok (vsql_m_cursors M c u) (\<lambda>g u. (g \<longrightarrow> ok (cursors_set M c i 0 u) Q) \<and> g))) \<and>
      (good \<or> sqlstate t' = ''24000'' \<longrightarrow> Q () t')"
      by blast
  qed
  show ?thesis
    unfolding vsql_m_open_cursor_def using s
    by (simp, intro vsql_m_cursor_same [OF s])
      (use opened in \<open>auto intro!: bad simp: at_cursor_current\<close>)
qed

lemma vsql_m_fetch_same:
  assumes s: "invar J cursor_count X s" "settled (agent s)" "current (agent s) = Some c"
    "linked cursor_count M" "i < vsql_m_cursor_count M" "\<forall>t\<in>set ts. wf_target t"
    and Q: "\<And>good ts' s'. invar J cursor_count X s' \<Longrightarrow> settled (agent s') \<Longrightarrow> length (sqlstate s') = 5 \<Longrightarrow>
      current (agent s') = Some c \<Longrightarrow> cursor_stmts c (agent s') = cursor_stmts c (agent s) \<Longrightarrow>
      cursor_stmts c (agent s) (own M, i) \<noteq> 0 \<or> \<not> good \<and> ts' = ts \<Longrightarrow> Q (good, ts') s'"
  shows "ok (vsql_m_fetch L M i ts s) Q"
  unfolding vsql_m_fetch_def using s
  by - ((rule vsql_m_cursor_same [OF s(1-5)] | erule vsql_m_fetch_row_ok wp | rule uses conjI impI | erule call_preserves
    | clarsimp simp: vsql_m_failed_iff | (rule Q; simp add: at_cursor_current))[1])+

lemma vsql_m_close_cursor_same:
  assumes s: "invar J cursor_count X s" "settled (agent s)" "current (agent s) = Some c"
    "linked cursor_count M" "i < vsql_m_cursor_count M"
    and Q: "\<And>s'. invar J cursor_count X s' \<Longrightarrow> settled (agent s') \<Longrightarrow> length (sqlstate s') = 5 \<Longrightarrow>
      current (agent s') = Some c \<Longrightarrow> cursor_stmts c (agent s') = cursor_stmts c (agent s) \<Longrightarrow> Q () s'"
  shows "ok (vsql_m_close_cursor L M i s) Q"
  unfolding vsql_m_close_cursor_def using s
  by - ((rule vsql_m_cursor_same [OF s] | erule wp | rule uses conjI impI | erule call_preserves | clarsimp
    | (rule Q; auto simp: at_cursor_current))[1])+

end

end
