(* ===== verification/Store.thy ===== *)
theory Store
  imports Prelude
begin

text \<open>
  The interface of the linked lists that an SQL-connection has: the prepared statements and the
  SQL descriptor areas of its SQL-session, each with a key. What a program sees of such a list is a
  map from the keys.
\<close>

section \<open>The map that a list stands for\<close>

definition entries :: "('a \<Rightarrow> 'k) \<Rightarrow> 'a list \<Rightarrow> 'k \<Rightarrow> 'a option" where
  "entries key xs = map_of (map (\<lambda>x. (key x, x)) xs)"

lemma entries_find: "entries key xs k = List.find (\<lambda>x. key x = k) xs"
  by (induction xs) (auto simp: entries_def)

lemma entries_Cons [simp]: "entries key (x # xs) = (entries key xs)(key x \<mapsto> x)"
  by (simp add: entries_def)

lemma entries_Nil [simp]: "entries key [] = Map.empty"
  by (simp add: entries_def)

lemma dom_entries: "dom (entries key xs) = key ` set xs"
  by (simp add: entries_def dom_map_of_conv_image_fst image_image)

lemma entries_key: "entries key xs k = Some x \<Longrightarrow> key x = k \<and> x \<in> set xs"
  by (auto simp: entries_find find_Some_iff)

lemma entries_unlink:
  assumes "distinct (map key xs)"
  shows "entries key (unlink (link (\<lambda>x. key x = k) xs) xs) = (entries key xs)(k := None)"
  using assms
proof (induction xs)
  case (Cons x xs)
  show ?case
  proof (cases "key x = k")
    case True
    then have "k \<notin> dom (entries key xs)" using Cons.prems by (auto simp: dom_entries)
    then show ?thesis using True by (auto simp: unlink_def fun_eq_iff domIff)
  next
    case False
    then show ?thesis using Cons by (auto simp: unlink_def)
  qed
qed (auto simp: unlink_def)

lemma entries_update:
  assumes "distinct (map key xs)" "i < length xs" "key y = key (xs ! i)"
  shows "entries key (xs[i := y]) = (entries key xs)(key y \<mapsto> y)"
  using assms
proof (induction xs arbitrary: i)
  case (Cons x xs)
  show ?case
  proof (cases i)
    case (Suc j)
    then have "key (xs ! j) \<in> key ` set xs" using Cons.prems(2) by simp
    moreover have "key x \<notin> key ` set xs" using Cons.prems(1) by simp
    ultimately have "key (xs ! j) \<noteq> key x" by metis
    then have "key y \<noteq> key x" using Suc Cons.prems(3) by simp
    then show ?thesis using Suc Cons by (auto simp: fun_eq_iff)
  qed (use Cons.prems in \<open>auto simp: fun_eq_iff\<close>)
qed simp

lemma entries_nth:
  "distinct (map key xs) \<Longrightarrow> i < length xs \<Longrightarrow> entries key xs (key (xs ! i)) = Some (xs ! i)"
proof (induction xs arbitrary: i)
  case (Cons x xs)
  show ?case
  proof (cases i)
    case (Suc j)
    then have "key (xs ! j) \<in> key ` set xs" using Cons.prems(2) by simp
    moreover have "key x \<notin> key ` set xs" using Cons.prems(1) by simp
    ultimately have "key (xs ! j) \<noteq> key x" by metis
    then show ?thesis using Suc Cons by simp
  qed simp
qed simp

section \<open>The interface\<close>

text \<open>
  \<open>seek\<close> gives the link to the element with a key, or the last link. \<open>push\<close> links an element at
  the start, and \<open>drop_link\<close> unlinks the element of a link.
\<close>

locale store =
  fixes elems :: "'c \<Rightarrow> 'a list" and key :: "'a \<Rightarrow> 'k" and seek :: "'k \<Rightarrow> 'c \<Rightarrow> nat"
    and push :: "'a \<Rightarrow> 'c \<Rightarrow> 'c" and drop_link :: "nat \<Rightarrow> 'c \<Rightarrow> 'c"
  assumes seek_link: "seek k c = link (\<lambda>x. key x = k) (elems c)"
    and elems_push: "elems (push x c) = x # elems c"
    and elems_drop: "elems (drop_link i c) = unlink i (elems c)"
begin

lemma found: "deref_link (elems c) (seek k c) = entries key (elems c) k"
  by (simp add: seek_link deref_link_find entries_find)

lemma not_found: "deref_link (elems c) (seek k c) = None \<longleftrightarrow> k \<notin> key ` set (elems c)"
  by (simp add: found flip: dom_entries) (simp add: domIff)

lemma found_nth: "deref_link (elems c) (seek k c) = Some x \<Longrightarrow>
    seek k c < length (elems c) \<and> elems c ! seek k c = x"
  by (simp add: deref_link_def split: if_splits)

lemma pushed: "entries key (elems (push x c)) = (entries key (elems c))(key x \<mapsto> x)"
  by (simp add: elems_push)

lemma push_distinct:
  "distinct (map key (elems c)) \<Longrightarrow> deref_link (elems c) (seek (key x) c) = None \<Longrightarrow>
   distinct (map key (elems (push x c)))"
  by (simp add: elems_push not_found)

lemma dropped:
  "distinct (map key (elems c)) \<Longrightarrow>
   entries key (elems (drop_link (seek k c) c)) = (entries key (elems c))(k := None)"
  by (simp add: elems_drop seek_link entries_unlink)

lemma drop_distinct:
  "distinct (map key (elems c)) \<Longrightarrow> distinct (map key (elems (drop_link i c)))"
  by (simp add: elems_drop distinct_map_unlink)

lemma set_dropped: "set (elems (drop_link i c)) \<subseteq> set (elems c)"
  by (simp add: elems_drop set_unlink_subset)

end

end
