(* ===== verification/Descriptor.thy ===== *)
theory Descriptor
  imports Retrieval Store
begin

text \<open>
  The SQL descriptor areas of an SQL-session
  (\<open>std_2_20_1_description_of_sql_descriptor_areas.c\<close>, except \<open>vsql_m_scan\<close>): they are allocated
  and deallocated by their name, and the components of their items are set and read. DATA has the
  C type that the TYPE of its item gives, and reading it with another type is undefined.
\<close>

section \<open>Pointers\<close>

text \<open>
  A pointer to an SQL descriptor area is the address of its SQL-connection and its position in the
  list, and a pointer to an item is this with the position of the item.
\<close>

type_synonym descriptor_pointer = "nat \<times> nat"
type_synonym item_pointer = "descriptor_pointer \<times> nat"

definition deref_descriptor ::
  "descriptor_pointer \<Rightarrow> 'w state \<Rightarrow> (vsql_m_descriptor \<times> 'w state) option" where
  "deref_descriptor p s = do {
     (k, s) \<leftarrow> deref (fst p) s;
     d \<leftarrow> deref_link (c_descriptors k) (snd p);
     Some (d, s)
   }"

definition set_descriptor ::
  "nat \<Rightarrow> (vsql_m_descriptor \<Rightarrow> vsql_m_descriptor) \<Rightarrow> vsql_m_connection \<Rightarrow> vsql_m_connection"
  where
  "set_descriptor i f k = k\<lparr>c_descriptors := (c_descriptors k)[i := f (c_descriptors k ! i)]\<rparr>"

definition modify_descriptor ::
  "descriptor_pointer \<Rightarrow> (vsql_m_descriptor \<Rightarrow> vsql_m_descriptor) \<Rightarrow> 'w state
    \<Rightarrow> (unit \<times> 'w state) option" where
  "modify_descriptor p f s = do {
     (_, s) \<leftarrow> deref_descriptor p s;
     modify (fst p) (set_descriptor (snd p) f) s
   }"

definition deref_item :: "item_pointer \<Rightarrow> 'w state \<Rightarrow> (vsql_m_item \<times> 'w state) option" where
  "deref_item p s = do {
     (d, s) \<leftarrow> deref_descriptor (fst p) s;
     if snd p < length (d_items d) then Some (d_items d ! snd p, s) else None
   }"

definition set_item ::
  "nat \<Rightarrow> (vsql_m_item \<Rightarrow> vsql_m_item) \<Rightarrow> vsql_m_descriptor \<Rightarrow> vsql_m_descriptor" where
  "set_item j f d = d\<lparr>d_items := (d_items d)[j := f (d_items d ! j)]\<rparr>"

definition modify_item ::
  "item_pointer \<Rightarrow> (vsql_m_item \<Rightarrow> vsql_m_item) \<Rightarrow> 'w state \<Rightarrow> (unit \<times> 'w state) option" where
  "modify_item p f s = do {
     (_, s) \<leftarrow> deref_item p s;
     modify_descriptor (fst p) (set_item (snd p) f) s
   }"

text \<open>A component is a SQLINTEGER.\<close>

definition set_number ::
  "number_component \<Rightarrow> int \<Rightarrow> vsql_m_item \<Rightarrow> vsql_m_item" where
  "set_number n v i = i\<lparr>number := (number i)(n := cast32 v)\<rparr>"

definition set_string ::
  "string_component \<Rightarrow> string option \<Rightarrow> vsql_m_item \<Rightarrow> vsql_m_item" where
  "set_string n v i = i\<lparr>strings := (strings i)(n := v)\<rparr>"

section \<open>Finding an SQL descriptor area\<close>

definition vsql_m_find_descriptor :: "string \<Rightarrow> nat option \<Rightarrow> vsql_m_connection \<Rightarrow> nat" where
  "vsql_m_find_descriptor name module k =
     link (\<lambda>d. \<not> (d_module d \<noteq> module \<or> d_name d \<noteq> name)) (c_descriptors k)"

definition vsql_m_descriptor ::
  "'w cli \<Rightarrow> vsql_m_module \<Rightarrow> string \<Rightarrow> nat option \<Rightarrow> 'w state
    \<Rightarrow> (descriptor_pointer option \<times> 'w state) option" where
  "vsql_m_descriptor L M name module s = do {
     (c, s) \<leftarrow> vsql_m_connection L M s;
     case c of
       None \<Rightarrow> Some (None, s)
     | Some c \<Rightarrow> do {
         (_, s) \<leftarrow> modify c (\<lambda>k. k\<lparr>c_active := True\<rparr>) s;
         (k, s) \<leftarrow> deref c s;
         let i = vsql_m_find_descriptor name module k;
         if deref_link (c_descriptors k) i = None then do {
           (_, s) \<leftarrow> vsql_m_status ''33000'' s;
           Some (None, s)
         } else Some (Some (c, i), s)
       }
   }"

section \<open>Items\<close>

definition vsql_m_matches :: "vsql_m_item \<Rightarrow> int \<Rightarrow> int \<Rightarrow> bool \<Rightarrow> bool" where
  "vsql_m_matches item type len target =
     (let t = number item VSQL_M_TYPE; l = number item VSQL_M_LENGTH in
      if type = SQL_CHAR \<or> type = SQL_VARCHAR then
        if t = SQL_NUMERIC \<or> t = SQL_DECIMAL \<or> t = SQL_DATETIME then True
        else t = type \<and> (l = len \<or> (type = SQL_VARCHAR \<and> target \<and> len \<ge> l))
      else if type = SQL_DOUBLE then t = SQL_DOUBLE \<or> t = SQL_FLOAT
      else t = type)"

definition vsql_m_valid :: "vsql_m_item \<Rightarrow> bool" where
  "vsql_m_valid item =
     (let n = number item; t = n VSQL_M_TYPE in
      if n VSQL_M_LEVEL \<noteq> 0 then False
      else if t = SQL_CHAR \<or> t = SQL_VARCHAR then n VSQL_M_LENGTH \<ge> 1
      else if t = SQL_NUMERIC \<or> t = SQL_DECIMAL
      then n VSQL_M_PRECISION \<ge> 1 \<and> n VSQL_M_SCALE \<ge> 0 \<and> n VSQL_M_SCALE \<le> n VSQL_M_PRECISION
      else if t = SQL_FLOAT then n VSQL_M_PRECISION \<ge> 1
      else if t = SQL_SMALLINT \<or> t = SQL_INTEGER \<or> t = SQL_BIGINT \<or> t = SQL_REAL \<or>
          t = SQL_DOUBLE \<or> t = SQL_BOOLEAN
      then True
      else if t = SQL_DATETIME
      then n VSQL_M_DATETIME_INTERVAL_CODE \<ge> SQL_CODE_DATE \<and>
        n VSQL_M_DATETIME_INTERVAL_CODE \<le> 5 \<and>
        n VSQL_M_PRECISION \<ge> 0 \<and> n VSQL_M_PRECISION \<le> 9
      else False)"

text \<open>
  The loop of \<open>vsql_m_items\<close> over the first \<open>n\<close> items, which is undefined past the end of the
  array of items.
\<close>

fun valid_items :: "nat \<Rightarrow> vsql_m_item list \<Rightarrow> bool option" where
  "valid_items 0 items = Some True"
| "valid_items (Suc n) [] = None"
| "valid_items (Suc n) (i # items) =
     (if vsql_m_valid i then valid_items n items else Some False)"

definition vsql_m_items ::
  "descriptor_pointer \<Rightarrow> int \<Rightarrow> string \<Rightarrow> 'w state \<Rightarrow> (bool \<times> 'w state) option" where
  "vsql_m_items p n code s = do {
     (d, s) \<leftarrow> deref_descriptor p s;
     if d_count d < 0 \<or> d_count d > d_max d then do {
       (_, s) \<leftarrow> vsql_m_status ''07008'' s;
       Some (False, s)
     } else do {
       valid \<leftarrow> valid_items (nat (d_count d)) (d_items d);
       if \<not> valid \<or> d_count d \<noteq> n then do {
         (_, s) \<leftarrow> vsql_m_status code s;
         Some (False, s)
       } else Some (True, s)
     }
   }"

text \<open>The C type and the size of DATA. A \<open>size_t\<close> is 64 bits, and wraps around.\<close>

definition vsql_m_c_type :: "vsql_m_item \<Rightarrow> int \<times> int" where
  "vsql_m_c_type item =
     (let n = number item; t = n VSQL_M_TYPE in
      if t = SQL_SMALLINT then (SQL_SMALLINT, 2)
      else if t = SQL_INTEGER then (SQL_INTEGER, 4)
      else if t = SQL_BIGINT then (SQL_BIGINT, 8)
      else if t = SQL_REAL then (SQL_REAL, 4)
      else if t = SQL_FLOAT \<or> t = SQL_DOUBLE then (SQL_DOUBLE, 8)
      else if t = SQL_CHAR \<or> t = SQL_VARCHAR
      then (SQL_CHAR, (n VSQL_M_LENGTH * 4 + 1) mod 2 ^ 64)
      else if t = SQL_NUMERIC \<or> t = SQL_DECIMAL
      then (SQL_CHAR, (n VSQL_M_PRECISION + 3) mod 2 ^ 64)
      else (SQL_CHAR, 64))"

section \<open>Allocating and deallocating\<close>

definition new_item :: vsql_m_item where
  "new_item = \<lparr>number = \<lambda>_. 0, strings = \<lambda>_. None, data = None, ind_length = 0\<rparr>"

definition new_descriptor :: "string \<Rightarrow> nat option \<Rightarrow> int \<Rightarrow> vsql_m_descriptor" where
  "new_descriptor name module occurrences = \<lparr>d_module = module, d_name = name, d_count = 0,
     d_max = cast32 occurrences, d_top_level_count = 0, d_dynamic_function_code = 0,
     d_dynamic_function = '''', d_items = replicate (nat occurrences) new_item\<rparr>"

text \<open>The two arrays that are allocated, of which the second one only if there is the first.\<close>

definition allocate_both :: "'w state \<Rightarrow> (bool \<times> 'w state) option" where
  "allocate_both s = do {
     (good, s) \<leftarrow> allocate s;
     if good then allocate s else Some (False, s)
   }"

definition vsql_m_allocate_descriptor ::
  "'w cli \<Rightarrow> vsql_m_module \<Rightarrow> string \<Rightarrow> nat option \<Rightarrow> int \<Rightarrow> 'w state
    \<Rightarrow> (unit \<times> 'w state) option" where
  "vsql_m_allocate_descriptor L M name module occurrences s = do {
     (c, s) \<leftarrow> vsql_m_connection L M s;
     case c of
       None \<Rightarrow> Some ((), s)
     | Some c \<Rightarrow> do {
         (_, s) \<leftarrow> modify c (\<lambda>k. k\<lparr>c_active := True\<rparr>) s;
         if occurrences < 1 \<or> occurrences > 32767 then vsql_m_status ''07009'' s
         else do {
           (k, s) \<leftarrow> deref c s;
           if deref_link (c_descriptors k) (vsql_m_find_descriptor name module k) \<noteq> None
           then vsql_m_status ''33000'' s
           else do {
             (good, s) \<leftarrow> allocate_both s;
             if \<not> good then vsql_m_status ''HY001'' s
             else do {
               (_, s) \<leftarrow> modify c
                 (\<lambda>k. k\<lparr>c_descriptors := new_descriptor name module occurrences # c_descriptors k\<rparr>) s;
               vsql_m_status ''00000'' s
             }
           }
         }
       }
   }"

definition vsql_m_deallocate_descriptor ::
  "'w cli \<Rightarrow> vsql_m_module \<Rightarrow> string \<Rightarrow> nat option \<Rightarrow> 'w state \<Rightarrow> (unit \<times> 'w state) option" where
  "vsql_m_deallocate_descriptor L M name module s = do {
     (c, s) \<leftarrow> vsql_m_connection L M s;
     case c of
       None \<Rightarrow> Some ((), s)
     | Some c \<Rightarrow> do {
         (_, s) \<leftarrow> modify c (\<lambda>k. k\<lparr>c_active := True\<rparr>) s;
         (k, s) \<leftarrow> deref c s;
         let i = vsql_m_find_descriptor name module k;
         case deref_link (c_descriptors k) i of
           None \<Rightarrow> vsql_m_status ''33000'' s
         | Some d \<Rightarrow> do {
             (_, s) \<leftarrow> vsql_m_free_descriptor d s;
             (_, s) \<leftarrow> modify c (\<lambda>k. k\<lparr>c_descriptors := unlink i (c_descriptors k)\<rparr>) s;
             vsql_m_status ''00000'' s
           }
       }
   }"

section \<open>Getting the components\<close>

definition vsql_m_get_item ::
  "'w cli \<Rightarrow> vsql_m_module \<Rightarrow> string \<Rightarrow> nat option \<Rightarrow> int \<Rightarrow> int \<Rightarrow> int \<Rightarrow> bool \<Rightarrow> 'w state
    \<Rightarrow> (item_pointer option \<times> 'w state) option" where
  "vsql_m_get_item L M name module n type len ind s = do {
     (p, s) \<leftarrow> vsql_m_descriptor L M name module s;
     case p of
       None \<Rightarrow> Some (None, s)
     | Some p \<Rightarrow> do {
         (d, s) \<leftarrow> deref_descriptor p s;
         if n < 1 \<or> n > d_max d then do {
           (_, s) \<leftarrow> vsql_m_status ''07009'' s;
           Some (None, s)
         } else if n > d_count d then do {
           (_, s) \<leftarrow> vsql_m_status ''02000'' s;
           Some (None, s)
         } else if type = 0 then Some (Some (p, nat (n - 1)), s)
         else do {
           (i, s) \<leftarrow> deref_item (p, nat (n - 1)) s;
           if \<not> vsql_m_matches i type len True then do {
             (_, s) \<leftarrow> vsql_m_status ''22005'' s;
             Some (None, s)
           } else if number i VSQL_M_INDICATOR < 0 \<and> \<not> ind then do {
             (_, s) \<leftarrow> vsql_m_status ''22002'' s;
             Some (None, s)
           } else Some (Some (p, nat (n - 1)), s)
         }
       }
   }"

text \<open>
  The value that is assigned to the target, which has \<open>(len + 1) * 4\<close> bytes when it's a string,
  and whether it was truncated. Nothing is assigned when it's null or undefined.
\<close>

definition vsql_m_get_data ::
  "vsql_m_item \<Rightarrow> int \<Rightarrow> nat \<Rightarrow> (cval option \<times> bool) option" where
  "vsql_m_get_data item type len = (case data item of
     None \<Rightarrow> Some (None, False)
   | Some v \<Rightarrow>
       if number item VSQL_M_INDICATOR < 0 then Some (None, False)
       else if type = SQL_SMALLINT
       then (case v of CShort n \<Rightarrow> Some (Some (CShort n), False) | _ \<Rightarrow> None)
       else if type = SQL_INTEGER
       then (case v of CInt n \<Rightarrow> Some (Some (CLong n), False) | _ \<Rightarrow> None)
       else if type = SQL_BIGINT
       then (case v of CBigint n \<Rightarrow> Some (Some (CBigint n), False) | _ \<Rightarrow> None)
       else if type = SQL_REAL
       then (case v of CReal x \<Rightarrow> Some (Some (CReal x), False) | _ \<Rightarrow> None)
       else if type = SQL_DOUBLE
       then (case v of CDouble x \<Rightarrow> Some (Some (CDouble x), False) | _ \<Rightarrow> None)
       else if type = SQL_BOOLEAN
       then (case v of CText x \<Rightarrow> Some (Some (CLong (if x = ''TRUE'' then 1 else 0)), False)
         | _ \<Rightarrow> None)
       else (case v of
           CText x \<Rightarrow> do {
             (put, truncated) \<leftarrow> vsql_m_put ((len + 1) * 4) len x;
             Some (Some (CText put), truncated)
           }
         | _ \<Rightarrow> None))"

section \<open>Setting the components\<close>

definition vsql_m_set_count ::
  "'w cli \<Rightarrow> vsql_m_module \<Rightarrow> string \<Rightarrow> nat option \<Rightarrow> int \<Rightarrow> 'w state \<Rightarrow> (unit \<times> 'w state) option"
  where
  "vsql_m_set_count L M name module value s = do {
     (p, s) \<leftarrow> vsql_m_descriptor L M name module s;
     case p of
       None \<Rightarrow> Some ((), s)
     | Some p \<Rightarrow>
         if value \<noteq> cast32 value then vsql_m_status ''22003'' s
         else do {
           (_, s) \<leftarrow> modify_descriptor p (\<lambda>d. d\<lparr>d_count := cast32 value\<rparr>) s;
           vsql_m_status ''00000'' s
         }
   }"

definition vsql_m_set_item ::
  "'w cli \<Rightarrow> vsql_m_module \<Rightarrow> string \<Rightarrow> nat option \<Rightarrow> int \<Rightarrow> 'w state
    \<Rightarrow> (item_pointer option \<times> 'w state) option" where
  "vsql_m_set_item L M name module n s = do {
     (p, s) \<leftarrow> vsql_m_descriptor L M name module s;
     case p of
       None \<Rightarrow> Some (None, s)
     | Some p \<Rightarrow> do {
         (d, s) \<leftarrow> deref_descriptor p s;
         if n < 1 \<or> n > d_max d then do {
           (_, s) \<leftarrow> vsql_m_status ''07009'' s;
           Some (None, s)
         } else Some (Some (p, nat (n - 1)), s)
       }
   }"

text \<open>The case of \<open>vsql_m_set_number\<close> for TYPE.\<close>

definition vsql_m_set_type :: "item_pointer \<Rightarrow> int \<Rightarrow> 'w state \<Rightarrow> (unit \<times> 'w state) option" where
  "vsql_m_set_type p value s = do {
     (i, s) \<leftarrow> deref_item p s;
     let level = number i VSQL_M_LEVEL;
     (_, s) \<leftarrow> modify_item p vsql_m_reset_item s;
     (_, s) \<leftarrow> modify_item p (set_number VSQL_M_LEVEL level) s;
     if value = SQL_CHAR \<or> value = SQL_VARCHAR then do {
       (_, s) \<leftarrow> modify_item p (set_number VSQL_M_LENGTH 1) s;
       (v, s) \<leftarrow> vsql_m_copy ''INFORMATION_SCHEMA'' s;
       (_, s) \<leftarrow> modify_item p (set_string VSQL_M_CHARACTER_SET_SCHEMA v) s;
       (v, s) \<leftarrow> vsql_m_copy ''UTF8'' s;
       modify_item p (set_string VSQL_M_CHARACTER_SET_NAME v) s
     } else if value = SQL_NUMERIC \<or> value = SQL_DECIMAL
     then modify_item p (set_number VSQL_M_PRECISION 18) s
     else if value = SQL_FLOAT then modify_item p (set_number VSQL_M_PRECISION 53) s
     else Some ((), s)
   }"

text \<open>The switch of \<open>vsql_m_set_number\<close>, before the component is set.\<close>

definition vsql_m_set_component ::
  "item_pointer \<Rightarrow> number_component \<Rightarrow> int \<Rightarrow> 'w state \<Rightarrow> (bool \<times> 'w state) option" where
  "vsql_m_set_component p component value s =
     (if component = VSQL_M_LEVEL then
        if value \<noteq> 0 then do {
          (_, s) \<leftarrow> vsql_m_status ''0700E'' s;
          Some (False, s)
        } else Some (True, s)
      else if component = VSQL_M_TYPE then do {
        (_, s) \<leftarrow> vsql_m_set_type p value s;
        Some (True, s)
      } else if component = VSQL_M_DATETIME_INTERVAL_CODE then do {
        (i, s) \<leftarrow> deref_item p s;
        if number i VSQL_M_TYPE \<noteq> SQL_DATETIME \<or> value < SQL_CODE_DATE \<or> value > 5 then do {
          (_, s) \<leftarrow> vsql_m_status ''0700F'' s;
          Some (False, s)
        } else do {
          (_, s) \<leftarrow> modify_item p
            (set_number VSQL_M_PRECISION (if value = 3 \<or> value = 5 then 6 else 0)) s;
          Some (True, s)
        }
      } else Some (True, s))"

definition vsql_m_set_number ::
  "item_pointer \<Rightarrow> number_component \<Rightarrow> int \<Rightarrow> 'w state \<Rightarrow> (bool \<times> 'w state) option" where
  "vsql_m_set_number p component value s = do {
     (_, s) \<leftarrow> modify_item p (\<lambda>i. i\<lparr>data := None\<rparr>) s;
     if value \<noteq> cast32 value then do {
       (_, s) \<leftarrow> vsql_m_status ''22003'' s;
       Some (False, s)
     } else do {
       (good, s) \<leftarrow> vsql_m_set_component p component value s;
       if \<not> good then Some (False, s)
       else do {
         (_, s) \<leftarrow> modify_item p (set_number component (cast32 value)) s;
         Some (True, s)
       }
     }
   }"

definition vsql_m_set_string ::
  "item_pointer \<Rightarrow> string_component \<Rightarrow> string \<Rightarrow> 'w state \<Rightarrow> (bool \<times> 'w state) option" where
  "vsql_m_set_string p component value s = do {
     (_, s) \<leftarrow> modify_item p (\<lambda>i. i\<lparr>data := None\<rparr>) s;
     (v, s) \<leftarrow> vsql_m_copy value s;
     (_, s) \<leftarrow> modify_item p (set_string component v) s;
     Some (True, s)
   }"

text \<open>
  What is copied to DATA (a value of the type \<open>type\<close>), or the SQLSTATE of an exception. It's
  undefined when the host parameter doesn't have the type.
\<close>

definition data_of :: "int \<Rightarrow> cval \<Rightarrow> (string + cval) option" where
  "data_of type v =
     (if type = SQL_BOOLEAN
      then (case v of
          CLong n \<Rightarrow> Some (Inr (CText (if n \<noteq> 0 then ''TRUE'' else ''FALSE'')))
        | _ \<Rightarrow> None)
      else if type = SQL_SMALLINT then (case v of CShort _ \<Rightarrow> Some (Inr v) | _ \<Rightarrow> None)
      else if type = SQL_INTEGER
      then (case v of
          CLong n \<Rightarrow> if n \<noteq> cast32 n then Some (Inl ''22003'') else Some (Inr (CInt (cast32 n)))
        | _ \<Rightarrow> None)
      else if type = SQL_BIGINT then (case v of CBigint _ \<Rightarrow> Some (Inr v) | _ \<Rightarrow> None)
      else if type = SQL_REAL then (case v of CReal _ \<Rightarrow> Some (Inr v) | _ \<Rightarrow> None)
      else if type = SQL_DOUBLE then (case v of CDouble _ \<Rightarrow> Some (Inr v) | _ \<Rightarrow> None)
      else (case v of CText x \<Rightarrow> Some (Inr (CText (cstr x))) | _ \<Rightarrow> None))"

definition vsql_m_set_data ::
  "item_pointer \<Rightarrow> int \<Rightarrow> int \<Rightarrow> cval \<Rightarrow> 'w state \<Rightarrow> (bool \<times> 'w state) option" where
  "vsql_m_set_data p type len v s = do {
     (i, s) \<leftarrow> deref_item p s;
     if \<not> vsql_m_matches i type len False then do {
       (_, s) \<leftarrow> vsql_m_status ''22005'' s;
       Some (False, s)
     } else do {
       x \<leftarrow> data_of type v;
       case x of
         Inl state \<Rightarrow> do {
           (_, s) \<leftarrow> vsql_m_status state s;
           Some (False, s)
         }
       | Inr x \<Rightarrow> do {
           (good, s) \<leftarrow> allocate s;
           if \<not> good then do {
             (_, s) \<leftarrow> modify_item p (\<lambda>i. i\<lparr>data := None\<rparr>) s;
             (_, s) \<leftarrow> vsql_m_status ''HY001'' s;
             Some (False, s)
           } else do {
             (_, s) \<leftarrow> modify_item p (\<lambda>i. i\<lparr>data := Some x\<rparr>) s;
             Some (True, s)
           }
         }
     }
   }"

section \<open>Pointers that are valid\<close>

definition descriptor_at :: "descriptor_pointer \<Rightarrow> vsql_m_agent \<Rightarrow> bool" where
  "descriptor_at p a \<longleftrightarrow> live (fst p) a \<and> snd p < length (c_descriptors (lookup (fst p) a))"

definition the_descriptor :: "descriptor_pointer \<Rightarrow> vsql_m_agent \<Rightarrow> vsql_m_descriptor" where
  "the_descriptor p a = c_descriptors (lookup (fst p) a) ! snd p"

definition item_at :: "item_pointer \<Rightarrow> vsql_m_agent \<Rightarrow> bool" where
  "item_at p a \<longleftrightarrow> descriptor_at (fst p) a \<and> snd p < length (d_items (the_descriptor (fst p) a))"

definition the_item :: "item_pointer \<Rightarrow> vsql_m_agent \<Rightarrow> vsql_m_item" where
  "the_item p a = d_items (the_descriptor (fst p) a) ! snd p"

lemma deref_descriptor_eq:
  "descriptor_at p (agent s) \<Longrightarrow> deref_descriptor p s = Some (the_descriptor p (agent s), s)"
  by (simp add: deref_descriptor_def descriptor_at_def the_descriptor_def deref_live deref_link_def)

lemma deref_item_eq: "item_at p (agent s) \<Longrightarrow> deref_item p s = Some (the_item p (agent s), s)"
  by (simp add: deref_item_def item_at_def the_item_def deref_descriptor_eq)

lemma deref_descriptor_ok:
  "descriptor_at p (agent s) \<Longrightarrow> Q (the_descriptor p (agent s)) s \<Longrightarrow> ok (deref_descriptor p s) Q"
  by (simp add: deref_descriptor_eq)

lemma deref_item_ok: "item_at p (agent s) \<Longrightarrow> Q (the_item p (agent s)) s \<Longrightarrow> ok (deref_item p s) Q"
  by (simp add: deref_item_eq)

lemma set_descriptor_simps [simp]:
  "c_address (set_descriptor i f k) = c_address k" "c_name (set_descriptor i f k) = c_name k"
  "c_is_default (set_descriptor i f k) = c_is_default k"
  "c_dbc (set_descriptor i f k) = c_dbc k" "c_active (set_descriptor i f k) = c_active k"
  "c_cursors (set_descriptor i f k) = c_cursors k"
  "c_prepared (set_descriptor i f k) = c_prepared k"
  "held_connection (set_descriptor i f k) = held_connection k"
  by (simp_all add: set_descriptor_def held_connection_def)

lemma wf_set_descriptor:
  assumes "wf_connection cc k" "i < length (c_descriptors k)"
    and "d_key (f (c_descriptors k ! i)) = d_key (c_descriptors k ! i)"
    and "wf_descriptor (c_descriptors k ! i) \<Longrightarrow> wf_descriptor (f (c_descriptors k ! i))"
  shows "wf_connection cc (set_descriptor i f k)"
proof -
  have "map d_key (c_descriptors (set_descriptor i f k)) = map d_key (c_descriptors k)"
    using assms(2,3) by (simp add: set_descriptor_def map_update list_update_same_conv)
  moreover have "\<forall>d\<in>set (c_descriptors (set_descriptor i f k)). wf_descriptor d"
    using assms(1,2,4) by (auto simp: set_descriptor_def wf_connection_def dest!: set_update_subset_insert [THEN subsetD])
  ultimately show ?thesis
    using assms(1) unfolding wf_connection_def by simp
qed

lemma wf_the_descriptor: "invar J cc X s \<Longrightarrow> descriptor_at p (agent s) \<Longrightarrow> wf_descriptor (the_descriptor p (agent s))"
  using invar_lookup [of J cc X s "fst p"]
  by (simp add: descriptor_at_def the_descriptor_def wf_connection_def)

lemma wf_the_item: "invar J cc X s \<Longrightarrow> item_at p (agent s) \<Longrightarrow> wf_item (the_item p (agent s))"
  using wf_the_descriptor [of J cc X s "fst p"]
  by (simp add: item_at_def the_item_def wf_descriptor_def)

lemma item_in_descriptor:
  assumes "invar J cc X s" "descriptor_at p (agent s)"
    and "\<not> n < 1" "\<not> d_max (the_descriptor p (agent s)) < n"
  shows "item_at (p, nat (n - 1)) (agent s)"
  using wf_the_descriptor [OF assms(1,2)] assms(2-4)
  by (simp add: item_at_def wf_descriptor_def)

lemma descriptor_at_update:
  "descriptor_at p a \<Longrightarrow> descriptor_at p (update c (\<lambda>k. k\<lparr>c_active := b\<rparr>) a)"
  by (auto simp: descriptor_at_def live_update lookup_update)

lemma modify_descriptor_invar:
  assumes s: "invar J cc X s" "settled (agent s)" and p: "descriptor_at p (agent s)"
    and f: "d_key (f (the_descriptor p (agent s))) = d_key (the_descriptor p (agent s))"
      "wf_descriptor (the_descriptor p (agent s)) \<Longrightarrow> wf_descriptor (f (the_descriptor p (agent s)))"
    and Q: "\<And>s'. invar J cc X s' \<Longrightarrow> settled (agent s') \<Longrightarrow> descriptor_at p (agent s') \<Longrightarrow>
      the_descriptor p (agent s') = f (the_descriptor p (agent s)) \<Longrightarrow>
      same_session (fst p) (agent s) (agent s') \<Longrightarrow>
      da s' = da s \<Longrightarrow> sqlstate s' = sqlstate s \<Longrightarrow> Q () s'"
  shows "ok (modify_descriptor p f s) Q"
proof -
  have live: "live (fst p) (agent s)" and i: "snd p < length (c_descriptors (lookup (fst p) (agent s)))"
    using p by (simp_all add: descriptor_at_def)
  show ?thesis
    unfolding modify_descriptor_def
  proof (simp add: deref_descriptor_eq [OF p], rule modify_invar [OF s(1) live, where X' = X])
    show "wf_connection cc (set_descriptor (snd p) f (lookup (fst p) (agent s)))"
      if "wf_connection cc (lookup (fst p) (agent s))"
      using wf_set_descriptor [OF that i] f by (simp add: the_descriptor_def)
    fix s' :: "'a state"
    assume s': "invar J cc X s'" "agent s' = update (fst p) (set_descriptor (snd p) f) (agent s)"
      "da s' = da s" "sqlstate s' = sqlstate s"
    have "held (agent s') = held (agent s)"
      using held_update [OF invar_wf_agent [OF s(1)] live, of "set_descriptor (snd p) f" "{#}" "{#}"] s'(2)
      by simp
    then show "Q () s'"
      using s' live i s(2)
      by (intro Q) (simp_all add: settled_update descriptor_at_def live_update lookup_update
          the_descriptor_def, simp_all add: set_descriptor_def)
  qed simp_all
qed

lemma modify_item_invar:
  assumes s: "invar J cc X s" "settled (agent s)" and p: "item_at p (agent s)"
    and f: "wf_item (the_item p (agent s)) \<Longrightarrow> wf_item (f (the_item p (agent s)))"
    and Q: "\<And>s'. invar J cc X s' \<Longrightarrow> settled (agent s') \<Longrightarrow> item_at p (agent s') \<Longrightarrow>
      the_item p (agent s') = f (the_item p (agent s)) \<Longrightarrow>
      d_max (the_descriptor (fst p) (agent s')) = d_max (the_descriptor (fst p) (agent s)) \<Longrightarrow>
      same_session (fst (fst p)) (agent s) (agent s') \<Longrightarrow>
      da s' = da s \<Longrightarrow> sqlstate s' = sqlstate s \<Longrightarrow> Q () s'"
  shows "ok (modify_item p f s) Q"
proof -
  have d: "descriptor_at (fst p) (agent s)"
    and j: "snd p < length (d_items (the_descriptor (fst p) (agent s)))"
    using p by (simp_all add: item_at_def)
  show ?thesis
    unfolding modify_item_def
  proof (simp add: deref_item_eq [OF p], rule modify_descriptor_invar [OF s d])
    show "wf_descriptor (set_item (snd p) f (the_descriptor (fst p) (agent s)))"
      if "wf_descriptor (the_descriptor (fst p) (agent s))"
      using that f j by (auto simp: wf_descriptor_def set_item_def the_item_def
          dest!: set_update_subset_insert [THEN subsetD])
    fix s' :: "'a state"
    assume s': "invar J cc X s'" "settled (agent s')" "descriptor_at (fst p) (agent s')"
      "the_descriptor (fst p) (agent s') = set_item (snd p) f (the_descriptor (fst p) (agent s))"
      "same_session (fst (fst p)) (agent s) (agent s')"
      "da s' = da s" "sqlstate s' = sqlstate s"
    show "Q () s'"
      using s' j by (intro Q) (simp_all add: item_at_def the_item_def, simp_all add: set_item_def)
  qed (simp add: d_key_def set_item_def)
qed

section \<open>Rules\<close>

lemma find_descriptor_some:
  "live c a \<Longrightarrow> deref_link (c_descriptors (lookup c a)) i \<noteq> None \<Longrightarrow> descriptor_at (c, i) a"
  by (simp add: descriptor_at_def deref_link_def split: if_splits)

text \<open>The SQL descriptor areas of an SQL-session are a store, whose keys are the names.\<close>

definition push_descriptor :: "vsql_m_descriptor \<Rightarrow> vsql_m_connection \<Rightarrow> vsql_m_connection" where
  [simp]: "push_descriptor d k = k\<lparr>c_descriptors := d # c_descriptors k\<rparr>"

definition drop_descriptor :: "nat \<Rightarrow> vsql_m_connection \<Rightarrow> vsql_m_connection" where
  [simp]: "drop_descriptor i k = k\<lparr>c_descriptors := unlink i (c_descriptors k)\<rparr>"

interpretation descriptors: store c_descriptors d_key
  "\<lambda>(name, module). vsql_m_find_descriptor name module" push_descriptor drop_descriptor
  by unfold_locales
    (auto simp: vsql_m_find_descriptor_def d_key_def intro!: arg_cong2 [where f = link])

lemma find_descriptor_none:
  assumes "deref_link (c_descriptors k) (vsql_m_find_descriptor name module k) = None"
  shows "(name, module) \<notin> d_key ` set (c_descriptors k)"
  using descriptors.not_found [of k "(name, module)"] assms by simp

lemma wf_new_item: "wf_item new_item"
  by (simp add: wf_item_def new_item_def)

lemma wf_new_descriptor:
  "\<not> occurrences < 1 \<Longrightarrow> \<not> 32767 < occurrences \<Longrightarrow>
   wf_descriptor (new_descriptor name module occurrences) \<and>
   d_key (new_descriptor name module occurrences) = (name, module)"
  by (auto simp: wf_descriptor_def new_descriptor_def cast32_id d_key_def wf_new_item)

lemma wf_item_data: "wf_item (i\<lparr>data := None\<rparr>)" if "wf_item i"
  using that by (simp add: wf_item_def)

text \<open>The codes of the data types that a host parameter can have (\<open>c_code\<close> of its generator).\<close>

definition host_types :: "int list" where
  "host_types = [SQL_CHAR, SQL_VARCHAR, SQL_SMALLINT, SQL_INTEGER, SQL_BIGINT, SQL_REAL,
     SQL_DOUBLE, SQL_BOOLEAN]"

lemma data_of_type:
  "type \<in> set host_types \<Longrightarrow> data_of type v = Some (Inr x) \<Longrightarrow> vsql_m_matches i type len False \<Longrightarrow>
   has_c_type (item_c_type (number i VSQL_M_TYPE)) x"
  by (auto simp: host_types_def data_of_def vsql_m_matches_def item_c_type_def has_c_type_def codes Let_def
      split: if_splits cval.splits)

lemma wf_set_number:
  "wf_item i \<Longrightarrow> data i = None \<Longrightarrow> n = VSQL_M_LEVEL \<longrightarrow> cast32 v = 0 \<Longrightarrow> wf_item (set_number n v i)"
  by (auto simp: wf_item_def set_number_def)

lemma wf_set_string: "wf_item i \<Longrightarrow> wf_item (set_string n v i)"
  by (simp add: wf_item_def set_string_def)

lemma wf_reset_item: "wf_item (vsql_m_reset_item i)"
  by (simp add: wf_item_def vsql_m_reset_item_def)

text \<open>An item without DATA, whose numbers can be set.\<close>

definition unset_item :: "vsql_m_item \<Rightarrow> bool" where
  "unset_item i \<longleftrightarrow> wf_item i \<and> data i = None"

lemma unset_item_simps [simp]:
  "unset_item (vsql_m_reset_item i)"
  "unset_item i \<Longrightarrow> n \<noteq> VSQL_M_LEVEL \<or> v = 0 \<Longrightarrow> unset_item (set_number n v i)"
  "unset_item i \<Longrightarrow> unset_item (set_string m x i)"
  by (auto simp: unset_item_def wf_set_number wf_set_string wf_reset_item)
    (simp_all add: vsql_m_reset_item_def set_number_def set_string_def)

lemma modify_unset:
  assumes "invar J cc X s" "settled (agent s)" "item_at p (agent s)" "unset_item (f (the_item p (agent s)))"
    and "\<And>s'. invar J cc X s' \<Longrightarrow> settled (agent s') \<Longrightarrow> item_at p (agent s') \<Longrightarrow>
      unset_item (the_item p (agent s')) \<Longrightarrow> da s' = da s \<Longrightarrow> sqlstate s' = sqlstate s \<Longrightarrow> Q () s'"
  shows "ok (modify_item p f s) Q"
  using assms(4)
  by (intro modify_item_invar [OF assms(1-3)]) (auto intro!: assms(5) simp: unset_item_def)

context runtime
begin

lemma vsql_m_descriptor_ok [wp]:
  assumes "invar J cursor_count X s" "settled (agent s)"
    and "\<And>s'. invar J cursor_count X s' \<Longrightarrow> settled (agent s') \<Longrightarrow> length (sqlstate s') = 5 \<Longrightarrow>
      Q None s'"
    and "\<And>p s'. invar J cursor_count X s' \<Longrightarrow> settled (agent s') \<Longrightarrow> descriptor_at p (agent s') \<Longrightarrow>
      current (agent s') = Some (fst p) \<Longrightarrow> Q (Some p) s'"
  shows "ok (vsql_m_descriptor L M name module s) Q"
  unfolding vsql_m_descriptor_def Let_def using assms(1,2)
  by - ((erule wp | rule deref_ok conjI impI keep_active find_descriptor_some | assumption
    | clarsimp simp: live_update | (rule assms(3) assms(4); simp add: find_descriptor_some live_update))[1])+

text \<open>The SQL-session is the same when there is a current SQL-connection.\<close>

lemma vsql_m_descriptor_same:
  assumes s: "invar J cursor_count X s" "settled (agent s)" "current (agent s) = Some c"
    and bad: "\<And>s'. invar J cursor_count X s' \<Longrightarrow> settled (agent s') \<Longrightarrow>
      same_session c (agent s) (agent s') \<Longrightarrow> length (sqlstate s') = 5 \<Longrightarrow> Q None s'"
    and good: "\<And>i s'. invar J cursor_count X s' \<Longrightarrow> settled (agent s') \<Longrightarrow>
      same_session c (agent s) (agent s') \<Longrightarrow> descriptor_at (c, i) (agent s') \<Longrightarrow> Q (Some (c, i)) s'"
  shows "ok (vsql_m_descriptor L M name module s) Q"
proof -
  have active: "ok (modify c (\<lambda>k. k\<lparr>c_active := True\<rparr>) t) R"
    if t: "invar J cursor_count X t" "settled (agent t)" "live c (agent t)"
      "\<And>s'. invar J cursor_count X s' \<Longrightarrow> settled (agent s') \<Longrightarrow>
        same_session c (agent t) (agent s') \<Longrightarrow> R () s'" for t R
  proof (rule keep_active [OF t(1-3)])
    fix s' :: "'w state"
    assume s': "invar J cursor_count X s'" "settled (agent s')"
      "agent s' = update c (\<lambda>k. k\<lparr>c_active := True\<rparr>) (agent t)"
    have "held (agent s') = held (agent t)"
      using held_update [OF invar_wf_agent [OF t(1)] t(3), of "\<lambda>k. k\<lparr>c_active := True\<rparr>" "{#}" "{#}"] s'(3)
      by (simp add: held_connection_def)
    then show "R () s'"
      using s' t(3) by (intro t(4)) (simp_all add: live_update lookup_update)
  qed
  show ?thesis
    unfolding vsql_m_descriptor_def Let_def using s
    by - ((erule vsql_m_connection_same wp active | rule deref_ok conjI impI | assumption
      | clarsimp | (rule bad; simp) | (rule good; simp add: find_descriptor_some))[1])+
qed

lemma vsql_m_allocate_descriptor_ok [wp]:
  assumes "invar J cursor_count X s" "settled (agent s)"
    and Q: "\<And>s'. invar J cursor_count X s' \<Longrightarrow> settled (agent s') \<Longrightarrow> length (sqlstate s') = 5 \<Longrightarrow> Q () s'"
  shows "ok (vsql_m_allocate_descriptor L M name module occurrences s) Q"
proof -
  have add: "ok (modify c (\<lambda>k. k\<lparr>c_descriptors := new_descriptor name module occurrences # c_descriptors k\<rparr>) t) R"
    if "invar J cursor_count X t" "settled (agent t)" "live c (agent t)"
      "deref_link (c_descriptors (lookup c (agent t)))
        (vsql_m_find_descriptor name module (lookup c (agent t))) = None"
      "\<not> occurrences < 1" "\<not> 32767 < occurrences"
      "\<And>s'. invar J cursor_count X s' \<Longrightarrow> settled (agent s') \<Longrightarrow> R () s'" for t c R
    using that wf_new_descriptor [OF that(5,6), of name module] find_descriptor_none [OF that(4)]
    by (intro modify_invar [OF that(1,3), where X' = X])
      (auto intro!: that(7) simp: settled_update wf_connection_def held_connection_def)
  show ?thesis
    unfolding vsql_m_allocate_descriptor_def allocate_both_def using assms(1,2)
    by - ((erule wp | rule deref_ok conjI impI keep_active | assumption
      | erule add | clarsimp simp: live_update | (rule Q; simp))[1])+
qed

lemma vsql_m_deallocate_descriptor_ok [wp]:
  assumes "invar J cursor_count X s" "settled (agent s)"
    and Q: "\<And>s'. invar J cursor_count X s' \<Longrightarrow> settled (agent s') \<Longrightarrow> length (sqlstate s') = 5 \<Longrightarrow> Q () s'"
  shows "ok (vsql_m_deallocate_descriptor L M name module s) Q"
proof -
  have remove: "ok (modify c (\<lambda>k. k\<lparr>c_descriptors := unlink i (c_descriptors k)\<rparr>) t) R"
    if "invar J cursor_count X t" "settled (agent t)" "live c (agent t)"
      "\<And>s'. invar J cursor_count X s' \<Longrightarrow> settled (agent s') \<Longrightarrow> R () s'" for t c i R
    using that
    by (intro modify_invar [OF that(1,3), where X' = X])
      (auto intro!: that(4) distinct_map_unlink simp: settled_update wf_connection_def held_connection_def
        dest: set_unlink_subset [THEN subsetD])
  have free: "ok (vsql_m_free_descriptor d t) R"
    if "invar J cursor_count X t" "live c (agent t)"
      "deref_link (c_descriptors (lookup c (agent t))) i = Some d" "R () t" for t c i d R
  proof -
    have "d \<in> set (c_descriptors (lookup c (agent t)))"
      using that(3) by (auto simp: deref_link_def split: if_splits)
    then have "wf_descriptor d" using invar_lookup [OF that(1,2)] by (simp add: wf_connection_def)
    then show ?thesis using that(4) by (simp add: vsql_m_free_descriptor_def wf_descriptor_def)
  qed
  show ?thesis
    unfolding vsql_m_deallocate_descriptor_def Let_def using assms(1,2)
    by - ((erule wp | rule deref_ok conjI impI keep_active | assumption
      | (rule free; assumption?) | erule remove
      | clarsimp simp: live_update | (rule Q; simp))[1])+
qed

lemma vsql_m_items_ok [wp]:
  assumes "invar J cursor_count X s" "settled (agent s)" "descriptor_at p (agent s)" "length code = 5"
    and Q: "\<And>s'. invar J cursor_count X s' \<Longrightarrow> agent s' = agent s \<Longrightarrow> length (sqlstate s') = 5 \<Longrightarrow>
      Q False s'"
    and "d_count (the_descriptor p (agent s)) = n \<Longrightarrow> 0 \<le> n \<Longrightarrow>
      valid_items (nat n) (d_items (the_descriptor p (agent s))) = Some True \<Longrightarrow> Q True s"
  shows "ok (vsql_m_items p n code s) Q"
proof -
  let ?d = "the_descriptor p (agent s)"
  have items: "\<exists>b. valid_items k is = Some b" if "k \<le> length is" for k "is"
    using that by (induction k "is" rule: valid_items.induct) auto
  have "\<exists>b. valid_items (nat (d_count ?d)) (d_items ?d) = Some b"
    if "\<not> d_count ?d < 0" "\<not> d_max ?d < d_count ?d"
    using wf_the_descriptor [OF assms(1,3)] that by (intro items) (simp add: wf_descriptor_def)
  then show ?thesis
    unfolding vsql_m_items_def using assms(4)
    by (auto intro!: deref_descriptor_ok assms(3,6) vsql_m_status_ok [OF assms(1)] Q
        simp: not_less)
qed

lemma vsql_m_get_item_ok [wp]:
  assumes "invar J cursor_count X s" "settled (agent s)"
    and "\<And>s'. invar J cursor_count X s' \<Longrightarrow> settled (agent s') \<Longrightarrow> length (sqlstate s') = 5 \<Longrightarrow>
      Q None s'"
    and "\<And>p s'. invar J cursor_count X s' \<Longrightarrow> settled (agent s') \<Longrightarrow> item_at p (agent s') \<Longrightarrow>
      (type \<noteq> 0 \<longrightarrow> vsql_m_matches (the_item p (agent s')) type len True) \<Longrightarrow> Q (Some p) s'"
  shows "ok (vsql_m_get_item L M name module n type len ind s) Q"
  unfolding vsql_m_get_item_def using assms(1,2)
  by - ((erule wp | rule deref_descriptor_ok deref_item_ok conjI impI | assumption
    | (erule item_in_descriptor; assumption) | clarsimp
    | (rule assms(3); simp) | (rule assms(4); (assumption | erule item_in_descriptor | simp)+))[1])+

lemma vsql_m_set_count_ok [wp]:
  assumes "invar J cursor_count X s" "settled (agent s)"
    and "\<And>s'. invar J cursor_count X s' \<Longrightarrow> settled (agent s') \<Longrightarrow> length (sqlstate s') = 5 \<Longrightarrow> Q () s'"
  shows "ok (vsql_m_set_count L M name module value s) Q"
proof -
  have set: "ok (modify_descriptor p (\<lambda>d. d\<lparr>d_count := v\<rparr>) t) R"
    if "invar J cursor_count X t" "settled (agent t)" "descriptor_at p (agent t)"
      "\<And>s'. invar J cursor_count X s' \<Longrightarrow> settled (agent s') \<Longrightarrow> R () s'" for p v t R
    using that by (intro modify_descriptor_invar [OF that(1-3)])
      (simp_all add: d_key_def wf_descriptor_def)
  show ?thesis
    unfolding vsql_m_set_count_def using assms(1,2)
    by - ((erule wp set | rule conjI impI | clarsimp | (rule assms(3); simp))[1])+
qed

lemma vsql_m_set_item_ok [wp]:
  assumes "invar J cursor_count X s" "settled (agent s)"
    and "\<And>s'. invar J cursor_count X s' \<Longrightarrow> settled (agent s') \<Longrightarrow> length (sqlstate s') = 5 \<Longrightarrow>
      Q None s'"
    and "\<And>p s'. invar J cursor_count X s' \<Longrightarrow> settled (agent s') \<Longrightarrow> item_at p (agent s') \<Longrightarrow>
      Q (Some p) s'"
  shows "ok (vsql_m_set_item L M name module n s) Q"
  unfolding vsql_m_set_item_def using assms(1,2)
  by - ((erule wp | rule deref_descriptor_ok conjI impI | assumption | clarsimp
    | (rule assms(3); simp) | (rule assms(4); (assumption | erule item_in_descriptor | simp)+))[1])+

lemma vsql_m_set_type_ok [wp]:
  assumes "invar J cursor_count X s" "settled (agent s)" "item_at p (agent s)"
    and Q: "\<And>s'. invar J cursor_count X s' \<Longrightarrow> settled (agent s') \<Longrightarrow> item_at p (agent s') \<Longrightarrow>
      data (the_item p (agent s')) = None \<Longrightarrow> number (the_item p (agent s')) VSQL_M_LEVEL = 0 \<Longrightarrow>
      da s' = da s \<Longrightarrow> sqlstate s' = sqlstate s \<Longrightarrow> Q () s'"
  shows "ok (vsql_m_set_type p value s) Q"
proof -
  have level: "number (the_item p (agent s)) VSQL_M_LEVEL = 0"
    using wf_the_item [OF assms(1,3)] by (simp add: wf_item_def)
  have finished: "Q () t"
    if "invar J cursor_count X t" "settled (agent t)" "item_at p (agent t)" "unset_item (the_item p (agent t))"
      "da t = da s" "sqlstate t = sqlstate s" for t
    using that by (intro Q) (simp_all add: unset_item_def wf_item_def)
  show ?thesis
    unfolding vsql_m_set_type_def Let_def using assms(1-3) level
    by - ((erule wp modify_unset | rule deref_item_ok conjI impI | assumption
      | (rule finished; simp) | (simp; fail) | clarsimp)[1])+
qed

lemma item_at_agent: "item_at p (agent s) \<Longrightarrow> agent s' = agent s \<Longrightarrow> item_at p (agent s')"
  by simp

lemma vsql_m_set_component_ok [wp]:
  assumes "invar J cursor_count X s" "settled (agent s)" "item_at p (agent s)"
    and none: "data (the_item p (agent s)) = None"
    and Q: "\<And>s'. invar J cursor_count X s' \<Longrightarrow> settled (agent s') \<Longrightarrow> item_at p (agent s') \<Longrightarrow>
      data (the_item p (agent s')) = None \<Longrightarrow> length (sqlstate s') = 5 \<Longrightarrow> Q False s'"
    and R: "\<And>s'. invar J cursor_count X s' \<Longrightarrow> settled (agent s') \<Longrightarrow> item_at p (agent s') \<Longrightarrow>
      data (the_item p (agent s')) = None \<Longrightarrow> (component = VSQL_M_LEVEL \<longrightarrow> value = 0) \<Longrightarrow>
      da s' = da s \<Longrightarrow> sqlstate s' = sqlstate s \<Longrightarrow> Q True s'"
  shows "ok (vsql_m_set_component p component value s) Q"
  unfolding vsql_m_set_component_def using assms(1-4)
  by - ((erule wp modify_item_invar | rule deref_item_ok conjI impI | assumption
    | clarsimp simp: set_number_def wf_item_def
    | (rule Q; simp) | (rule R; simp add: set_number_def))[1])+

lemma vsql_m_set_number_ok [wp]:
  assumes "invar J cursor_count X s" "settled (agent s)" "item_at p (agent s)"
    and Q: "\<And>s'. invar J cursor_count X s' \<Longrightarrow> settled (agent s') \<Longrightarrow> item_at p (agent s') \<Longrightarrow>
      data (the_item p (agent s')) = None \<Longrightarrow> length (sqlstate s') = 5 \<Longrightarrow> Q False s'"
    and R: "\<And>s'. invar J cursor_count X s' \<Longrightarrow> settled (agent s') \<Longrightarrow> item_at p (agent s') \<Longrightarrow>
      data (the_item p (agent s')) = None \<Longrightarrow> number (the_item p (agent s')) component = value \<Longrightarrow>
      da s' = da s \<Longrightarrow> sqlstate s' = sqlstate s \<Longrightarrow> Q True s'"
  shows "ok (vsql_m_set_number p component value s) Q"
  unfolding vsql_m_set_number_def using assms(1-3)
  by - ((erule wp modify_item_invar | rule conjI impI | assumption
    | clarsimp simp: set_number_def wf_item_def
    | (rule Q; simp) | (rule R; simp add: set_number_def))[1])+

lemma vsql_m_set_string_ok [wp]:
  assumes "invar J cursor_count X s" "settled (agent s)" "item_at p (agent s)"
    and R: "\<And>s'. invar J cursor_count X s' \<Longrightarrow> settled (agent s') \<Longrightarrow> item_at p (agent s') \<Longrightarrow>
      data (the_item p (agent s')) = None \<Longrightarrow> strings (the_item p (agent s')) component \<in> {None, Some value} \<Longrightarrow>
      da s' = da s \<Longrightarrow> sqlstate s' = sqlstate s \<Longrightarrow> Q True s'"
  shows "ok (vsql_m_set_string p component value s) Q"
  unfolding vsql_m_set_string_def using assms(1-3)
  by - ((erule wp modify_item_invar | rule conjI impI | assumption
    | clarsimp simp: set_string_def wf_item_def
    | (rule R; auto simp add: set_string_def))[1])+

lemma vsql_m_set_data_ok [wp]:
  assumes s: "invar J cursor_count X s" "settled (agent s)" "item_at p (agent s)"
    and v: "type \<in> set host_types" "data_of type v \<noteq> None"
    and Q: "\<And>s'. invar J cursor_count X s' \<Longrightarrow> settled (agent s') \<Longrightarrow> item_at p (agent s') \<Longrightarrow>
      length (sqlstate s') = 5 \<Longrightarrow> Q False s'"
    and R: "\<And>x s'. invar J cursor_count X s' \<Longrightarrow> settled (agent s') \<Longrightarrow> item_at p (agent s') \<Longrightarrow>
      data_of type v = Some (Inr x) \<Longrightarrow> vsql_m_matches (the_item p (agent s)) type len False \<Longrightarrow>
      the_item p (agent s') = (the_item p (agent s))\<lparr>data := Some x\<rparr> \<Longrightarrow>
      da s' = da s \<Longrightarrow> sqlstate s' = sqlstate s \<Longrightarrow> Q True s'"
  shows "ok (vsql_m_set_data p type len v s) Q"
proof -
  have inl: "state = ''22003''" if "data_of type v = Some (Inl state)" for state
    using that by (auto simp: data_of_def split: if_splits cval.splits)
  have level: "number (the_item p (agent s)) VSQL_M_LEVEL = 0"
    using wf_the_item [OF s(1,3)] by (simp add: wf_item_def)
  have set: "ok (modify_item p (\<lambda>i. i\<lparr>data := Some x\<rparr>) t) (\<lambda>_. Q True)"
    if "invar J cursor_count X t" "agent t = agent s" "da t = da s" "sqlstate t = sqlstate s"
      "data_of type v = Some (Inr x)" "vsql_m_matches (the_item p (agent s)) type len False" for t x
    using that s level data_of_type [OF v(1) that(5,6)]
    by (intro modify_item_invar [OF that(1)]) (auto intro!: R simp: wf_item_def)
  have unset: "ok (modify_item p (\<lambda>i. i\<lparr>data := None\<rparr>) t)
      (\<lambda>_ s. ok (vsql_m_status ''HY001'' s) (\<lambda>_. Q False))"
    if "invar J cursor_count X t" "agent t = agent s" for t
    using that s
    by (intro modify_item_invar [OF that(1)]) (auto intro!: Q vsql_m_status_ok simp: wf_item_def)
  obtain r where r: "data_of type v = Some r" using v(2) by blast
  show ?thesis
    unfolding vsql_m_set_data_def using s r inl
    by - ((erule wp | rule deref_item_ok conjI impI set unset | assumption
      | clarsimp split: sum.split | (rule Q; simp))[1])+
qed

end

end
