(* ===== verification/Scan.thy ===== *)
theory Scan
  imports Prelude
begin

text \<open>
  The scan of the text of a statement for dynamic parameters (\<open>vsql_m_scan\<close> of
  \<open>std_2_20_1_description_of_sql_descriptor_areas.c\<close>), and a specification of it by the tokens of
  the text.
\<close>

section \<open>The scan\<close>

text \<open>
  The rest of the text after a literal or a delimited identifier, a bracketed comment (of which
  \<open>d\<close> are open) and a simple comment, and the characters of a word.
\<close>

definition skip_quoted :: "char \<Rightarrow> string \<Rightarrow> string" where
  "skip_quoted q s = drop 1 (dropWhile (\<lambda>c. c \<noteq> q) s)"

fun skip_comment :: "nat \<Rightarrow> string \<Rightarrow> string" where
  "skip_comment 0 s = s"
| "skip_comment (Suc d) [] = []"
| "skip_comment (Suc d) [c] = []"
| "skip_comment (Suc d) (b # c # s) =
     (if b = CHR ''/'' \<and> c = CHR ''*'' then skip_comment (Suc (Suc d)) s
      else if b = CHR ''*'' \<and> c = CHR ''/'' then skip_comment d s
      else skip_comment (Suc d) (c # s))"

definition skip_line :: "string \<Rightarrow> string" where
  "skip_line s = dropWhile (\<lambda>c. c \<noteq> CHR 0x0A) s"

definition word_start :: "char \<Rightarrow> bool" where
  "word_start c \<longleftrightarrow> isalpha c \<or> c = CHR ''_''"

definition word_char :: "char \<Rightarrow> bool" where
  "word_char c \<longleftrightarrow> isalnum c \<or> c = CHR ''_''"

definition single_words :: "string list" where
  "single_words = [''UNION'', ''EXCEPT'', ''INTERSECT'', ''ORDER'', ''OFFSET'', ''FETCH'']"

text \<open>A word is kept in an array of 10 characters.\<close>

definition scan_word :: "string \<Rightarrow> string" where
  "scan_word w = map toupper (take 9 w)"

definition after_word :: "int \<Rightarrow> bool \<Rightarrow> bool \<Rightarrow> string \<Rightarrow> bool" where
  "after_word depth first single w =
     (if first then w = ''SELECT''
      else if depth = 0 \<and> w \<in> set single_words then False
      else single)"

lemma length_dropWhile_less: "length (dropWhile P s) < Suc (length s)"
  by (simp add: length_dropWhile_le less_Suc_eq_le)

lemma length_skip_quoted: "length (skip_quoted q s) < Suc (length s)"
  using length_dropWhile_le [of "\<lambda>c. c \<noteq> q" s] by (simp add: skip_quoted_def less_Suc_eq_le)

lemma length_skip_comment: "length (skip_comment d s) \<le> length s"
  by (induction d s rule: skip_comment.induct) auto

text \<open>
  The loop over the rest of the text, with the number of dynamic parameters so far, how many
  parentheses are open, whether nothing but spaces has been read, and \<open>*single\<close>.
\<close>

function scan_from :: "int \<Rightarrow> int \<Rightarrow> bool \<Rightarrow> bool \<Rightarrow> string \<Rightarrow> int \<times> bool" where
  "scan_from n depth first single [] = (n, single)"
| "scan_from n depth first single (c # s) =
     (if c = CHR 0x27 \<or> c = CHR 0x22 then scan_from n depth first single (skip_quoted c s)
      else if c = CHR ''/'' \<and> s \<noteq> [] \<and> hd s = CHR ''*''
      then scan_from n depth first single (skip_comment 1 (tl s))
      else if c = CHR ''-'' \<and> s \<noteq> [] \<and> hd s = CHR ''-''
      then scan_from n depth first single (skip_line s)
      else if word_start c
      then scan_from n depth False
        (after_word depth first single (scan_word (c # takeWhile word_char s)))
        (dropWhile word_char s)
      else scan_from (if c = CHR ''?'' then n + 1 else n)
        (if c = CHR ''('' then depth + 1 else if c = CHR '')'' then depth - 1 else depth)
        (first \<and> isspace c) single s)"
  by pat_completeness auto

termination
  by (relation "measure (\<lambda>(n, depth, first, single, s). length s)")
    (simp_all add: length_skip_quoted length_dropWhile_less skip_line_def
      order.strict_trans1 [OF length_skip_comment])

definition vsql_m_scan :: "string \<Rightarrow> int \<times> bool" where
  "vsql_m_scan sql = scan_from 0 0 True False sql"

section \<open>Tokens\<close>

text \<open>
  The specification: a text is a sequence of words and other characters, without its literals,
  delimited identifiers and comments. A dynamic parameter is a \<open>?\<close>. A query specification starts
  with SELECT, and none of the words of another query expression is outside parentheses.
\<close>

datatype token = Word string | Symbol char

function tokens :: "string \<Rightarrow> token list" where
  "tokens [] = []"
| "tokens (c # s) =
     (if c = CHR 0x27 \<or> c = CHR 0x22 then tokens (skip_quoted c s)
      else if c = CHR ''/'' \<and> s \<noteq> [] \<and> hd s = CHR ''*'' then tokens (skip_comment 1 (tl s))
      else if c = CHR ''-'' \<and> s \<noteq> [] \<and> hd s = CHR ''-'' then tokens (skip_line s)
      else if word_start c
      then Word (scan_word (c # takeWhile word_char s)) # tokens (dropWhile word_char s)
      else Symbol c # tokens s)"
  by pat_completeness auto

termination
  by (relation "measure length")
    (simp_all add: length_skip_quoted length_dropWhile_less skip_line_def
      order.strict_trans1 [OF length_skip_comment])

definition parameters :: "token list \<Rightarrow> nat" where
  "parameters ts = length (filter (\<lambda>t. t = Symbol CHR ''?'') ts)"

fun nesting :: "token \<Rightarrow> int" where
  "nesting (Symbol c) = (if c = CHR ''('' then 1 else if c = CHR '')'' then -1 else 0)"
| "nesting (Word w) = 0"

definition depth_before :: "token list \<Rightarrow> nat \<Rightarrow> int" where
  "depth_before ts i = sum_list (map nesting (take i ts))"

fun space :: "token \<Rightarrow> bool" where
  "space (Symbol c) = isspace c"
| "space (Word w) = False"

definition query_specification :: "token list \<Rightarrow> bool" where
  "query_specification ts = (case dropWhile space ts of
     Word w # us \<Rightarrow> w = ''SELECT'' \<and>
       (\<forall>i<length us. \<forall>v\<in>set single_words. us ! i = Word v \<longrightarrow> depth_before us i \<noteq> 0)
   | _ \<Rightarrow> False)"

text \<open>The scan of the tokens.\<close>

fun scan_tokens :: "int \<Rightarrow> int \<Rightarrow> bool \<Rightarrow> bool \<Rightarrow> token list \<Rightarrow> int \<times> bool" where
  "scan_tokens n depth first single [] = (n, single)"
| "scan_tokens n depth first single (Word w # ts) =
     scan_tokens n depth False (after_word depth first single w) ts"
| "scan_tokens n depth first single (Symbol c # ts) =
     scan_tokens (if c = CHR ''?'' then n + 1 else n) (depth + nesting (Symbol c))
       (first \<and> isspace c) single ts"

lemma scan_from_tokens: "scan_from n depth first single s = scan_tokens n depth first single (tokens s)"
proof (induction n depth first single s rule: scan_from.induct)
  case (2 n depth first single c s)
  show ?case
    by (subst scan_from.simps, subst tokens.simps)
      (use 2 in auto)
qed simp

section \<open>The scan meets its specification\<close>

lemma scan_tokens_parameters: "fst (scan_tokens n depth first single ts) = n + int (parameters ts)"
  by (induction n depth first single ts rule: scan_tokens.induct) (auto simp: parameters_def)

lemma scan_tokens_words:
  "snd (scan_tokens n depth False single ts) \<longleftrightarrow> single \<and>
     (\<forall>i<length ts. \<forall>v\<in>set single_words. ts ! i = Word v \<longrightarrow> depth + depth_before ts i \<noteq> 0)"
proof (induction ts arbitrary: n depth single)
  case (Cons t ts)
  have split: "(\<forall>i<length (t # ts). \<forall>v\<in>set single_words.
        (t # ts) ! i = Word v \<longrightarrow> depth + depth_before (t # ts) i \<noteq> 0) \<longleftrightarrow>
      (\<forall>v\<in>set single_words. t = Word v \<longrightarrow> depth \<noteq> 0) \<and>
      (\<forall>i<length ts. \<forall>v\<in>set single_words.
        ts ! i = Word v \<longrightarrow> (depth + nesting t) + depth_before ts i \<noteq> 0)"
    by (simp add: All_less_Suc2 depth_before_def add.assoc)
  show ?case
    unfolding split by (cases t) (auto simp: Cons.IH after_word_def)
qed simp

lemma space_nesting: "isspace c \<Longrightarrow> nesting (Symbol c) = 0"
  by (auto simp: isspace_def octet_def)

lemma scan_tokens_first:
  "snd (scan_tokens n 0 True False ts) \<longleftrightarrow> query_specification ts"
proof (induction ts arbitrary: n)
  case (Cons t ts)
  show ?case
  proof (cases t)
    case (Word w)
    then show ?thesis
      by (simp add: query_specification_def after_word_def scan_tokens_words)
  next
    case (Symbol c)
    show ?thesis
    proof (cases "isspace c")
      case True
      then have "snd (scan_tokens n 0 True False (t # ts)) =
          snd (scan_tokens (if c = CHR ''?'' then n + 1 else n) 0 True False ts)"
        using Symbol space_nesting [OF True] by simp
      then show ?thesis
        using Symbol True Cons.IH by (simp add: query_specification_def)
    next
      case False
      then show ?thesis
        using Symbol by (simp add: query_specification_def scan_tokens_words del: nesting.simps)
    qed
  qed
qed (simp add: query_specification_def)

lemma vsql_m_scan_eq:
  "vsql_m_scan sql = (int (parameters (tokens sql)), query_specification (tokens sql))"
  unfolding vsql_m_scan_def scan_from_tokens
  by (rule prod_eqI) (simp_all add: scan_tokens_parameters scan_tokens_first)

lemma vsql_m_scan_nonneg: "0 \<le> fst (vsql_m_scan sql)"
  by (simp add: vsql_m_scan_eq)

lemma length_tokens: "length (tokens s) \<le> length s"
proof (induction s rule: tokens.induct)
  case (2 c s)
  have "length (skip_comment 1 (tl s)) \<le> length s"
    using length_skip_comment [of 1 "tl s"] by simp
  moreover have "length (skip_quoted c s) \<le> length s" "length (skip_line s) \<le> length s"
    "length (dropWhile word_char s) \<le> length s"
    using length_skip_quoted [of c s] by (simp_all add: skip_line_def length_dropWhile_le)
  ultimately show ?case
    by (subst tokens.simps) (use 2 in \<open>auto intro: le_trans\<close>)
qed simp

text \<open>So the count of the dynamic parameters doesn't overflow for a text of less than 2 GiB.\<close>

lemma vsql_m_scan_le: "fst (vsql_m_scan sql) \<le> int (length sql)"
  using order.trans [OF length_filter_le length_tokens, of "\<lambda>t. t = Symbol CHR ''?''" sql]
  by (simp add: vsql_m_scan_eq parameters_def)

end
