(* ===== verification/Dynamic.thy ===== *)
theory Dynamic
  imports Cursor Descriptor Scan
begin

text \<open>
  Dynamic SQL (\<open>std_2_20_7_prepare_statement.c\<close>): the prepared statements of an SQL-session, their
  description, their input and output in host parameters or SQL descriptor areas, EXECUTE, EXECUTE
  IMMEDIATE, and dynamic cursors.
\<close>

section \<open>Prepared statements\<close>

text \<open>
  A pointer to a prepared statement is the address of its SQL-connection and its position in the
  list.
\<close>

type_synonym prepared_pointer = "nat \<times> nat"

definition deref_prepared ::
  "prepared_pointer \<Rightarrow> 'w state \<Rightarrow> (vsql_m_prepared \<times> 'w state) option" where
  "deref_prepared p s = do {
     (k, s) \<leftarrow> deref (fst p) s;
     q \<leftarrow> deref_link (c_prepared k) (snd p);
     Some (q, s)
   }"

definition vsql_m_find_prepared :: "vsql_m_module \<Rightarrow> string \<Rightarrow> vsql_m_connection \<Rightarrow> nat" where
  "vsql_m_find_prepared M name k =
     link (\<lambda>p. \<not> (p_module p \<noteq> own M \<or> p_name p \<noteq> name)) (c_prepared k)"

text \<open>
  The loop of \<open>vsql_m_deallocate\<close> over the cursors from \<open>i\<close>, of which there are \<open>n\<close>: the first
  open cursor that is declared for the statement.
\<close>

definition cursor_is_open ::
  "'w cli \<Rightarrow> int \<Rightarrow> 'w state \<Rightarrow> (bool \<times> 'w state) option" where
  "cursor_is_open L stmt s = do {
     ((rc, holdable), s) \<leftarrow> call (SQLGetStmtAttr L stmt SQL_ATTR_CURSOR_HOLDABLE) s;
     if vsql_m_failed rc then Some (False, s)
     else (case holdable of
         None \<Rightarrow> None
       | Some holdable \<Rightarrow> do {
           (rc, s) \<leftarrow> call (SQLSetStmtAttr L stmt SQL_ATTR_CURSOR_HOLDABLE holdable) s;
           Some (vsql_m_failed rc, s)
         })
   }"

definition declared_for :: "vsql_m_module \<Rightarrow> nat \<Rightarrow> string \<Rightarrow> bool option" where
  "declared_for M i name =
     (if i < length (cursor_statements M) then Some (cursor_statements M ! i = Some name) else None)"

fun open_cursor_from ::
  "'w cli \<Rightarrow> vsql_m_module \<Rightarrow> nat \<Rightarrow> string \<Rightarrow> nat \<Rightarrow> nat \<Rightarrow> 'w state
    \<Rightarrow> (nat option \<times> 'w state) option" where
  "open_cursor_from L M c name 0 i s = Some (None, s)"
| "open_cursor_from L M c name (Suc n) i s = do {
     (h, s) \<leftarrow> cursors_get M c i s;
     declared \<leftarrow> (if h = 0 then Some False else declared_for M i name);
     (is_open, s) \<leftarrow> (if declared then cursor_is_open L h s else Some (False, s));
     if is_open then Some (Some i, s) else open_cursor_from L M c name n (Suc i) s
   }"

definition vsql_m_deallocate ::
  "'w cli \<Rightarrow> vsql_m_module \<Rightarrow> prepared_pointer \<Rightarrow> 'w state \<Rightarrow> (bool \<times> 'w state) option" where
  "vsql_m_deallocate L M p s = do {
     (good, s) \<leftarrow> vsql_m_cursors M (fst p) s;
     (q, s) \<leftarrow> deref_prepared p s;
     (found, s) \<leftarrow> (if good
       then open_cursor_from L M (fst p) (p_name q) (vsql_m_cursor_count M) 0 s
       else Some (None, s));
     case found of
       Some i \<Rightarrow> do {
         (_, s) \<leftarrow> vsql_m_status ''24000'' s;
         Some (False, s\<lparr>da := (da s)\<lparr>cursor_name := Some (cursor_names M ! i)\<rparr>\<rparr>)
       }
     | None \<Rightarrow> do {
         (_, s) \<leftarrow> vsql_m_free_prepared L q s;
         (_, s) \<leftarrow> modify (fst p) (\<lambda>k. k\<lparr>c_prepared := unlink (snd p) (c_prepared k)\<rparr>) s;
         Some (True, s)
       }
   }"

definition vsql_m_prepared_statement ::
  "'w cli \<Rightarrow> vsql_m_module \<Rightarrow> string \<Rightarrow> 'w state \<Rightarrow> (prepared_pointer option \<times> 'w state) option"
  where
  "vsql_m_prepared_statement L M name s = do {
     (c, s) \<leftarrow> vsql_m_connection L M s;
     case c of
       None \<Rightarrow> Some (None, s)
     | Some c \<Rightarrow> do {
         (k, s) \<leftarrow> deref c s;
         let i = vsql_m_find_prepared M name k;
         if deref_link (c_prepared k) i = None then do {
           (_, s) \<leftarrow> vsql_m_status ''26000'' s;
           Some (None, s)
         } else Some (Some (c, i), s)
       }
   }"

text \<open>
  An array of \<open>n\<close> characters that was empty, after a routine has or hasn't written text to it, and
  a number that was 0.
\<close>

definition written_text :: "nat \<Rightarrow> string option \<Rightarrow> string" where
  "written_text n v = (case v of None \<Rightarrow> '''' | Some t \<Rightarrow> in_buffer n t)"

definition written_number :: "int option \<Rightarrow> int" where
  "written_number v = (case v of None \<Rightarrow> 0 | Some n \<Rightarrow> n)"

text \<open>The rest of \<open>vsql_m_prepare\<close> once there is no prepared statement with the name.\<close>

definition vsql_m_prepare_new ::
  "'w cli \<Rightarrow> vsql_m_module \<Rightarrow> nat \<Rightarrow> string \<Rightarrow> string \<Rightarrow> 'w state \<Rightarrow> (unit \<times> 'w state) option" where
  "vsql_m_prepare_new L M c name sql s = do {
     (good, s) \<leftarrow> allocate s;
     (text, s) \<leftarrow> (if good then vsql_m_copy sql s else Some (None, s));
     case text of
       None \<Rightarrow> vsql_m_status ''HY001'' s
     | Some text \<Rightarrow> do {
         (k, s) \<leftarrow> deref c s;
         ((rc, stmt), s) \<leftarrow> call (SQLAllocHandle L SQL_HANDLE_STMT (c_dbc k)) s;
         if vsql_m_failed rc then vsql_m_diag L rc SQL_HANDLE_DBC (c_dbc k) s
         else do {
           (_, s) \<leftarrow> modify c (\<lambda>k. k\<lparr>c_active := True\<rparr>) s;
           (rc, s) \<leftarrow> call (SQLPrepare L stmt sql) s;
           (_, s) \<leftarrow> vsql_m_diag L rc SQL_HANDLE_STMT stmt s;
           if vsql_m_failed rc then do {
             (_, s) \<leftarrow> call (SQLFreeHandle L SQL_HANDLE_STMT stmt) s;
             Some ((), s)
           } else do {
             ((_, f), s) \<leftarrow>
               call (SQLGetDiagFieldText L SQL_HANDLE_STMT stmt 0 SQL_DIAG_DYNAMIC_FUNCTION 32) s;
             ((_, n), s) \<leftarrow>
               call (SQLGetDiagFieldInt L SQL_HANDLE_STMT stmt 0 SQL_DIAG_DYNAMIC_FUNCTION_CODE) s;
             modify c (\<lambda>k. k\<lparr>c_prepared := \<lparr>p_module = own M, p_name = name, p_sql = text,
               p_stmt = stmt, p_dynamic_function = written_text 32 f,
               p_dynamic_function_code = written_number n\<rparr> # c_prepared k\<rparr>) s
           }
         }
       }
   }"

definition vsql_m_prepare ::
  "'w cli \<Rightarrow> vsql_m_module \<Rightarrow> string \<Rightarrow> string \<Rightarrow> 'w state \<Rightarrow> (unit \<times> 'w state) option" where
  "vsql_m_prepare L M name sql s = do {
     (c, s) \<leftarrow> vsql_m_connection L M s;
     case c of
       None \<Rightarrow> Some ((), s)
     | Some c \<Rightarrow> do {
         (k, s) \<leftarrow> deref c s;
         let i = vsql_m_find_prepared M name k;
         (good, s) \<leftarrow> (if deref_link (c_prepared k) i \<noteq> None then vsql_m_deallocate L M (c, i) s
           else Some (True, s));
         if \<not> good then Some ((), s) else vsql_m_prepare_new L M c name sql s
       }
   }"

definition vsql_m_deallocate_prepare ::
  "'w cli \<Rightarrow> vsql_m_module \<Rightarrow> string \<Rightarrow> 'w state \<Rightarrow> (unit \<times> 'w state) option" where
  "vsql_m_deallocate_prepare L M name s = do {
     (c, s) \<leftarrow> vsql_m_connection L M s;
     case c of
       None \<Rightarrow> Some ((), s)
     | Some c \<Rightarrow> do {
         (_, s) \<leftarrow> modify c (\<lambda>k. k\<lparr>c_active := True\<rparr>) s;
         (k, s) \<leftarrow> deref c s;
         let i = vsql_m_find_prepared M name k;
         if deref_link (c_prepared k) i = None then vsql_m_status ''26000'' s
         else do {
           (good, s) \<leftarrow> vsql_m_deallocate L M (c, i) s;
           if good then vsql_m_status ''00000'' s else Some ((), s)
         }
       }
   }"

section \<open>Describing\<close>

text \<open>The two tables of \<open>vsql_m_describe_column\<close>, and their loops.\<close>

definition described_numbers :: "(int \<times> number_component) list" where
  "described_numbers =
    [(SQL_DESC_TYPE, VSQL_M_TYPE),
     (SQL_DESC_DATETIME_INTERVAL_CODE, VSQL_M_DATETIME_INTERVAL_CODE),
     (SQL_DESC_LENGTH, VSQL_M_LENGTH),
     (SQL_DESC_OCTET_LENGTH, VSQL_M_OCTET_LENGTH),
     (SQL_DESC_PRECISION, VSQL_M_PRECISION),
     (SQL_DESC_SCALE, VSQL_M_SCALE),
     (SQL_DESC_NULLABLE, VSQL_M_NULLABLE),
     (SQL_DESC_UNNAMED, VSQL_M_UNNAMED)]"

definition described_strings :: "(int \<times> string_component) list" where
  "described_strings =
    [(SQL_DESC_NAME, VSQL_M_NAME),
     (SQL_DESC_CHARACTER_SET_CATALOG, VSQL_M_CHARACTER_SET_CATALOG),
     (SQL_DESC_CHARACTER_SET_SCHEMA, VSQL_M_CHARACTER_SET_SCHEMA),
     (SQL_DESC_CHARACTER_SET_NAME, VSQL_M_CHARACTER_SET_NAME),
     (SQL_DESC_COLLATION_CATALOG, VSQL_M_COLLATION_CATALOG),
     (SQL_DESC_COLLATION_SCHEMA, VSQL_M_COLLATION_SCHEMA),
     (SQL_DESC_COLLATION_NAME, VSQL_M_COLLATION_NAME)]"

fun describe_numbers ::
  "'w cli \<Rightarrow> int \<Rightarrow> int \<Rightarrow> item_pointer \<Rightarrow> (int \<times> number_component) list \<Rightarrow> 'w state
    \<Rightarrow> (unit \<times> 'w state) option" where
  "describe_numbers L stmt column p [] s = Some ((), s)"
| "describe_numbers L stmt column p ((f, n) # fs) s = do {
     ((_, v), s) \<leftarrow> call (SQLColAttributeInt L stmt column f) s;
     (_, s) \<leftarrow> modify_item p (set_number n (written_number v)) s;
     describe_numbers L stmt column p fs s
   }"

fun describe_strings ::
  "'w cli \<Rightarrow> int \<Rightarrow> int \<Rightarrow> item_pointer \<Rightarrow> (int \<times> string_component) list \<Rightarrow> 'w state
    \<Rightarrow> (unit \<times> 'w state) option" where
  "describe_strings L stmt column p [] s = Some ((), s)"
| "describe_strings L stmt column p ((f, n) # fs) s = do {
     ((_, v), s) \<leftarrow> call (SQLColAttributeText L stmt column f 129) s;
     let t = written_text 129 v;
     (_, s) \<leftarrow> (if t \<noteq> '''' then do {
         (w, s) \<leftarrow> vsql_m_copy t s;
         modify_item p (set_string n w) s
       } else Some ((), s));
     describe_strings L stmt column p fs s
   }"

definition vsql_m_describe_column ::
  "'w cli \<Rightarrow> int \<Rightarrow> int \<Rightarrow> item_pointer \<Rightarrow> 'w state \<Rightarrow> (unit \<times> 'w state) option" where
  "vsql_m_describe_column L stmt column p s = do {
     (_, s) \<leftarrow> modify_item p vsql_m_reset_item s;
     (_, s) \<leftarrow> describe_numbers L stmt column p described_numbers s;
     (_, s) \<leftarrow> describe_strings L stmt column p described_strings s;
     (i, s) \<leftarrow> deref_item p s;
     if number i VSQL_M_TYPE \<ge> SQL_TYPE_DATE \<and>
        number i VSQL_M_TYPE \<le> SQL_TYPE_TIMESTAMP_WITH_TIMEZONE
     then modify_item p (set_number VSQL_M_TYPE SQL_DATETIME) s
     else Some ((), s)
   }"

text \<open>
  The loop of \<open>vsql_m_describe\<close>: the number of the column is a SQLSMALLINT, so it wraps around,
  and the item before the array is undefined.
\<close>

partial_function (option) describe_columns ::
  "'w cli \<Rightarrow> int \<Rightarrow> int \<Rightarrow> descriptor_pointer \<Rightarrow> int \<Rightarrow> 'w state \<Rightarrow> (unit \<times> 'w state) option"
  where
  "describe_columns L stmt columns p i s =
     (if i \<le> columns then
        if i < 1 then None
        else Option.bind (vsql_m_describe_column L stmt i (p, nat (i - 1)) s)
          (\<lambda>r. describe_columns L stmt columns p (cast16 (i + 1)) (snd r))
      else Some ((), s))"

definition vsql_m_describe ::
  "'w cli \<Rightarrow> vsql_m_module \<Rightarrow> string \<Rightarrow> string \<Rightarrow> nat option \<Rightarrow> 'w state \<Rightarrow> (unit \<times> 'w state) option"
  where
  "vsql_m_describe L M statement name module s = do {
     (p, s) \<leftarrow> vsql_m_prepared_statement L M statement s;
     case p of
       None \<Rightarrow> Some ((), s)
     | Some p \<Rightarrow> do {
         (d, s) \<leftarrow> vsql_m_descriptor L M name module s;
         case d of
           None \<Rightarrow> Some ((), s)
         | Some d \<Rightarrow> do {
             (q, s) \<leftarrow> deref_prepared p s;
             ((_, n), s) \<leftarrow> call (SQLNumResultCols L (p_stmt q)) s;
             let columns = written_number n;
             f \<leftarrow> strcpy 32 (p_dynamic_function q);
             (_, s) \<leftarrow> modify_descriptor d (\<lambda>d. d\<lparr>d_count := columns,
               d_top_level_count := columns, d_dynamic_function := f,
               d_dynamic_function_code := p_dynamic_function_code q\<rparr>) s;
             (x, s) \<leftarrow> deref_descriptor d s;
             if columns > d_max x then vsql_m_status ''01005'' s
             else do {
               (_, s) \<leftarrow> describe_columns L (p_stmt q) columns d 1 s;
               vsql_m_status ''00000'' s
             }
           }
       }
   }"

section \<open>Rules\<close>

definition prepared_at :: "prepared_pointer \<Rightarrow> vsql_m_agent \<Rightarrow> bool" where
  "prepared_at p a \<longleftrightarrow> live (fst p) a \<and> snd p < length (c_prepared (lookup (fst p) a))"

definition the_prepared :: "prepared_pointer \<Rightarrow> vsql_m_agent \<Rightarrow> vsql_m_prepared" where
  "the_prepared p a = c_prepared (lookup (fst p) a) ! snd p"

lemma deref_prepared_ok:
  "prepared_at p (agent s) \<Longrightarrow> Q (the_prepared p (agent s)) s \<Longrightarrow> ok (deref_prepared p s) Q"
  by (simp add: deref_prepared_def prepared_at_def the_prepared_def deref_live deref_link_def)

lemma find_prepared_some:
  "live c a \<Longrightarrow> deref_link (c_prepared (lookup c a)) i \<noteq> None \<Longrightarrow> prepared_at (c, i) a"
  by (simp add: prepared_at_def deref_link_def split: if_splits)

lemma held_the_prepared:
  "prepared_at p a \<Longrightarrow> (SQL_HANDLE_STMT, p_stmt (the_prepared p a)) \<in># held a"
  by (auto simp: prepared_at_def the_prepared_def intro: held_prepared)

lemma wf_the_prepared:
  "invar J cc X s \<Longrightarrow> prepared_at p (agent s) \<Longrightarrow>
   length (p_dynamic_function (the_prepared p (agent s))) < 32"
  using invar_lookup [of J cc X s "fst p"]
  by (auto simp: prepared_at_def the_prepared_def wf_connection_def)

lemma length_written_text: "0 < n \<Longrightarrow> length (written_text n v) < n"
  by (auto simp: written_text_def length_in_buffer_less split: option.split)

lemma mset_unlink: "i < length xs \<Longrightarrow> mset xs = add_mset (xs ! i) (mset (unlink i xs))"
proof -
  assume "i < length xs"
  then have "mset xs = mset (take i xs @ xs ! i # drop (Suc i) xs)"
    by (simp add: id_take_nth_drop [symmetric])
  then show ?thesis by (simp add: unlink_def)
qed

lemma held_unlink_prepared:
  "i < length (c_prepared k) \<Longrightarrow>
   held_connection (k\<lparr>c_prepared := unlink i (c_prepared k)\<rparr>) +
     {#(SQL_HANDLE_STMT, p_stmt (c_prepared k ! i))#} = held_connection k"
  by (simp add: held_connection_def mset_unlink)

lemma wf_unlink_prepared:
  "wf_connection cc k \<Longrightarrow> wf_connection cc (k\<lparr>c_prepared := unlink i (c_prepared k)\<rparr>)"
  by (auto simp: wf_connection_def distinct_map_unlink dest: set_unlink_subset [THEN subsetD])

lemma find_prepared_key:
  "vsql_m_find_prepared M name k = link (\<lambda>p. p_key p = (name, own M)) (c_prepared k)"
  unfolding vsql_m_find_prepared_def by (rule arg_cong2 [where f = link]) (auto simp: p_key_def)

text \<open>
  The prepared statements of an SQL-session are a store, whose keys are the names and the modules.
\<close>

definition push_prepared :: "vsql_m_prepared \<Rightarrow> vsql_m_connection \<Rightarrow> vsql_m_connection" where
  [simp]: "push_prepared p k = k\<lparr>c_prepared := p # c_prepared k\<rparr>"

definition drop_prepared :: "nat \<Rightarrow> vsql_m_connection \<Rightarrow> vsql_m_connection" where
  [simp]: "drop_prepared i k = k\<lparr>c_prepared := unlink i (c_prepared k)\<rparr>"

interpretation prepared: store c_prepared p_key
  "\<lambda>(name, m). vsql_m_find_prepared (M\<lparr>own := m\<rparr>) name" push_prepared drop_prepared for M
  by unfold_locales (auto simp: find_prepared_key)

context runtime
begin

lemma cursor_is_open_ok:
  assumes "invar J cursor_count X s" "(SQL_HANDLE_STMT, h) \<in># held (agent s) + X"
    and Q: "\<And>b s'. invar J cursor_count X s' \<Longrightarrow> agent s' = agent s \<Longrightarrow> da s' = da s \<Longrightarrow>
      sqlstate s' = sqlstate s \<Longrightarrow> Q b s'"
  shows "ok (cursor_is_open L h s) Q"
proof -
  have "\<exists>v. n = Some v"
    if "SQLGetStmtAttr L h a w = ((rc, n), w')" "\<not> vsql_m_failed rc" for a w rc n w'
    using that writes_attributeD [OF cli_contractD(2) [OF contract]] by (simp add: vsql_m_failed_iff)
  then show ?thesis
    unfolding cursor_is_open_def using assms(2)
    by (auto intro!: call_preserves [OF assms(1)] call_preserves [of J cursor_count X] uses Q)
qed

lemma open_cursor_from_ok:
  assumes "invar J cursor_count X s" "live c (agent s)" "slots M c (agent s) = Some m"
    "linked cursor_count M" "i + n = vsql_m_cursor_count M"
    and Q: "\<And>r s'. invar J cursor_count X s' \<Longrightarrow> agent s' = agent s \<Longrightarrow> da s' = da s \<Longrightarrow>
      sqlstate s' = sqlstate s \<Longrightarrow> Q r s'"
  shows "ok (open_cursor_from L M c name n i s) Q"
  using assms
proof (induction n arbitrary: i s)
  case (Suc n)
  have len: "i < length (m_stmts m)"
    using slots_length [OF invar_wf_agent [OF Suc.prems(1)] Suc.prems(2-4)] Suc.prems(5) by simp
  have i: "i < length (cursor_statements M)"
    using Suc.prems(4,5) by (simp add: linked_def)
  have held: "(SQL_HANDLE_STMT, m_stmts m ! i) \<in># held (agent s)" if "m_stmts m ! i \<noteq> 0"
    using slots_mem [OF Suc.prems(3)] len that by (intro held_stmt [OF Suc.prems(2)]) auto
  show ?case
    using Suc.prems len held i
    by (auto simp: cursors_get_eq declared_for_def intro!: cursor_is_open_ok [of X] Suc.IH Suc.prems(6))
qed simp

lemma vsql_m_deallocate_ok:
  assumes s: "invar J cursor_count X s" "settled (agent s)" "prepared_at p (agent s)"
    "linked cursor_count M"
    and bad: "\<And>s'. invar J cursor_count X s' \<Longrightarrow> settled (agent s') \<Longrightarrow> length (sqlstate s') = 5 \<Longrightarrow>
      sqlstate s' = ''24000'' \<Longrightarrow>
      c_prepared (lookup (fst p) (agent s')) = c_prepared (lookup (fst p) (agent s)) \<Longrightarrow> Q False s'"
    and good: "\<And>s'. invar J cursor_count X s' \<Longrightarrow> settled (agent s') \<Longrightarrow> live (fst p) (agent s') \<Longrightarrow>
      current (agent s') = current (agent s) \<Longrightarrow>
      c_prepared (lookup (fst p) (agent s')) = unlink (snd p) (c_prepared (lookup (fst p) (agent s))) \<Longrightarrow>
      distinct (map p_key (c_prepared (lookup (fst p) (agent s)))) \<Longrightarrow> Q True s'"
  shows "ok (vsql_m_deallocate L M p s) Q"
proof -
  have live: "live (fst p) (agent s)" using s(3) by (simp add: prepared_at_def)
  let ?f = "\<lambda>k. k\<lparr>c_prepared := unlink (snd p) (c_prepared k)\<rparr>"
  have distinct: "distinct (map p_key (c_prepared (lookup (fst p) (agent s))))"
    using invar_lookup [OF s(1) live] by (simp add: wf_connection_def)
  have remove: "ok (modify (fst p) ?f t) (\<lambda>_. Q True)"
    if t: "freed J cursor_count (p_stmt (the_prepared p (agent t))) X t" "settled (agent t)"
      "prepared_at p (agent t)" "current (agent t) = current (agent s)"
      "c_prepared (lookup (fst p) (agent t)) = c_prepared (lookup (fst p) (agent s))" for t
    using t(2-) held_unlink_prepared [of "snd p" "lookup (fst p) (agent t)"]
      wf_unlink_prepared [of cursor_count "lookup (fst p) (agent t)" "snd p"]
    by (intro modify_freed [OF t(1)]) (auto intro!: good distinct simp: prepared_at_def the_prepared_def
        settled_update live_update lookup_update)
  have free: "ok (vsql_m_free_prepared L q t)
      (\<lambda>_ s. ok (modify (fst p) ?f s) (\<lambda>_. Q True))"
    if t: "invar J cursor_count X t" "settled (agent t)" "prepared_at p (agent t)"
      "current (agent t) = current (agent s)"
      "c_prepared (lookup (fst p) (agent t)) = c_prepared (lookup (fst p) (agent s))"
      "q = the_prepared p (agent t)" for t q
    unfolding vsql_m_free_prepared_def using t
    by (auto intro!: free_held_ok [OF t(1) held_the_prepared [OF t(3)]] remove)
  have status: "ok (vsql_m_status ''24000'' t)
      (\<lambda>_ s. Q False (s\<lparr>da := (da s)\<lparr>cursor_name := n\<rparr>\<rparr>))"
    if "invar J cursor_count X t" "settled (agent t)"
      "c_prepared (lookup (fst p) (agent t)) = c_prepared (lookup (fst p) (agent s))" for t n
    using that(2,3) by (intro vsql_m_status_ok [OF that(1)])
      (auto intro!: bad simp: invar_def wf_da_def)
  have search: "ok (open_cursor_from L M (fst p) name (vsql_m_cursor_count M) 0 t) R"
    if "invar J cursor_count X t" "live (fst p) (agent t)" "slots M (fst p) (agent t) = Some m"
      "\<And>r s'. invar J cursor_count X s' \<Longrightarrow> agent s' = agent t \<Longrightarrow> R r s'" for t m name R
    by (rule open_cursor_from_ok [OF that(1-3) s(4)]) (auto intro!: that(4))
  have at: "prepared_at p (agent t)"
    if "live (fst p) (agent t)"
      "c_prepared (lookup (fst p) (agent t)) = c_prepared (lookup (fst p) (agent s))" for t
    using that s(3) by (simp add: prepared_at_def)
  show ?thesis
    unfolding vsql_m_deallocate_def
    by (simp, rule vsql_m_cursors_ok [OF s(1,2) live s(4)])
      (use s(2,3) at in \<open>auto intro!: deref_prepared_ok search free status\<close>)
qed

lemma vsql_m_prepared_statement_ok [wp]:
  assumes "invar J cursor_count X s" "settled (agent s)"
    and "\<And>s'. invar J cursor_count X s' \<Longrightarrow> settled (agent s') \<Longrightarrow> length (sqlstate s') = 5 \<Longrightarrow>
      Q None s'"
    and "\<And>p s'. invar J cursor_count X s' \<Longrightarrow> settled (agent s') \<Longrightarrow> prepared_at p (agent s') \<Longrightarrow>
      current (agent s') = Some (fst p) \<Longrightarrow> c_module (lookup (fst p) (agent s')) = Some (own M) \<Longrightarrow>
      Q (Some p) s'"
  shows "ok (vsql_m_prepared_statement L M name s) Q"
  unfolding vsql_m_prepared_statement_def Let_def using assms(1,2)
  by - ((erule wp | rule deref_ok conjI impI | assumption | clarsimp
    | (rule assms(3) assms(4); simp add: find_prepared_some))[1])+

lemma vsql_m_prepare_new_ok:
  assumes s: "invar J cursor_count X s" "settled (agent s)" "live c (agent s)"
    "(name, own M) \<notin> p_key ` set (c_prepared (lookup c (agent s)))"
    and Q: "\<And>s'. invar J cursor_count X s' \<Longrightarrow> settled (agent s') \<Longrightarrow> length (sqlstate s') = 5 \<Longrightarrow>
      c_prepared (lookup c (agent s')) = c_prepared (lookup c (agent s)) \<or>
      (\<exists>p. c_prepared (lookup c (agent s')) = p # c_prepared (lookup c (agent s)) \<and>
        p_key p = (name, own M) \<and> p_sql p = sql) \<Longrightarrow> Q () s'"
  shows "ok (vsql_m_prepare_new L M c name sql s) Q"
proof -
  let ?new = "\<lambda>text stmt f n. \<lparr>p_module = own M, p_name = name, p_sql = text, p_stmt = stmt,
    p_dynamic_function = written_text 32 f, p_dynamic_function_code = n\<rparr>"
  have add: "ok (modify c (\<lambda>k. k\<lparr>c_prepared := ?new sql stmt f n # c_prepared k\<rparr>) t) Q"
    if "invar J cursor_count (add_mset (SQL_HANDLE_STMT, stmt) X) t" "settled (agent t)"
      "live c (agent t)" "c_prepared (lookup c (agent t)) = c_prepared (lookup c (agent s))"
      "length (sqlstate t) = 5" for t stmt f n
    using that s(4) length_written_text [of 32 f]
    by (intro modify_invar [OF that(1,3), where X' = X])
      (auto intro!: Q simp: settled_update lookup_update wf_connection_def held_connection_def p_key_def)
  show ?thesis
    unfolding vsql_m_prepare_new_def using s(1-3)
    by - ((erule wp add | rule deref_ok uses conjI impI keep_active | erule call_preserves | assumption
      | clarsimp simp: settled_dbc held_dbc parent_dbc vsql_m_failed_iff live_update lookup_update
      | (rule Q; simp))[1])+
qed

lemma vsql_m_prepare_ok [wp]:
  assumes s: "invar J cursor_count X s" "settled (agent s)" "linked cursor_count M"
    and Q: "\<And>s'. invar J cursor_count X s' \<Longrightarrow> settled (agent s') \<Longrightarrow> length (sqlstate s') = 5 \<Longrightarrow> Q () s'"
  shows "ok (vsql_m_prepare L M name sql s) Q"
proof -
  have none: "(name, own M) \<notin> p_key ` set (c_prepared k)"
    if "deref_link (c_prepared k) (vsql_m_find_prepared M name k) = None" for k
    using prepared.not_found [of k M "(name, own M)"] that by simp
  show ?thesis
    unfolding vsql_m_prepare_def Let_def using s
    by - ((erule wp vsql_m_prepare_new_ok vsql_m_deallocate_ok | rule deref_ok conjI impI | assumption
      | clarsimp simp: find_prepared_some none find_prepared_key unlink_link_key
      | (rule Q; simp))[1])+
qed

lemma vsql_m_deallocate_prepare_ok [wp]:
  assumes s: "invar J cursor_count X s" "settled (agent s)" "linked cursor_count M"
    and Q: "\<And>s'. invar J cursor_count X s' \<Longrightarrow> settled (agent s') \<Longrightarrow> length (sqlstate s') = 5 \<Longrightarrow> Q () s'"
  shows "ok (vsql_m_deallocate_prepare L M name s) Q"
  unfolding vsql_m_deallocate_prepare_def Let_def using s
  by - ((erule wp vsql_m_deallocate_ok | rule deref_ok conjI impI keep_active find_prepared_some | assumption
    | clarsimp simp: live_update | (rule Q; simp))[1])+

lemma describe_numbers_ok:
  assumes "invar J cursor_count X s" "settled (agent s)" "item_at p (agent s)"
    "(SQL_HANDLE_STMT, stmt) \<in># held (agent s) + X" "data (the_item p (agent s)) = None"
    "VSQL_M_LEVEL \<notin> snd ` set fs"
    and Q: "\<And>s'. invar J cursor_count X s' \<Longrightarrow> settled (agent s') \<Longrightarrow> item_at p (agent s') \<Longrightarrow>
      data (the_item p (agent s')) = None \<Longrightarrow> same_session (fst (fst p)) (agent s) (agent s') \<Longrightarrow>
      d_max (the_descriptor (fst p) (agent s')) = d_max (the_descriptor (fst p) (agent s)) \<Longrightarrow> Q () s'"
  shows "ok (describe_numbers L stmt column p fs s) Q"
  using assms
proof (induction fs arbitrary: s)
  case (Cons fn fs)
  obtain f n where fn: "fn = (f, n)" by (metis surj_pair)
  show ?case
    unfolding fn using Cons.prems(1-6)
    by - (simp only: describe_numbers.simps, ((erule wp modify_item_invar Cons.IH | rule uses conjI impI | erule call_preserves
      | assumption | clarsimp simp: set_number_def wf_item_def fn | (rule Cons.prems(7); simp))[1])+)
qed (simp add: item_at_def descriptor_at_def)

lemma describe_strings_ok:
  assumes "invar J cursor_count X s" "settled (agent s)" "item_at p (agent s)"
    "(SQL_HANDLE_STMT, stmt) \<in># held (agent s) + X" "data (the_item p (agent s)) = None"
    and Q: "\<And>s'. invar J cursor_count X s' \<Longrightarrow> settled (agent s') \<Longrightarrow> item_at p (agent s') \<Longrightarrow>
      data (the_item p (agent s')) = None \<Longrightarrow> same_session (fst (fst p)) (agent s) (agent s') \<Longrightarrow>
      d_max (the_descriptor (fst p) (agent s')) = d_max (the_descriptor (fst p) (agent s)) \<Longrightarrow> Q () s'"
  shows "ok (describe_strings L stmt column p fs s) Q"
  using assms
proof (induction fs arbitrary: s)
  case (Cons fn fs)
  obtain f n where fn: "fn = (f, n)" by (metis surj_pair)
  show ?case
    unfolding fn Let_def using Cons.prems(1-5)
    by - (simp only: describe_strings.simps Let_def, ((erule wp modify_item_invar Cons.IH | rule uses conjI impI | erule call_preserves
      | assumption | clarsimp simp: set_string_def wf_item_def | (rule Cons.prems(6); simp))[1])+)
qed (simp add: item_at_def descriptor_at_def)

lemma vsql_m_describe_column_ok:
  assumes "invar J cursor_count X s" "settled (agent s)" "item_at p (agent s)"
    "(SQL_HANDLE_STMT, stmt) \<in># held (agent s) + X"
    and Q: "\<And>s'. invar J cursor_count X s' \<Longrightarrow> settled (agent s') \<Longrightarrow> item_at p (agent s') \<Longrightarrow>
      data (the_item p (agent s')) = None \<Longrightarrow> same_session (fst (fst p)) (agent s) (agent s') \<Longrightarrow>
      d_max (the_descriptor (fst p) (agent s')) = d_max (the_descriptor (fst p) (agent s)) \<Longrightarrow> Q () s'"
  shows "ok (vsql_m_describe_column L stmt column p s) Q"
proof -
  have level: "VSQL_M_LEVEL \<notin> snd ` set described_numbers"
    by (simp add: described_numbers_def)
  show ?thesis
    unfolding vsql_m_describe_column_def using assms(1-4) level
    by - ((erule wp modify_item_invar describe_numbers_ok describe_strings_ok
      | rule deref_item_ok conjI impI | assumption
      | clarsimp simp: set_number_def vsql_m_reset_item_def wf_item_def | (rule Q; simp add: set_number_def))[1])+
qed

text \<open>The loop ends because a result has fewer columns than the largest SQLSMALLINT.\<close>

lemma describe_columns_ok:
  assumes "invar J cursor_count X s" "settled (agent s)" "descriptor_at p (agent s)"
    "(SQL_HANDLE_STMT, stmt) \<in># held (agent s) + X"
    "1 \<le> i" "columns < 2 ^ 15 - 1" "columns \<le> d_max (the_descriptor p (agent s))"
    and Q: "\<And>s'. invar J cursor_count X s' \<Longrightarrow> settled (agent s') \<Longrightarrow> Q () s'"
  shows "ok (describe_columns L stmt columns p i s) Q"
  using assms
proof (induction "nat (columns + 1 - i)" arbitrary: i s rule: less_induct)
  case less
  show ?case
  proof (cases "i \<le> columns")
    case True
    have item: "item_at (p, nat (i - 1)) (agent s)"
      using item_in_descriptor [OF less.prems(1,3), of i] True less.prems(5,7) by simp
    have cast: "cast16 (i + 1) = i + 1"
      using True less.prems(5,6) by (intro cast16_id) auto
    show ?thesis
      using True less.prems(5)
    proof (subst describe_columns.simps, simp add: ok_Some_pair cast,
        intro vsql_m_describe_column_ok [OF less.prems(1,2) item less.prems(4)])
      fix t :: "'w state"
      assume t: "invar J cursor_count X t" "settled (agent t)" "item_at (p, nat (i - 1)) (agent t)"
        "same_session (fst (fst (p, nat (i - 1)))) (agent s) (agent t)"
        "d_max (the_descriptor (fst (p, nat (i - 1))) (agent t)) =
          d_max (the_descriptor (fst (p, nat (i - 1))) (agent s))"
      then show "ok (describe_columns L stmt columns p (i + 1) t) Q"
        using True less.prems(4-8) by (intro less.hyps) (simp_all add: item_at_def)
    qed
  next
    case False
    then show ?thesis
      by (subst describe_columns.simps) (simp add: less.prems(1,2,8))
  qed
qed

lemma result_columns_ok:
  assumes "invar J cursor_count X s" "(SQL_HANDLE_STMT, stmt) \<in># held (agent s) + X"
    and "\<And>rc n s'. invar J cursor_count X s' \<Longrightarrow> agent s' = agent s \<Longrightarrow> da s' = da s \<Longrightarrow>
      sqlstate s' = sqlstate s \<Longrightarrow> written_number n \<noteq> 2 ^ 15 - 1 \<Longrightarrow> Q (rc, n) s'"
  shows "ok (call (SQLNumResultCols L stmt) s) Q"
proof (rule call_preserves [OF assms(1)])
  show "preserves J (held (agent s) + X) (SQLNumResultCols L stmt)"
    by (rule uses) (rule assms(2))
  fix a and s' :: "'w state"
  assume call: "SQLNumResultCols L stmt (world s) = (a, world s')"
    and s': "invar J cursor_count X s'" "agent s' = agent s" "da s' = da s" "sqlstate s' = sqlstate s"
  obtain rc n where a: "a = (rc, n)" by (metis surj_pair)
  have "written_number n \<noteq> 2 ^ 15 - 1"
    using few_columnsD [OF few] call a by (cases n) (auto simp: written_number_def)
  then show "Q a s'" unfolding a by (intro assms(3) s')
qed

text \<open>A prepared statement of the current SQL-connection stays when a descriptor is found.\<close>

lemma vsql_m_descriptor_prepared:
  assumes s: "invar J cursor_count X s" "settled (agent s)" "prepared_at p (agent s)"
    "current (agent s) = Some c" "fst p = c"
    and bad: "\<And>s'. invar J cursor_count X s' \<Longrightarrow> settled (agent s') \<Longrightarrow>
      same_session c (agent s) (agent s') \<Longrightarrow> length (sqlstate s') = 5 \<Longrightarrow> Q None s'"
    and good: "\<And>i s'. invar J cursor_count X s' \<Longrightarrow> settled (agent s') \<Longrightarrow>
      prepared_at p (agent s') \<Longrightarrow> the_prepared p (agent s') = the_prepared p (agent s) \<Longrightarrow>
      current (agent s') = Some c \<Longrightarrow> descriptor_at (c, i) (agent s') \<Longrightarrow>
      (SQL_HANDLE_STMT, p_stmt (the_prepared p (agent s))) \<in># held (agent s') \<Longrightarrow>
      length (p_dynamic_function (the_prepared p (agent s))) < 32 \<Longrightarrow> Q (Some (c, i)) s'"
  shows "ok (vsql_m_descriptor L M name module s) Q"
proof (rule vsql_m_descriptor_same [OF s(1,2,4)])
  fix s' :: "'w state" and i
  assume "invar J cursor_count X s'" "settled (agent s')" "same_session c (agent s) (agent s')"
    "descriptor_at (c, i) (agent s')"
  then show "Q (Some (c, i)) s'"
    using held_the_prepared [OF s(3)] wf_the_prepared [OF s(1,3)] s(3-5)
    by (intro good) (auto simp: prepared_at_def the_prepared_def)
qed (rule bad)

lemma vsql_m_describe_ok [wp]:
  assumes s: "invar J cursor_count X s" "settled (agent s)"
    and Q: "\<And>s'. invar J cursor_count X s' \<Longrightarrow> settled (agent s') \<Longrightarrow> length (sqlstate s') = 5 \<Longrightarrow> Q () s'"
  shows "ok (vsql_m_describe L M statement name module s) Q"
proof -
  have describe: "ok (describe_columns L stmt columns d 1 t) R"
    if t: "invar J cursor_count X t" "settled (agent t)" "descriptor_at d (agent t)"
      "(SQL_HANDLE_STMT, stmt) \<in># held (agent t)" "columns \<noteq> 32767"
      "\<not> d_max (the_descriptor d (agent t)) < columns"
      "\<And>s'. invar J cursor_count X s' \<Longrightarrow> settled (agent s') \<Longrightarrow> R () s'"
    for d columns stmt t R
    using t wf_the_descriptor [OF t(1,3)]
    by (intro describe_columns_ok [OF t(1-3)]) (auto simp: wf_descriptor_def)
  have fill: "ok (modify_descriptor d (\<lambda>d. d\<lparr>d_count := columns, d_top_level_count := columns,
      d_dynamic_function := f, d_dynamic_function_code := k\<rparr>) t) R"
    if t: "invar J cursor_count X t" "settled (agent t)" "descriptor_at d (agent t)"
      "length f < 32"
      "\<And>s'. invar J cursor_count X s' \<Longrightarrow> settled (agent s') \<Longrightarrow> descriptor_at d (agent s') \<Longrightarrow>
        held (agent s') = held (agent t) \<Longrightarrow> R () s'" for d columns f k t R
    using t by (intro modify_descriptor_invar [OF t(1-3)]) (auto simp: wf_descriptor_def d_key_def)
  show ?thesis
    unfolding vsql_m_describe_def Let_def using s
    by - ((erule vsql_m_descriptor_prepared result_columns_ok fill describe wp
      | rule deref_prepared_ok deref_descriptor_ok conjI impI | assumption
      | clarsimp simp: strcpy_ok simp del: same_session_def
      | (rule Q; simp))[1])+
qed

end

end
