(* ===== verification/Using.thy ===== *)
theory Using
  imports Dynamic
begin

text \<open>
  The rest of dynamic SQL (\<open>std_2_20_7_prepare_statement.c\<close>, sections input to fetch_dynamic): the
  using clauses, which are host parameters or an SQL descriptor area, EXECUTE, EXECUTE IMMEDIATE
  and dynamic cursors.
\<close>

section \<open>The input using clause\<close>

text \<open>A pointer to the name of a descriptor that is NULL is \<open>None\<close>.\<close>

record vsql_m_input =
  in_n :: int
  in_params :: "vsql_m_param list"
  in_descriptor :: "string option"
  in_module :: "nat option"

text \<open>
  SQLBindParameter is given the addresses of DATA and of \<open>length\<close>, which don't change before the
  statement is executed, so here it's given what they have. They are NULL data when DATA is NULL.
\<close>

definition item_size :: "vsql_m_item \<Rightarrow> int \<Rightarrow> int" where
  "item_size item type =
     (if type = SQL_CHAR \<or> type = SQL_VARCHAR then number item VSQL_M_LENGTH
      else if type \<noteq> SQL_BOOLEAN then number item VSQL_M_PRECISION
      else 0)"

definition vsql_m_bind_item ::
  "'w cli \<Rightarrow> int \<Rightarrow> int \<Rightarrow> item_pointer \<Rightarrow> 'w state \<Rightarrow> (int \<times> 'w state) option" where
  "vsql_m_bind_item L stmt i p s = do {
     (item, s) \<leftarrow> deref_item p s;
     let c = fst (vsql_m_c_type item);
     type \<leftarrow> (if cast16 (number item VSQL_M_TYPE) = SQL_DATETIME
       then map_option cast16 (int32 (SQL_TYPE_DATE - SQL_CODE_DATE +
         number item VSQL_M_DATETIME_INTERVAL_CODE))
       else Some (cast16 (number item VSQL_M_TYPE)));
     let ind = (if number item VSQL_M_INDICATOR < 0 then SQL_NULL_DATA
       else if c = SQL_CHAR then SQL_NTS else 0);
     (_, s) \<leftarrow> modify_item p (\<lambda>i. i\<lparr>ind_length := ind\<rparr>) s;
     call (SQLBindParameter L stmt i SQL_PARAM_MODE_IN c type (item_size item type)
       (cast16 (number item VSQL_M_SCALE))
       (case data item of None \<Rightarrow> CInt ind | Some v \<Rightarrow> v) ind) s
   }"

text \<open>
  The loop of \<open>vsql_m_bind\<close> over the \<open>n\<close> items from \<open>i\<close>. It gives no return code when the status
  parameter has been set because an item has no value.
\<close>

fun bind_items ::
  "'w cli \<Rightarrow> int \<Rightarrow> descriptor_pointer \<Rightarrow> nat \<Rightarrow> nat \<Rightarrow> int \<Rightarrow> 'w state
    \<Rightarrow> (int option \<times> 'w state) option" where
  "bind_items L stmt p 0 i rc s = Some (Some rc, s)"
| "bind_items L stmt p (Suc n) i rc s =
     (if vsql_m_failed rc then Some (Some rc, s)
      else do {
        (x, s) \<leftarrow> deref_item (p, i) s;
        if data x = None \<and> number x VSQL_M_INDICATOR \<ge> 0 then do {
          (_, s) \<leftarrow> vsql_m_status ''07001'' s;
          Some (None, s)
        } else do {
          (rc, s) \<leftarrow> vsql_m_bind_item L stmt (cast16 (int i + 1)) (p, i) s;
          bind_items L stmt p n (Suc i) rc s
        }
      })"

text \<open>
  The return code of the binding, with the \<open>n\<close> dynamic parameters that the statement has, or none
  when the status parameter has been set.
\<close>

definition vsql_m_bind_using ::
  "'w cli \<Rightarrow> vsql_m_module \<Rightarrow> int \<Rightarrow> int \<Rightarrow> vsql_m_input \<Rightarrow> 'w state
    \<Rightarrow> (int option \<times> 'w state) option" where
  "vsql_m_bind_using L M stmt n using_clause s = (case in_descriptor using_clause of
     Some name \<Rightarrow> do {
       (d, s) \<leftarrow> vsql_m_descriptor L M name (in_module using_clause) s;
       case d of
         None \<Rightarrow> Some (None, s)
       | Some d \<Rightarrow> do {
           (good, s) \<leftarrow> vsql_m_items d n ''07001'' s;
           if \<not> good then Some (None, s)
           else bind_items L stmt d (nat n) 0 SQL_SUCCESS s
         }
     }
   | None \<Rightarrow>
       if in_n using_clause < 0 then
         if n > 0 then do {
           (_, s) \<leftarrow> vsql_m_status ''07004'' s;
           Some (None, s)
         } else Some (Some SQL_SUCCESS, s)
       else if in_n using_clause \<noteq> n then do {
         (_, s) \<leftarrow> vsql_m_status ''07001'' s;
         Some (None, s)
       } else if length (in_params using_clause) < nat n then None
       else do {
         (rc, s) \<leftarrow> vsql_m_bind_params L stmt (take (nat n) (in_params using_clause)) s;
         Some (Some rc, s)
       })"

definition vsql_m_bind ::
  "'w cli \<Rightarrow> vsql_m_module \<Rightarrow> int \<Rightarrow> string \<Rightarrow> vsql_m_input \<Rightarrow> 'w state
    \<Rightarrow> (bool \<times> 'w state) option" where
  "vsql_m_bind L M stmt sql using_clause s = do {
     (rc, s) \<leftarrow> vsql_m_bind_using L M stmt (fst (vsql_m_scan sql)) using_clause s;
     case rc of
       None \<Rightarrow> Some (False, s)
     | Some rc \<Rightarrow>
         if vsql_m_failed rc then do {
           (_, s) \<leftarrow> vsql_m_diag L rc SQL_HANDLE_STMT stmt s;
           Some (False, s)
         } else Some (True, s)
   }"

section \<open>The output using clause\<close>

record vsql_m_output =
  out_n :: int
  out_targets :: "vsql_m_target list"
  out_descriptor :: "string option"
  out_module :: "nat option"

text \<open>
  The loop of \<open>vsql_m_get_column\<close> that reads a value in pieces, and gives its length in
  characters and octets. The piece is empty when it isn't written.
\<close>

definition piece_text :: "cval option \<Rightarrow> string option" where
  "piece_text v = (case v of
     None \<Rightarrow> Some ''''
   | Some (CText x) \<Rightarrow> Some (in_buffer 256 x)
   | Some _ \<Rightarrow> None)"

partial_function (option) count_pieces ::
  "'w cli \<Rightarrow> int \<Rightarrow> int \<Rightarrow> int \<Rightarrow> int \<Rightarrow> 'w state \<Rightarrow> ((int \<times> int) \<times> 'w state) option" where
  "count_pieces L stmt i characters octets s = do {
     ((rc, v, _), s) \<leftarrow> call (SQLGetData L stmt i SQL_CHAR 256 False) s;
     b \<leftarrow> piece_text v;
     characters \<leftarrow> int32 (characters + vsql_m_characters b);
     octets \<leftarrow> int32 (octets + int (length b));
     if rc = SQL_SUCCESS_WITH_INFO then count_pieces L stmt i characters octets s
     else Some ((characters, octets), s)
   }"

text \<open>The value that DATA has when SQLGetData has been given its address and its size.\<close>

definition retrieved :: "int \<Rightarrow> int \<Rightarrow> cval option \<Rightarrow> cval" where
  "retrieved c bytes v = (case v of
     None \<Rightarrow> CUninit
   | Some (CText x) \<Rightarrow> if c = SQL_CHAR then CText (in_buffer (nat (cast32 bytes)) x) else CText x
   | Some x \<Rightarrow> x)"

definition text_of :: "cval option \<Rightarrow> string option" where
  "text_of v = (case v of Some (CText x) \<Rightarrow> Some x | _ \<Rightarrow> None)"

text \<open>The value of a CHARACTER is padded in the buffer, which has \<open>bytes\<close> bytes.\<close>

definition pad_item ::
  "item_pointer \<Rightarrow> int \<Rightarrow> 'w state \<Rightarrow> (unit \<times> 'w state) option" where
  "pad_item p bytes s = do {
     (item, s) \<leftarrow> deref_item p s;
     x \<leftarrow> text_of (data item);
     y \<leftarrow> strcpy (nat bytes) (x @ replicate (nat (number item VSQL_M_LENGTH - vsql_m_characters x)) CHR '' '');
     modify_item p (\<lambda>i. i\<lparr>data := Some (CText y)\<rparr>) s
   }"

definition set_returned :: "int \<times> int \<Rightarrow> vsql_m_item \<Rightarrow> vsql_m_item" where
  "set_returned n i = set_number VSQL_M_RETURNED_OCTET_LENGTH (snd n)
     (set_number VSQL_M_RETURNED_LENGTH (fst n) i)"

text \<open>The rest of \<open>vsql_m_get_column\<close> once DATA has a value that isn't null.\<close>

definition vsql_m_set_returned ::
  "item_pointer \<Rightarrow> int \<Rightarrow> int \<Rightarrow> int \<times> int \<Rightarrow> 'w state \<Rightarrow> (unit \<times> 'w state) option" where
  "vsql_m_set_returned p bytes column_type lengths s = do {
     (item, s) \<leftarrow> deref_item p s;
     (_, s) \<leftarrow> (if number item VSQL_M_TYPE = SQL_CHAR then pad_item p bytes s else Some ((), s));
     (item, s) \<leftarrow> deref_item p s;
     if number item VSQL_M_TYPE = SQL_VARCHAR then do {
       x \<leftarrow> text_of (data item);
       modify_item p (set_returned (vsql_m_characters x, cast32 (int (length x)))) s
     } else if column_type = SQL_VARCHAR then modify_item p (set_returned lengths) s
     else Some ((), s)
   }"

text \<open>The rest of \<open>vsql_m_get_column\<close> from SQLGetData.\<close>

definition vsql_m_get_value ::
  "'w cli \<Rightarrow> int \<Rightarrow> int \<Rightarrow> item_pointer \<Rightarrow> int \<Rightarrow> int \<Rightarrow> int \<Rightarrow> int \<times> int \<Rightarrow> 'w state
    \<Rightarrow> (int \<times> 'w state) option" where
  "vsql_m_get_value L stmt i p c bytes column_type lengths s = do {
     ((rc, v, n), s) \<leftarrow> call (SQLGetData L stmt i c (cast32 bytes) True) s;
     if vsql_m_failed rc then Some (rc, s)
     else do {
       let null = (written_number n = SQL_NULL_DATA);
       (_, s) \<leftarrow> modify_item p (\<lambda>i. set_number VSQL_M_INDICATOR (if null then -1 else 0)
         (i\<lparr>data := Some (retrieved c bytes v)\<rparr>)) s;
       (_, s) \<leftarrow> (if null then Some ((), s)
         else vsql_m_set_returned p bytes column_type lengths s);
       Some (rc, s)
     }
   }"

definition vsql_m_get_column ::
  "'w cli \<Rightarrow> int \<Rightarrow> int \<Rightarrow> item_pointer \<Rightarrow> 'w state \<Rightarrow> (int \<times> 'w state) option" where
  "vsql_m_get_column L stmt i p s = do {
     (item, s) \<leftarrow> deref_item p s;
     let (c, bytes) = vsql_m_c_type item;
     (good, s) \<leftarrow> allocate s;
     if \<not> good then Some (SQL_ERROR, s)
     else do {
       (column_type, s) \<leftarrow> (if number item VSQL_M_TYPE \<noteq> SQL_VARCHAR then do {
           ((_, v), s) \<leftarrow> call (SQLColAttributeInt L stmt i SQL_DESC_TYPE) s;
           Some (written_number v, s)
         } else Some (0, s));
       (lengths, s) \<leftarrow> (if column_type = SQL_VARCHAR then count_pieces L stmt i 0 0 s
         else Some ((0, 0), s));
       vsql_m_get_value L stmt i p c bytes column_type lengths s
     }
   }"

text \<open>
  The loop of \<open>vsql_m_into\<close> over the \<open>n\<close> items from \<open>i\<close>, which gives the return code and
  \<open>truncated\<close>.
\<close>

fun get_columns ::
  "'w cli \<Rightarrow> int \<Rightarrow> descriptor_pointer \<Rightarrow> nat \<Rightarrow> nat \<Rightarrow> int \<Rightarrow> bool \<Rightarrow> 'w state
    \<Rightarrow> ((int \<times> bool) \<times> 'w state) option" where
  "get_columns L stmt p 0 i rc truncated s = Some ((rc, truncated), s)"
| "get_columns L stmt p (Suc n) i rc truncated s =
     (if vsql_m_failed rc then Some ((rc, truncated), s)
      else do {
        (rc, s) \<leftarrow> vsql_m_get_column L stmt (cast16 (int i + 1)) (p, i) s;
        get_columns L stmt p n (Suc i) rc (truncated \<or> rc = SQL_SUCCESS_WITH_INFO) s
      })"

text \<open>
  The assignment to the using clause with the number of columns: the return code and \<open>truncated\<close>,
  or nothing when the status parameter has been set, and the using clause with its targets.
\<close>

definition vsql_m_into_using ::
  "'w cli \<Rightarrow> vsql_m_module \<Rightarrow> int \<Rightarrow> int \<Rightarrow> int \<Rightarrow> vsql_m_output \<Rightarrow> 'w state
    \<Rightarrow> (((int \<times> bool) option \<times> vsql_m_output) \<times> 'w state) option" where
  "vsql_m_into_using L M stmt rc columns out s = (case out_descriptor out of
     None \<Rightarrow>
       if out_n out \<noteq> columns then do {
         (_, s) \<leftarrow> vsql_m_status ''07002'' s;
         Some ((None, out), s)
       } else if length (out_targets out) \<noteq> nat (out_n out) then None
       else do {
         ((rc, ts, truncated), s) \<leftarrow> vsql_m_assign_row L stmt rc (out_targets out) s;
         Some ((Some (rc, truncated), out\<lparr>out_targets := ts\<rparr>), s)
       }
   | Some name \<Rightarrow> do {
       (d, s) \<leftarrow> vsql_m_descriptor L M name (out_module out) s;
       case d of
         None \<Rightarrow> Some ((None, out), s)
       | Some d \<Rightarrow> do {
           (good, s) \<leftarrow> vsql_m_items d columns ''07002'' s;
           if \<not> good then Some ((None, out), s)
           else do {
             (r, s) \<leftarrow> get_columns L stmt d (nat columns) 0 rc False s;
             Some ((Some r, out), s)
           }
         }
     })"

definition vsql_m_into ::
  "'w cli \<Rightarrow> vsql_m_module \<Rightarrow> int \<Rightarrow> int \<Rightarrow> vsql_m_output \<Rightarrow> 'w state
    \<Rightarrow> ((bool \<times> vsql_m_output) \<times> 'w state) option" where
  "vsql_m_into L M stmt rc out s = do {
     ((rc, columns), s) \<leftarrow> (if \<not> vsql_m_failed rc \<and> rc \<noteq> SQL_NO_DATA
       then call (SQLNumResultCols L stmt) s else Some ((rc, None), s));
     if vsql_m_failed rc \<or> rc = SQL_NO_DATA then do {
       (_, s) \<leftarrow> vsql_m_diag L rc SQL_HANDLE_STMT stmt s;
       Some ((False, out), s)
     } else do {
       ((r, out), s) \<leftarrow> vsql_m_into_using L M stmt rc (written_number columns) out s;
       case r of
         None \<Rightarrow> Some ((False, out), s)
       | Some (rc, truncated) \<Rightarrow>
           if vsql_m_failed rc then do {
             (_, s) \<leftarrow> vsql_m_diag L rc SQL_HANDLE_STMT stmt s;
             Some ((False, out), s)
           } else do {
             (_, s) \<leftarrow> vsql_m_status (if truncated then ''01004'' else ''00000'') s;
             Some ((True, out), s)
           }
     }
   }"

section \<open>The execute statement\<close>

text \<open>
  Whether the using clause suits a statement with \<open>columns\<close> columns, which is a single row select
  statement if \<open>single\<close>. The status parameter is set if it doesn't.
\<close>

definition vsql_m_suits ::
  "'w cli \<Rightarrow> vsql_m_module \<Rightarrow> int \<Rightarrow> bool \<Rightarrow> vsql_m_output \<Rightarrow> 'w state
    \<Rightarrow> (bool \<times> 'w state) option" where
  "vsql_m_suits L M columns single out s =
     (if columns > 0 then
        if \<not> single then do {
          (_, s) \<leftarrow> vsql_m_status ''07003'' s;
          Some (False, s)
        } else if out_n out < 0 \<and> out_descriptor out = None then do {
          (_, s) \<leftarrow> vsql_m_status ''07007'' s;
          Some (False, s)
        } else Some (True, s\<lparr>da := (da s)\<lparr>dynamic_function := ''SELECT'', dynamic_function_code := 41\<rparr>\<rparr>)
      else (case out_descriptor out of
          Some name \<Rightarrow> do {
            (d, s) \<leftarrow> vsql_m_descriptor L M name (out_module out) s;
            case d of
              None \<Rightarrow> Some (False, s)
            | Some d \<Rightarrow> vsql_m_items d 0 ''07002'' s
          }
        | None \<Rightarrow>
            if out_n out > 0 then do {
              (_, s) \<leftarrow> vsql_m_status ''07002'' s;
              Some (False, s)
            } else Some (True, s)))"

text \<open>\<open>vsql_m_current->active = 1\<close>.\<close>

definition activate :: "'w state \<Rightarrow> (unit \<times> 'w state) option" where
  "activate s = (case current (agent s) of
     None \<Rightarrow> None
   | Some c \<Rightarrow> modify c (\<lambda>k. k\<lparr>c_active := True\<rparr>) s)"

text \<open>The rest of \<open>vsql_m_execute_prepared\<close> once the first row has been fetched.\<close>

definition vsql_m_execute_row ::
  "'w cli \<Rightarrow> vsql_m_module \<Rightarrow> int \<Rightarrow> vsql_m_output \<Rightarrow> 'w state
    \<Rightarrow> ((bool \<times> vsql_m_output) \<times> 'w state) option" where
  "vsql_m_execute_row L M stmt out s = do {
     (rc, s) \<leftarrow> call (SQLFetch L stmt) s;
     ((assigned, out), s) \<leftarrow> vsql_m_into L M stmt rc out s;
     (_, s) \<leftarrow> (if assigned then do {
         (rc, s) \<leftarrow> call (SQLFetch L stmt) s;
         if rc = SQL_SUCCESS \<or> rc = SQL_SUCCESS_WITH_INFO then vsql_m_status ''21000'' s
         else if rc \<noteq> SQL_NO_DATA then vsql_m_diag L rc SQL_HANDLE_STMT stmt s
         else Some ((), s)
       } else Some ((), s));
     (_, s) \<leftarrow> call (SQLCloseCursor L stmt) s;
     Some ((assigned, out), s)
   }"

definition vsql_m_execute_bound ::
  "'w cli \<Rightarrow> vsql_m_module \<Rightarrow> vsql_m_prepared \<Rightarrow> int \<Rightarrow> vsql_m_output \<Rightarrow> 'w state
    \<Rightarrow> ((bool \<times> vsql_m_output) \<times> 'w state) option" where
  "vsql_m_execute_bound L M q columns out s = do {
     (_, s) \<leftarrow> activate s;
     (rc, s) \<leftarrow> call (SQLExecute L (p_stmt q)) s;
     (_, s) \<leftarrow> (if vsql_m_failed rc then Some ((), s) else vsql_m_row_count L (p_stmt q) s);
     if columns = 0 \<or> vsql_m_failed rc then do {
       (_, s) \<leftarrow> vsql_m_diag L rc SQL_HANDLE_STMT (p_stmt q) s;
       Some ((False, out), s)
     } else vsql_m_execute_row L M (p_stmt q) out s
   }"

definition vsql_m_execute_prepared ::
  "'w cli \<Rightarrow> vsql_m_module \<Rightarrow> string \<Rightarrow> vsql_m_input \<Rightarrow> vsql_m_output \<Rightarrow> 'w state
    \<Rightarrow> ((bool \<times> vsql_m_output) \<times> 'w state) option" where
  "vsql_m_execute_prepared L M name using_clause out s = do {
     (p, s) \<leftarrow> vsql_m_prepared_statement L M name s;
     case p of
       None \<Rightarrow> Some ((False, out), s)
     | Some p \<Rightarrow> do {
         (q, s) \<leftarrow> deref_prepared p s;
         f \<leftarrow> strcpy 32 (p_dynamic_function q);
         let s = s\<lparr>da := (da s)\<lparr>dynamic_function := f,
           dynamic_function_code := p_dynamic_function_code q\<rparr>\<rparr>;
         ((_, n), s) \<leftarrow> call (SQLNumResultCols L (p_stmt q)) s;
         let columns = written_number n;
         (good, s) \<leftarrow> vsql_m_suits L M columns (snd (vsql_m_scan (p_sql q))) out s;
         if \<not> good then Some ((False, out), s)
         else do {
           (q, s) \<leftarrow> deref_prepared p s;
           (good, s) \<leftarrow> vsql_m_bind L M (p_stmt q) (p_sql q) using_clause s;
           if \<not> good then Some ((False, out), s)
           else do {
             (q, s) \<leftarrow> deref_prepared p s;
             vsql_m_execute_bound L M q columns out s
           }
         }
       }
   }"

section \<open>The execute immediate statement\<close>

definition vsql_m_dynamic_function ::
  "'w cli \<Rightarrow> int \<Rightarrow> 'w state \<Rightarrow> (unit \<times> 'w state) option" where
  "vsql_m_dynamic_function L stmt s = do {
     ((_, f), s) \<leftarrow>
       call (SQLGetDiagFieldText L SQL_HANDLE_STMT stmt 0 SQL_DIAG_DYNAMIC_FUNCTION 32) s;
     let s = output_da (\<lambda>t d. d\<lparr>dynamic_function := in_buffer 32 t\<rparr>) f s;
     ((_, n), s) \<leftarrow>
       call (SQLGetDiagFieldInt L SQL_HANDLE_STMT stmt 0 SQL_DIAG_DYNAMIC_FUNCTION_CODE) s;
     Some ((), output_da (\<lambda>k d. d\<lparr>dynamic_function_code := k\<rparr>) n s)
   }"

definition vsql_m_execute_immediate ::
  "'w cli \<Rightarrow> vsql_m_module \<Rightarrow> string \<Rightarrow> 'w state \<Rightarrow> (unit \<times> 'w state) option" where
  "vsql_m_execute_immediate L M sql s = do {
     (c, s) \<leftarrow> vsql_m_connection L M s;
     case c of
       None \<Rightarrow> Some ((), s)
     | Some c \<Rightarrow>
         if fst (vsql_m_scan sql) > 0 then vsql_m_status ''42000'' s
         else do {
           (k, s) \<leftarrow> deref c s;
           ((rc, stmt), s) \<leftarrow> call (SQLAllocHandle L SQL_HANDLE_STMT (c_dbc k)) s;
           if vsql_m_failed rc then vsql_m_diag L rc SQL_HANDLE_DBC (c_dbc k) s
           else do {
             (rc, s) \<leftarrow> call (SQLPrepare L stmt sql) s;
             ((rc, columns), s) \<leftarrow> (if vsql_m_failed rc then Some ((rc, None), s)
               else do {
                 (_, s) \<leftarrow> vsql_m_dynamic_function L stmt s;
                 call (SQLNumResultCols L stmt) s
               });
             if \<not> vsql_m_failed rc \<and> written_number columns > 0 then do {
               (_, s) \<leftarrow> vsql_m_status ''42000'' s;
               (_, s) \<leftarrow> call (SQLFreeHandle L SQL_HANDLE_STMT stmt) s;
               Some ((), s)
             } else do {
               (rc, s) \<leftarrow> (if vsql_m_failed rc then Some (rc, s)
                 else do {
                   (_, s) \<leftarrow> modify c (\<lambda>k. k\<lparr>c_active := True\<rparr>) s;
                   call (SQLExecute L stmt) s
                 });
               (_, s) \<leftarrow> (if vsql_m_failed rc then Some ((), s) else vsql_m_row_count L stmt s);
               (_, s) \<leftarrow> vsql_m_diag L rc SQL_HANDLE_STMT stmt s;
               (_, s) \<leftarrow> call (SQLFreeHandle L SQL_HANDLE_STMT stmt) s;
               Some ((), s)
             }
           }
         }
   }"

section \<open>Dynamic cursors\<close>

text \<open>The statement of a cursor that couldn't be opened is freed.\<close>

definition vsql_m_reset_cursor ::
  "'w cli \<Rightarrow> vsql_m_module \<Rightarrow> nat \<Rightarrow> int \<Rightarrow> 'w state \<Rightarrow> (unit \<times> 'w state) option" where
  "vsql_m_reset_cursor L M i stmt s = do {
     (_, s) \<leftarrow> call (SQLFreeHandle L SQL_HANDLE_STMT stmt) s;
     case current (agent s) of
       None \<Rightarrow> None
     | Some c \<Rightarrow> do {
         (good, s) \<leftarrow> vsql_m_cursors M c s;
         if good then cursors_set M c i 0 s else None
       }
   }"

definition vsql_m_open_dynamic ::
  "'w cli \<Rightarrow> vsql_m_module \<Rightarrow> nat \<Rightarrow> string \<Rightarrow> bool \<Rightarrow> string \<Rightarrow> vsql_m_input \<Rightarrow> 'w state
    \<Rightarrow> (unit \<times> 'w state) option" where
  "vsql_m_open_dynamic L M i name hold statement using_clause s = do {
     (p, s) \<leftarrow> vsql_m_prepared_statement L M statement s;
     case p of
       None \<Rightarrow> Some ((), s)
     | Some p \<Rightarrow> do {
         (q, s) \<leftarrow> deref_prepared p s;
         ((_, n), s) \<leftarrow> call (SQLNumResultCols L (p_stmt q)) s;
         if written_number n = 0 then vsql_m_status ''07005'' s
         else do {
           (stmt, s) \<leftarrow> vsql_m_cursor L M i (Some name) hold s;
           if stmt = 0 then Some ((), s)
           else do {
             (q, s) \<leftarrow> deref_prepared p s;
             (rc, s) \<leftarrow> call (SQLPrepare L stmt (p_sql q)) s;
             if vsql_m_failed rc then do {
               (_, s) \<leftarrow> vsql_m_diag L rc SQL_HANDLE_STMT stmt s;
               if sqlstate s = ''24000'' then Some ((), s)
               else vsql_m_reset_cursor L M i stmt s
             } else do {
               (good, s) \<leftarrow> vsql_m_bind L M stmt (p_sql q) using_clause s;
               if \<not> good then vsql_m_reset_cursor L M i stmt s
               else do {
                 (_, s) \<leftarrow> activate s;
                 (rc, s) \<leftarrow> call (SQLExecute L stmt) s;
                 (_, s) \<leftarrow> vsql_m_diag L rc SQL_HANDLE_STMT stmt s;
                 if vsql_m_failed rc then vsql_m_reset_cursor L M i stmt s else Some ((), s)
               }
             }
           }
         }
       }
   }"

definition vsql_m_fetch_dynamic ::
  "'w cli \<Rightarrow> vsql_m_module \<Rightarrow> nat \<Rightarrow> vsql_m_output \<Rightarrow> 'w state
    \<Rightarrow> ((bool \<times> vsql_m_output) \<times> 'w state) option" where
  "vsql_m_fetch_dynamic L M i out s = do {
     (stmt, s) \<leftarrow> vsql_m_cursor L M i None False s;
     if stmt = 0 then Some ((False, out), s)
     else do {
       (rc, s) \<leftarrow> call (SQLFetch L stmt) s;
       vsql_m_into L M stmt rc out s
     }
   }"

section \<open>Items that are valid\<close>

text \<open>The first \<open>n\<close> items of the descriptor at \<open>p\<close> are valid.\<close>

definition ready_at :: "nat \<Rightarrow> descriptor_pointer \<Rightarrow> vsql_m_agent \<Rightarrow> bool" where
  "ready_at n p a \<longleftrightarrow> descriptor_at p a \<and> n \<le> length (d_items (the_descriptor p a)) \<and>
     (\<forall>j<n. vsql_m_valid (d_items (the_descriptor p a) ! j))"

lemma ready_at_item:
  "ready_at n p a \<Longrightarrow> j < n \<Longrightarrow> item_at (p, j) a \<and> vsql_m_valid (the_item (p, j) a)"
  by (simp add: ready_at_def item_at_def the_item_def)

lemma valid_items_nth:
  "valid_items n items = Some True \<Longrightarrow> n \<le> length items \<and> (\<forall>j<n. vsql_m_valid (items ! j))"
  by (induction n items rule: valid_items.induct) (auto simp: less_Suc_eq_0_disj split: if_splits)

lemma ready_atI:
  "descriptor_at p a \<Longrightarrow> valid_items n (d_items (the_descriptor p a)) = Some True \<Longrightarrow> ready_at n p a"
  using valid_items_nth by (simp add: ready_at_def)

lemma vsql_m_valid_cong:
  assumes "\<And>n. n \<in> {VSQL_M_TYPE, VSQL_M_LENGTH, VSQL_M_PRECISION, VSQL_M_SCALE,
    VSQL_M_DATETIME_INTERVAL_CODE, VSQL_M_LEVEL} \<Longrightarrow> number i n = number j n"
  shows "vsql_m_valid i = vsql_m_valid j"
  unfolding vsql_m_valid_def Let_def by (simp only: assms insertI1 insertI2)

lemma valid_datetime:
  "vsql_m_valid i \<Longrightarrow> cast16 (number i VSQL_M_TYPE) = SQL_DATETIME \<Longrightarrow>
   1 \<le> number i VSQL_M_DATETIME_INTERVAL_CODE \<and> number i VSQL_M_DATETIME_INTERVAL_CODE \<le> 5"
  by (auto simp: vsql_m_valid_def Let_def codes cast16_def split: if_splits)

text \<open>An item is changed and stays valid.\<close>

lemma modify_ready:
  assumes s: "invar J cc X s" "settled (agent s)" "ready_at n p (agent s)" "j < n"
    and f: "wf_item (the_item (p, j) (agent s)) \<Longrightarrow> wf_item (f (the_item (p, j) (agent s)))"
      "vsql_m_valid (f (the_item (p, j) (agent s))) = vsql_m_valid (the_item (p, j) (agent s))"
    and Q: "\<And>s'. invar J cc X s' \<Longrightarrow> settled (agent s') \<Longrightarrow> ready_at n p (agent s') \<Longrightarrow>
      the_item (p, j) (agent s') = f (the_item (p, j) (agent s)) \<Longrightarrow>
      same_session (fst p) (agent s) (agent s') \<Longrightarrow> Q () s'"
  shows "ok (modify_item (p, j) f s) Q"
proof -
  note item = ready_at_item [OF s(3,4)]
  have d: "descriptor_at p (agent s)" using s(3) by (simp add: ready_at_def)
  let ?d = "the_descriptor p (agent s)"
  have j: "j < length (d_items ?d)" using item by (simp add: item_at_def)
  show ?thesis
    unfolding modify_item_def
  proof (simp add: deref_item_eq item, rule modify_descriptor_invar [OF s(1,2) d])
    show "wf_descriptor (set_item j f ?d)" if "wf_descriptor ?d"
      using that f(1) j by (auto simp: wf_descriptor_def set_item_def the_item_def
          dest!: set_update_subset_insert [THEN subsetD])
    fix s' :: "'a state"
    assume s': "invar J cc X s'" "settled (agent s')" "descriptor_at p (agent s')"
      "the_descriptor p (agent s') = set_item j f ?d" "same_session (fst p) (agent s) (agent s')"
    have "ready_at n p (agent s')"
      using s(3,4) s'(3,4) f(2) item j
      by (auto simp: ready_at_def set_item_def the_item_def nth_list_update)
    then show "Q () s'"
      using s' j by (intro Q) (simp_all add: the_item_def set_item_def)
  qed (simp add: d_key_def set_item_def)
qed

lemma same_session_refl: "live c a \<Longrightarrow> same_session c a a"
  by simp

lemma same_session_trans: "same_session c a b \<Longrightarrow> same_session c b d \<Longrightarrow> same_session c a d"
  by simp

lemma ready_at_live: "ready_at n p a \<Longrightarrow> live (fst p) a"
  by (simp add: ready_at_def descriptor_at_def)

lemma prepared_at_same: "prepared_at p a \<Longrightarrow> same_session (fst p) a b \<Longrightarrow> prepared_at p b"
  by (simp add: prepared_at_def)

lemma the_prepared_same: "same_session (fst p) a b \<Longrightarrow> the_prepared p b = the_prepared p a"
  by (simp add: the_prepared_def)

lemma c_type_item: "fst (vsql_m_c_type i) = item_c_type (number i VSQL_M_TYPE)"
  by (auto simp: vsql_m_c_type_def item_c_type_def Let_def codes)

section \<open>Rules of the input\<close>

text \<open>The host parameters that an input or an output using clause must have.\<close>

definition wf_input :: "vsql_m_input \<Rightarrow> bool" where
  "wf_input x \<longleftrightarrow> (in_descriptor x = None \<longrightarrow> length (in_params x) = nat (in_n x))"

definition wf_output :: "vsql_m_output \<Rightarrow> bool" where
  "wf_output x \<longleftrightarrow> (out_descriptor x = None \<longrightarrow>
     length (out_targets x) = nat (out_n x) \<and> (\<forall>t\<in>set (out_targets x). wf_target t))"

lemma same_session_held: "same_session c a b \<Longrightarrow> held b = held a"
  by simp

context runtime
begin

lemma at_cursor_same: "at_cursor M i h c a \<Longrightarrow> same_session c a b \<Longrightarrow> at_cursor M i h c b"
  by (auto simp: at_cursor_def slots_def find_cursors_def)

lemma vsql_m_bind_item_ok:
  assumes s: "invar J cursor_count X s" "settled (agent s)" "ready_at n p (agent s)" "j < n"
    "(SQL_HANDLE_STMT, stmt) \<in># held (agent s) + X"
    and Q: "\<And>rc s'. invar J cursor_count X s' \<Longrightarrow> settled (agent s') \<Longrightarrow> ready_at n p (agent s') \<Longrightarrow>
      same_session (fst p) (agent s) (agent s') \<Longrightarrow> Q rc s'"
  shows "ok (vsql_m_bind_item L stmt i (p, j) s) Q"
proof -
  note item = ready_at_item [OF s(3,4)]
  let ?x = "the_item (p, j) (agent s)"
  have "\<exists>t. int32 (SQL_TYPE_DATE - SQL_CODE_DATE +
      number ?x VSQL_M_DATETIME_INTERVAL_CODE) = Some t"
    if "cast16 (number ?x VSQL_M_TYPE) = SQL_DATETIME"
    using valid_datetime [OF conjunct2 [OF item] that] by (simp add: int32_def codes)
  then have datetime: "\<exists>t. (if cast16 (number ?x VSQL_M_TYPE) = SQL_DATETIME
      then map_option cast16 (int32 (SQL_TYPE_DATE - SQL_CODE_DATE +
        number ?x VSQL_M_DATETIME_INTERVAL_CODE))
      else Some (cast16 (number ?x VSQL_M_TYPE))) = Some t"
    by auto
  have modify: "ok (modify_item (p, j) (\<lambda>i. i\<lparr>ind_length := k\<rparr>) s) R"
    if "\<And>s'. invar J cursor_count X s' \<Longrightarrow> settled (agent s') \<Longrightarrow> ready_at n p (agent s') \<Longrightarrow>
      same_session (fst p) (agent s) (agent s') \<Longrightarrow> R () s'" for k R
    by (rule modify_ready [OF s(1-4)]) (auto intro!: that vsql_m_valid_cong simp: wf_item_def simp del: same_session_def)
  have bind: "ok (call (SQLBindParameter L stmt i m c t z d v k) s') Q"
    if "invar J cursor_count X s'" "settled (agent s')" "ready_at n p (agent s')"
      "same_session (fst p) (agent s) (agent s')" for m c t z d v k s'
  proof (rule call_preserves [OF that(1)])
    show "preserves J (held (agent s') + X) (SQLBindParameter L stmt i m c t z d v k)"
      using s(5) same_session_held [OF that(4)] by (intro uses) (simp del: same_session_def)
  qed (use that in \<open>auto intro!: Q simp del: same_session_def\<close>)
  obtain t where "(if cast16 (number ?x VSQL_M_TYPE) = SQL_DATETIME
      then map_option cast16 (int32 (SQL_TYPE_DATE - SQL_CODE_DATE +
        number ?x VSQL_M_DATETIME_INTERVAL_CODE))
      else Some (cast16 (number ?x VSQL_M_TYPE))) = Some t"
    using datetime by blast
  then show ?thesis
    unfolding vsql_m_bind_item_def Let_def
    by (simp add: deref_item_eq item) (intro conjI impI modify bind)
qed

lemma bind_items_ok:
  assumes s: "invar J cursor_count X s" "settled (agent s)" "ready_at m p (agent s)" "i + n \<le> m"
    "(SQL_HANDLE_STMT, stmt) \<in># held (agent s) + X"
    and Q: "\<And>rc s'. invar J cursor_count X s' \<Longrightarrow> settled (agent s') \<Longrightarrow>
      same_session (fst p) (agent s) (agent s') \<Longrightarrow> (rc = None \<longrightarrow> length (sqlstate s') = 5) \<Longrightarrow> Q rc s'"
  shows "ok (bind_items L stmt p n i rc s) Q"
  using assms
proof (induction n arbitrary: i rc s)
  case 0
  then show ?case using ready_at_live [OF "0"(3)] by simp
next
  case (Suc n)
  note item = ready_at_item [OF Suc.prems(3), of i]
  note refl = same_session_refl [OF ready_at_live [OF Suc.prems(3)]]
  have status: "ok (vsql_m_status ''07001'' s) (\<lambda>_. Q None)"
    by (rule vsql_m_status_ok [OF Suc.prems(1)])
      (auto intro!: Suc.prems(6) refl simp: Suc.prems(2) simp del: same_session_def)
  have bind: "ok (vsql_m_bind_item L stmt k (p, i) s) (\<lambda>rc. ok' rc)"
    if R: "\<And>rc s'. invar J cursor_count X s' \<Longrightarrow> settled (agent s') \<Longrightarrow> ready_at m p (agent s') \<Longrightarrow>
      same_session (fst p) (agent s) (agent s') \<Longrightarrow> ok' rc s'" for k ok'
    using Suc.prems(4) by (intro vsql_m_bind_item_ok [OF Suc.prems(1-3) _ Suc.prems(5)] R) auto
  have rest: "ok (bind_items L stmt p n (Suc i) rc s') Q"
    if t: "invar J cursor_count X s'" "settled (agent s')" "ready_at m p (agent s')"
      "same_session (fst p) (agent s) (agent s')" for rc s'
  proof (rule Suc.IH [OF t(1-3)])
    show "Suc i + n \<le> m" using Suc.prems(4) by simp
    show "(SQL_HANDLE_STMT, stmt) \<in># held (agent s') + X"
      using Suc.prems(5) same_session_held [OF t(4)] by simp
    show "Q rc s''" if "invar J cursor_count X s''" "settled (agent s'')"
      "same_session (fst p) (agent s') (agent s'')" "rc = None \<longrightarrow> length (sqlstate s'') = 5" for rc s''
      using that same_session_trans [OF t(4) that(3)] by (intro Suc.prems(6))
  qed
  show ?case
    using item Suc.prems(4) Suc.prems(6) [OF Suc.prems(1,2) refl]
    by (simp add: deref_item_eq) (intro conjI impI status bind rest)
qed

lemma vsql_m_bind_using_ok:
  assumes s: "invar J cursor_count X s" "settled (agent s)" "current (agent s) = Some c"
    "(SQL_HANDLE_STMT, stmt) \<in># held (agent s) + X" "wf_input u"
    and Q: "\<And>rc s'. invar J cursor_count X s' \<Longrightarrow> settled (agent s') \<Longrightarrow>
      same_session c (agent s) (agent s') \<Longrightarrow> (rc = None \<longrightarrow> length (sqlstate s') = 5) \<Longrightarrow> Q rc s'"
  shows "ok (vsql_m_bind_using L M stmt n u s) Q"
proof -
  have refl: "same_session c (agent s) (agent s)"
    using invar_current [OF s(1,3)] by (rule same_session_refl)
  have status: "ok (vsql_m_status code t) (\<lambda>_. Q None)"
    if "invar J cursor_count X t" "settled (agent t)" "same_session c (agent s) (agent t)" "length code = 5"
    for t code
    using that(2-4) by (intro vsql_m_status_ok [OF that(1)]) (auto intro!: Q simp del: same_session_def)
  show ?thesis
  proof (cases "in_descriptor u")
    case None
    then have "length (in_params u) = nat (in_n u)" using s(5) by (simp add: wf_input_def)
    then show ?thesis
      unfolding vsql_m_bind_using_def using None s(1-4) refl
      by (auto intro!: status vsql_m_bind_params_ok [OF s(1,4)] Q simp del: same_session_def)
  next
    case (Some name)
    have items: "ok (vsql_m_items d n ''07001'' t)
        (\<lambda>b s. (\<not> b \<longrightarrow> Q None s) \<and> (b \<longrightarrow> ok (bind_items L stmt d (nat n) 0 SQL_SUCCESS s) Q))"
      if t: "invar J cursor_count X t" "settled (agent t)" "same_session c (agent s) (agent t)"
        "descriptor_at d (agent t)" "fst d = c" for d t
    proof (rule vsql_m_items_ok [OF t(1,2,4)])
      assume valid: "valid_items (nat n) (d_items (the_descriptor d (agent t))) = Some True"
      have "(SQL_HANDLE_STMT, stmt) \<in># held (agent t) + X"
        using s(4) same_session_held [OF t(3)] by simp
      then have "ok (bind_items L stmt d (nat n) 0 SQL_SUCCESS t) Q"
        using same_session_trans [OF t(3)] t(5)
        by (intro bind_items_ok [OF t(1,2) ready_atI [OF t(4) valid]] Q) (simp_all del: same_session_def)
      then show "(\<not> True \<longrightarrow> Q None t) \<and> (True \<longrightarrow> ok (bind_items L stmt d (nat n) 0 SQL_SUCCESS t) Q)"
        by simp
    qed (use t in \<open>auto intro!: Q simp del: same_session_def\<close>)
    show ?thesis
      unfolding vsql_m_bind_using_def using Some
      by (simp, intro vsql_m_descriptor_same [OF s(1-3)])
        (auto intro!: items Q simp del: same_session_def)
  qed
qed

lemma vsql_m_bind_ok:
  assumes s: "invar J cursor_count X s" "settled (agent s)" "current (agent s) = Some c"
    "(SQL_HANDLE_STMT, stmt) \<in># held (agent s) + X" "wf_input u"
    and bad: "\<And>s'. invar J cursor_count X s' \<Longrightarrow> settled (agent s') \<Longrightarrow>
      same_session c (agent s) (agent s') \<Longrightarrow> length (sqlstate s') = 5 \<Longrightarrow> Q False s'"
    and good: "\<And>s'. invar J cursor_count X s' \<Longrightarrow> settled (agent s') \<Longrightarrow>
      same_session c (agent s) (agent s') \<Longrightarrow> Q True s'"
  shows "ok (vsql_m_bind L M stmt sql u s) Q"
proof -
  have diag: "ok (vsql_m_diag L rc SQL_HANDLE_STMT stmt t) (\<lambda>_. Q False)"
    if "invar J cursor_count X t" "settled (agent t)" "same_session c (agent s) (agent t)" for rc t
  proof (rule vsql_m_diag_ok [OF that(1)])
    show "(SQL_HANDLE_STMT, stmt) \<in># held (agent t) + X"
      using s(4) same_session_held [OF that(3)] by simp
  qed (use that in \<open>auto intro!: bad simp del: same_session_def\<close>)
  show ?thesis
    unfolding vsql_m_bind_def
    by (simp, intro vsql_m_bind_using_ok [OF s])
      (auto intro!: diag bad good simp del: same_session_def)
qed

section \<open>Rules of the output\<close>

text \<open>Reading a value in pieces ends, since each piece makes the rest of the value shorter.\<close>

lemma count_pieces_ok:
  assumes \<mu>: "retrieves_text L \<mu>" and s: "invar J cursor_count X s"
    and held: "(SQL_HANDLE_STMT, stmt) \<in># held (agent s) + X"
    and bound: "0 \<le> characters" "characters \<le> octets" "octets + int (\<mu> stmt i (world s)) < 2 ^ 31"
    and Q: "\<And>r s'. invar J cursor_count X s' \<Longrightarrow> agent s' = agent s \<Longrightarrow> sqlstate s' = sqlstate s \<Longrightarrow> Q r s'"
  shows "ok (count_pieces L stmt i characters octets s) Q"
  using s held bound Q
proof (induction "\<mu> stmt i (world s)" arbitrary: s characters octets rule: less_induct)
  case less
  have step: "ok (do {
      b \<leftarrow> piece_text v;
      characters \<leftarrow> int32 (characters + vsql_m_characters b);
      octets \<leftarrow> int32 (octets + int (length b));
      if rc = SQL_SUCCESS_WITH_INFO then count_pieces L stmt i characters octets s'
      else Some ((characters, octets), s')
    }) Q"
    if call: "SQLGetData L stmt i SQL_CHAR 256 False (world s) = ((rc, v, n), world s')"
      and s': "invar J cursor_count X s'" "agent s' = agent s" "sqlstate s' = sqlstate s" for rc v n s'
  proof -
    note piece = retrieves_textD [OF \<mu> _ call]
    have "\<exists>b. piece_text v = Some b \<and> int (length b) +
        (if rc = SQL_SUCCESS_WITH_INFO then int (\<mu> stmt i (world s')) else 0) \<le> int (\<mu> stmt i (world s))"
    proof (cases "completed rc")
      case True
      then obtain x where v: "v = Some (CText x)"
        using writes_dataD [OF cli_contractD(3) [OF contract] call] has_c_type_text by blast
      then show ?thesis
        using piece(2) [OF _ True v] by (auto simp: piece_text_def split: if_splits)
    next
      case False
      then show ?thesis
        using piece(4) by (auto simp: piece_text_def completed_def)
    qed
    then obtain b where b: "piece_text v = Some b" "int (length b) +
        (if rc = SQL_SUCCESS_WITH_INFO then int (\<mu> stmt i (world s')) else 0) \<le> int (\<mu> stmt i (world s))"
      by blast
    let ?k = "characters + vsql_m_characters b" and ?m = "octets + int (length b)"
    have range: "0 \<le> ?k" "?k \<le> ?m"
      "?m + (if rc = SQL_SUCCESS_WITH_INFO then int (\<mu> stmt i (world s')) else 0) < 2 ^ 31"
      using less.prems(3-5) b(2) characters_le [of b] by auto
    then have "int32 ?k = Some ?k" "int32 ?m = Some ?m"
      by (auto simp: int32_def split: if_splits)
    moreover have "ok (count_pieces L stmt i ?k ?m s') Q" if "rc = SQL_SUCCESS_WITH_INFO"
      using that piece(3) s' less.prems(2,6) range by (intro less.hyps) auto
    ultimately show ?thesis
      using b(1) s' less.prems(6) by simp
  qed
  show ?case
    by (subst count_pieces.simps, simp, rule call_preserves [OF less.prems(1)])
      (auto intro!: uses less.prems(2) step [simplified])
qed

text \<open>A value that is padded to its length fits in the buffer of its item.\<close>

lemma pad_fits:
  assumes "utf8_piece x" "length x \<le> 4 * l" "0 < l"
  shows "length x + nat (int l - vsql_m_characters x) < 4 * l + 1"
proof -
  let ?n = "length (filter (\<lambda>c. \<not> continuation c) x)"
  have "length x \<le> 4 * ?n + 3" using assms(1) utf8_from_length unfolding utf8_piece_def by blast
  moreover have "nat (int l - vsql_m_characters x) = l - ?n"
    by (simp add: vsql_m_characters_def nat_minus_as_int)
  ultimately show ?thesis using assms(2,3) by (cases "?n < l") auto
qed

lemma set_returned_simps [simp]:
  "data (set_returned n i) = data i"
  "m \<noteq> VSQL_M_RETURNED_LENGTH \<Longrightarrow> m \<noteq> VSQL_M_RETURNED_OCTET_LENGTH \<Longrightarrow>
     number (set_returned n i) m = number i m"
  by (simp_all add: set_returned_def set_number_def)

lemma wf_set_returned: "wf_item i \<Longrightarrow> wf_item (set_returned n i)"
  by (auto simp: wf_item_def set_returned_def set_number_def)

text \<open>What DATA of a character string item is when its value has been retrieved.\<close>

definition padable :: "vsql_m_item \<Rightarrow> int \<Rightarrow> bool" where
  "padable i bytes \<longleftrightarrow> (number i VSQL_M_TYPE = SQL_CHAR \<or> number i VSQL_M_TYPE = SQL_VARCHAR \<longrightarrow>
     (\<exists>x. data i = Some (CText x) \<and> utf8_piece x \<and> int (length x) < bytes) \<and>
     bytes = number i VSQL_M_LENGTH * 4 + 1 \<and> 1 \<le> number i VSQL_M_LENGTH)"

lemma pad_item_ok:
  assumes s: "invar J cursor_count X s" "settled (agent s)" "ready_at n p (agent s)" "j < n"
    and pad: "padable (the_item (p, j) (agent s)) bytes"
      "number (the_item (p, j) (agent s)) VSQL_M_TYPE = SQL_CHAR"
    and Q: "\<And>s'. invar J cursor_count X s' \<Longrightarrow> settled (agent s') \<Longrightarrow> ready_at n p (agent s') \<Longrightarrow>
      number (the_item (p, j) (agent s')) = number (the_item (p, j) (agent s)) \<Longrightarrow>
      same_session (fst p) (agent s) (agent s') \<Longrightarrow> Q () s'"
  shows "ok (pad_item (p, j) bytes s) Q"
proof -
  let ?i = "the_item (p, j) (agent s)"
  obtain x where x: "data ?i = Some (CText x)" "utf8_piece x" "int (length x) < bytes"
    and bytes: "bytes = number ?i VSQL_M_LENGTH * 4 + 1" "1 \<le> number ?i VSQL_M_LENGTH"
    using pad by (auto simp: padable_def)
  let ?l = "nat (number ?i VSQL_M_LENGTH)"
  have "length x + nat (int ?l - vsql_m_characters x) < 4 * ?l + 1"
    using x bytes by (intro pad_fits) auto
  then have "length (x @ replicate (nat (number ?i VSQL_M_LENGTH - vsql_m_characters x)) CHR '' '')
      < nat bytes"
    using bytes by (simp add: nat_add_distrib nat_mult_distrib)
  note copy = strcpy_ok [OF this]
  have "wf_item (?i\<lparr>data := Some (CText y)\<rparr>)" if "wf_item ?i" for y
    using that pad(2) by (simp add: wf_item_def has_c_type_def item_c_type_def codes)
  then show ?thesis
    unfolding pad_item_def using x(1) copy ready_at_item [OF s(3,4)]
    by (auto simp: deref_item_eq text_of_def simp del: same_session_def
        intro!: modify_ready [OF s] vsql_m_valid_cong Q)
qed

lemma vsql_m_set_returned_ok:
  assumes s: "invar J cursor_count X s" "settled (agent s)" "ready_at n p (agent s)" "j < n"
    and pad: "padable (the_item (p, j) (agent s)) bytes"
    and Q: "\<And>s'. invar J cursor_count X s' \<Longrightarrow> settled (agent s') \<Longrightarrow> ready_at n p (agent s') \<Longrightarrow>
      same_session (fst p) (agent s) (agent s') \<Longrightarrow> Q () s'"
  shows "ok (vsql_m_set_returned (p, j) bytes column_type lengths s) Q"
proof -
  let ?i = "the_item (p, j) (agent s)"
  note item = ready_at_item [OF s(3,4)]
  have set: "ok (modify_item (p, j) (set_returned k) t) Q"
    if t: "invar J cursor_count X t" "settled (agent t)" "ready_at n p (agent t)"
      "same_session (fst p) (agent s) (agent t)" for k t
    using same_session_trans [OF t(4)]
    by (intro modify_ready [OF t(1-3) s(4)] wf_set_returned vsql_m_valid_cong Q) (auto simp del: same_session_def)
  have refl: "same_session (fst p) (agent s) (agent s)"
    using ready_at_live [OF s(3)] by (rule same_session_refl)
  consider "number ?i VSQL_M_TYPE = SQL_CHAR" | "number ?i VSQL_M_TYPE = SQL_VARCHAR"
    | "number ?i VSQL_M_TYPE \<noteq> SQL_CHAR" "number ?i VSQL_M_TYPE \<noteq> SQL_VARCHAR"
    by blast
  then show ?thesis
  proof cases
    case 1
    have "SQL_CHAR \<noteq> SQL_VARCHAR" by (simp add: codes)
    then have "ok (pad_item (p, j) bytes s) (\<lambda>_ s'. ok (do {
        (item, s) \<leftarrow> deref_item (p, j) s';
        if number item VSQL_M_TYPE = SQL_VARCHAR then do {
          x \<leftarrow> text_of (data item);
          modify_item (p, j) (set_returned (vsql_m_characters x, cast32 (int (length x)))) s
        } else if column_type = SQL_VARCHAR then modify_item (p, j) (set_returned lengths) s
        else Some ((), s)
      }) Q)"
      using ready_at_item [OF _ s(4)] 1
      by (intro pad_item_ok [OF s pad 1]) (auto simp: deref_item_eq simp del: same_session_def intro!: set Q)
    then show ?thesis
      unfolding vsql_m_set_returned_def using 1 item by (simp add: deref_item_eq)
  next
    case 2
    moreover obtain x where "data ?i = Some (CText x)" using pad 2 by (auto simp: padable_def)
    moreover have "SQL_VARCHAR \<noteq> SQL_CHAR" by (simp add: codes)
    ultimately show ?thesis
      unfolding vsql_m_set_returned_def using item set [OF s(1-3) refl]
      by (simp add: deref_item_eq text_of_def)
  next
    case 3
    then show ?thesis
      unfolding vsql_m_set_returned_def using item set [OF s(1-3) refl] Q [OF s(1-3) refl]
      by (simp add: deref_item_eq)
  qed
qed

lemma cast32_le: "- (2 ^ 31) \<le> x \<Longrightarrow> cast32 x \<le> x"
  unfolding cast32_def using zmod_le_nonneg_dividend [of "x + 2 ^ 31" "2 ^ 32"] by simp

text \<open>What SQLGetData has written for an item that is valid.\<close>

definition received :: "vsql_m_item \<Rightarrow> cval option \<Rightarrow> bool \<Rightarrow> vsql_m_item" where
  "received item v null = set_number VSQL_M_INDICATOR (if null then -1 else 0)
     (item\<lparr>data := Some (retrieved (fst (vsql_m_c_type item)) (snd (vsql_m_c_type item)) v)\<rparr>)"

lemma retrieved_type: "has_c_type c y \<Longrightarrow> has_c_type c (retrieved c b (Some y))"
  by (auto simp: retrieved_def has_c_type_def split: cval.splits)

lemma wf_received:
  assumes "wf_item item" "vsql_m_valid item"
    and "\<not> null \<Longrightarrow> \<exists>y. v = Some y \<and> has_c_type (fst (vsql_m_c_type item)) y"
  shows "wf_item (received item v null)" "vsql_m_valid (received item v null) = vsql_m_valid item"
proof -
  show "vsql_m_valid (received item v null) = vsql_m_valid item"
    by (rule vsql_m_valid_cong) (auto simp: received_def set_number_def)
  show "wf_item (received item v null)"
    using assms(1,3) retrieved_type
    by (cases null) (auto simp: received_def set_number_def wf_item_def c_type_item cast32_def)
qed

lemma padable_received:
  assumes item: "wf_item item" "vsql_m_valid item" and \<mu>: "retrieves_text L \<mu>"
    and call: "SQLGetData L stmt i (fst (vsql_m_c_type item)) (cast32 (snd (vsql_m_c_type item))) True w =
      ((rc, v, m), w')" "completed rc"
    and y: "v = Some y" "has_c_type (fst (vsql_m_c_type item)) y"
  shows "padable (received item v False) (snd (vsql_m_c_type item))"
proof (cases "number item VSQL_M_TYPE = SQL_CHAR \<or> number item VSQL_M_TYPE = SQL_VARCHAR")
  case False
  then show ?thesis by (simp add: padable_def received_def set_number_def)
next
  case True
  let ?l = "number item VSQL_M_LENGTH"
  have len: "1 \<le> ?l" using True item(2) by (auto simp: vsql_m_valid_def Let_def split: if_splits)
  have "?l < 2 ^ 31" using item(1) cast32_range(2) [of ?l] by (simp add: wf_item_def)
  then have c: "vsql_m_c_type item = (SQL_CHAR, ?l * 4 + 1)"
    using True len by (auto simp: vsql_m_c_type_def Let_def codes)
  obtain x where x: "y = CText x" using y(2) has_c_type_text unfolding c by auto
  let ?b = "cast32 (?l * 4 + 1)"
  have utf8: "utf8_piece (in_buffer (nat ?b) x)"
  proof (cases "2 \<le> ?b")
    case True
    have "utf8_piece x"
      using retrieves_textD(2) [OF \<mu> True call(1) [unfolded c fst_conv snd_conv] call(2)] y(1) x by simp
    then show ?thesis by (rule utf8_piece_in_buffer)
  next
    case False
    then show ?thesis by (simp add: in_buffer_def utf8_piece_def)
  qed
  have "?b \<le> ?l * 4 + 1"
    using cast32_le len by simp
  moreover have "length (in_buffer (nat ?b) x) \<le> nat ?b - 1" by (rule length_in_buffer)
  ultimately have "int (length (in_buffer (nat ?b) x)) < ?l * 4 + 1"
    using len by linarith
  then show ?thesis
    using utf8 len by (auto simp: padable_def received_def set_number_def retrieved_def c y(1) x)
qed

lemma vsql_m_get_column_ok:
  assumes s: "invar J cursor_count X s" "settled (agent s)" "ready_at n p (agent s)" "j < n"
    "(SQL_HANDLE_STMT, stmt) \<in># held (agent s) + X"
    and Q: "\<And>rc s'. invar J cursor_count X s' \<Longrightarrow> settled (agent s') \<Longrightarrow> ready_at n p (agent s') \<Longrightarrow>
      same_session (fst p) (agent s) (agent s') \<Longrightarrow> Q rc s'"
  shows "ok (vsql_m_get_column L stmt i (p, j) s) Q"
proof -
  obtain \<mu> where \<mu>: "retrieves_text L \<mu>" using cli_contractD(5) [OF contract] by blast
  let ?x = "the_item (p, j) (agent s)"
  note item = ready_at_item [OF s(3,4)]
  have wf: "wf_item ?x" "vsql_m_valid ?x" using wf_the_item [OF s(1)] item by simp_all
  obtain c b where cb: "vsql_m_c_type ?x = (c, b)" by (metis surj_pair)
  have fin: "Q rc t" if "invar J cursor_count X t" "agent t = agent s" for rc t
    using that s(2,3) ready_at_live [OF s(3)] by (intro Q) simp_all
  have store: "ok (modify_item (p, j) (\<lambda>i. set_number VSQL_M_INDICATOR (if null then -1 else 0)
        (i\<lparr>data := Some (retrieved c b v)\<rparr>)) t)
      (\<lambda>_ s. ok (if null then Some ((), s) else vsql_m_set_returned (p, j) b ct k s) (\<lambda>_. Q rc))"
    if t: "invar J cursor_count X t" "agent t = agent s"
      and call: "SQLGetData L stmt i c (cast32 b) True w = ((rc, v, m), w')" "completed rc"
      and null: "null = (written_number m = SQL_NULL_DATA)"
    for t w w' rc v m null ct k
  proof -
    have y: "\<exists>y. v = Some y \<and> has_c_type c y" if "\<not> null"
      using writes_dataD [OF cli_contractD(3) [OF contract] call] that null
      by (auto simp: written_number_def codes)
    have rec: "set_number VSQL_M_INDICATOR (if null then -1 else 0) (?x\<lparr>data := Some (retrieved c b v)\<rparr>) =
        received ?x v null"
      by (simp add: received_def cb)
    note ok = wf_received [OF wf, of null v, unfolded cb fst_conv, OF y]
    have s': "settled (agent t)" "ready_at n p (agent t)" using t(2) s(2,3) by simp_all
    show ?thesis
    proof (rule modify_ready [OF t(1) s' s(4)])
      fix u :: "'w state"
      assume u: "invar J cursor_count X u" "settled (agent u)" "ready_at n p (agent u)"
        "the_item (p, j) (agent u) = set_number VSQL_M_INDICATOR (if null then -1 else 0)
          ((the_item (p, j) (agent t))\<lparr>data := Some (retrieved c b v)\<rparr>)"
        "same_session (fst p) (agent t) (agent u)"
      have pad: "padable (the_item (p, j) (agent u)) b" if "\<not> null"
      proof -
        obtain y where "v = Some y" "has_c_type c y" using y \<open>\<not> null\<close> by blast
        then show ?thesis
          using padable_received [OF wf \<mu>, unfolded cb fst_conv snd_conv, OF call, of y] rec u(4) t(2) that
          by simp
      qed
      have "ok (vsql_m_set_returned (p, j) b ct k u) (\<lambda>_. Q rc)" if "\<not> null"
        using same_session_trans [OF u(5)] t(2)
        by (intro vsql_m_set_returned_ok [OF u(1-3) s(4) pad [OF that]] Q) (simp_all del: same_session_def)
      then show "ok (if null then Some ((), u) else vsql_m_set_returned (p, j) b ct k u) (\<lambda>_. Q rc)"
        using u t(2) by (auto intro!: Q simp del: same_session_def)
    qed (use ok rec t(2) in simp_all)
  qed
  have get: "ok (call (SQLGetData L stmt i c (cast32 b) True) t) R"
    if "invar J cursor_count X t" "agent t = agent s"
      "\<And>rc v m w' t'. SQLGetData L stmt i c (cast32 b) True (world t) = ((rc, v, m), w') \<Longrightarrow>
        invar J cursor_count X t' \<Longrightarrow> agent t' = agent s \<Longrightarrow> R (rc, v, m) t'" for t R
    using that(2) s(5) by (intro call_preserves [OF that(1)] uses) (auto intro!: that(3))
  have column: "ok (call (SQLColAttributeInt L stmt i f) t) R"
    if "invar J cursor_count X t" "agent t = agent s"
      "\<And>r t'. invar J cursor_count X t' \<Longrightarrow> agent t' = agent s \<Longrightarrow> R r t'" for t f R
    using that(2) s(5) by (intro call_preserves [OF that(1)] uses) (auto intro!: that(3))
  have pieces: "ok (count_pieces L stmt i 0 0 t) R"
    if "invar J cursor_count X t" "agent t = agent s"
      "\<And>r t'. invar J cursor_count X t' \<Longrightarrow> agent t' = agent s \<Longrightarrow> R r t'" for t R
  proof (rule count_pieces_ok [OF \<mu> that(1)])
    obtain a w' where call: "SQLGetData L stmt i SQL_CHAR 2 False (world t) = (a, w')" by (metis surj_pair)
    show "0 + int (\<mu> stmt i (world t)) < 2 ^ 31"
      using retrieves_textD(1) [OF \<mu>, of 2 stmt i False "world t" "fst a" "fst (snd a)" "snd (snd a)" w'] call
      by simp
  qed (use that s(5) in auto)
  have val: "ok (vsql_m_get_value L stmt i (p, j) c b ct k t) Q"
    if "invar J cursor_count X t" "agent t = agent s" for t ct k
    unfolding vsql_m_get_value_def Let_def
    apply (simp add: vsql_m_failed_iff)
    apply (rule get [OF that])
    subgoal premises prems for rc v m w' t'
      using store [OF prems(2,3,1) _ refl, of ct k] fin [OF prems(2,3)]
      by (cases "completed rc") (simp_all split del: if_split)
    done
  have allocate: "ok (allocate s) R"
    if "\<And>b t. invar J cursor_count X t \<Longrightarrow> agent t = agent s \<Longrightarrow> R b t" for R
    by (rule allocate_invar [OF s(1)]) (rule that)
  show ?thesis
    unfolding vsql_m_get_column_def Let_def using item
    by (simp add: deref_item_eq cb)
      ((rule allocate conjI impI val fin | erule column pieces | assumption | clarsimp)+)
qed

lemma get_columns_ok:
  assumes s: "invar J cursor_count X s" "settled (agent s)" "ready_at m p (agent s)" "i + n \<le> m"
    "(SQL_HANDLE_STMT, stmt) \<in># held (agent s) + X"
    and Q: "\<And>r s'. invar J cursor_count X s' \<Longrightarrow> settled (agent s') \<Longrightarrow>
      same_session (fst p) (agent s) (agent s') \<Longrightarrow> Q r s'"
  shows "ok (get_columns L stmt p n i rc truncated s) Q"
  using assms
proof (induction n arbitrary: i rc truncated s)
  case 0
  then show ?case using ready_at_live [OF "0"(3)] by simp
next
  case (Suc n)
  note refl = same_session_refl [OF ready_at_live [OF Suc.prems(3)]]
  have rest: "ok (get_columns L stmt p n (Suc i) rc tr s') Q"
    if t: "invar J cursor_count X s'" "settled (agent s')" "ready_at m p (agent s')"
      "same_session (fst p) (agent s) (agent s')" for rc tr s'
  proof (rule Suc.IH [OF t(1-3)])
    show "Suc i + n \<le> m" using Suc.prems(4) by simp
    show "(SQL_HANDLE_STMT, stmt) \<in># held (agent s') + X"
      using Suc.prems(5) same_session_held [OF t(4)] by simp
    show "Q r s''" if "invar J cursor_count X s''" "settled (agent s'')"
      "same_session (fst p) (agent s') (agent s'')" for r s''
      using that same_session_trans [OF t(4) that(3)] by (intro Suc.prems(6))
  qed
  have get: "ok (vsql_m_get_column L stmt k (p, i) s) (\<lambda>rc. ok' rc)"
    if R: "\<And>rc s'. invar J cursor_count X s' \<Longrightarrow> settled (agent s') \<Longrightarrow> ready_at m p (agent s') \<Longrightarrow>
      same_session (fst p) (agent s) (agent s') \<Longrightarrow> ok' rc s'" for k ok'
    using Suc.prems(4) by (intro vsql_m_get_column_ok [OF Suc.prems(1-3) _ Suc.prems(5)] R) auto
  show ?case
    using Suc.prems(6) [OF Suc.prems(1,2) refl] by simp (intro impI get rest)
qed

lemma vsql_m_into_using_ok:
  assumes s: "invar J cursor_count X s" "settled (agent s)" "current (agent s) = Some c"
    "(SQL_HANDLE_STMT, stmt) \<in># held (agent s) + X" "wf_output u"
    and Q: "\<And>r u' s'. invar J cursor_count X s' \<Longrightarrow> settled (agent s') \<Longrightarrow>
      same_session c (agent s) (agent s') \<Longrightarrow> (r = None \<longrightarrow> length (sqlstate s') = 5) \<Longrightarrow> Q (r, u') s'"
  shows "ok (vsql_m_into_using L M stmt rc columns u s) Q"
proof -
  have refl: "same_session c (agent s) (agent s)"
    using invar_current [OF s(1,3)] by (rule same_session_refl)
  show ?thesis
  proof (cases "out_descriptor u")
    case None
    then have u: "length (out_targets u) = nat (out_n u)" "\<forall>t\<in>set (out_targets u). wf_target t"
      using s(5) by (simp_all add: wf_output_def)
    then show ?thesis
      unfolding vsql_m_into_using_def using None s(1-4) refl
      by (auto intro!: vsql_m_status_ok [OF s(1)] vsql_m_assign_row_ok [OF s(1,4) u(2)] Q
          simp del: same_session_def)
  next
    case (Some name)
    have items: "ok (vsql_m_items d columns ''07002'' t)
        (\<lambda>b s. (\<not> b \<longrightarrow> Q (None, u) s) \<and>
          (b \<longrightarrow> ok (get_columns L stmt d (nat columns) 0 rc False s) (\<lambda>r. Q (Some r, u))))"
      if t: "invar J cursor_count X t" "settled (agent t)" "same_session c (agent s) (agent t)"
        "descriptor_at d (agent t)" "fst d = c" for d t
    proof (rule vsql_m_items_ok [OF t(1,2,4)])
      assume valid: "valid_items (nat columns) (d_items (the_descriptor d (agent t))) = Some True"
      have "(SQL_HANDLE_STMT, stmt) \<in># held (agent t) + X"
        using s(4) same_session_held [OF t(3)] by simp
      then have "ok (get_columns L stmt d (nat columns) 0 rc False t) (\<lambda>r. Q (Some r, u))"
        using same_session_trans [OF t(3)] t(5)
        by (intro get_columns_ok [OF t(1,2) ready_atI [OF t(4) valid]] Q) (simp_all del: same_session_def)
      then show "(\<not> True \<longrightarrow> Q (None, u) t) \<and>
          (True \<longrightarrow> ok (get_columns L stmt d (nat columns) 0 rc False t) (\<lambda>r. Q (Some r, u)))"
        by simp
    qed (use t in \<open>auto intro!: Q simp del: same_session_def\<close>)
    show ?thesis
      unfolding vsql_m_into_using_def using Some
      by (simp, intro vsql_m_descriptor_same [OF s(1-3)])
        (auto intro!: items Q simp del: same_session_def)
  qed
qed

lemma vsql_m_into_ok:
  assumes s: "invar J cursor_count X s" "settled (agent s)" "current (agent s) = Some c"
    "(SQL_HANDLE_STMT, stmt) \<in># held (agent s) + X" "wf_output u"
    and Q: "\<And>b u' s'. invar J cursor_count X s' \<Longrightarrow> settled (agent s') \<Longrightarrow>
      same_session c (agent s) (agent s') \<Longrightarrow> length (sqlstate s') = 5 \<Longrightarrow> Q (b, u') s'"
  shows "ok (vsql_m_into L M stmt rc u s) Q"
proof -
  have refl: "same_session c (agent s) (agent s)"
    using invar_current [OF s(1,3)] by (rule same_session_refl)
  have diag: "ok (vsql_m_diag L r SQL_HANDLE_STMT stmt t) (\<lambda>_. Q (False, v))"
    if "invar J cursor_count X t" "settled (agent t)" "same_session c (agent s) (agent t)" for r v t
  proof (rule vsql_m_diag_ok [OF that(1)])
    show "(SQL_HANDLE_STMT, stmt) \<in># held (agent t) + X"
      using s(4) same_session_held [OF that(3)] by simp
  qed (use that in \<open>auto intro!: Q simp del: same_session_def\<close>)
  have status: "ok (vsql_m_status code t) (\<lambda>_. Q (True, v))"
    if "invar J cursor_count X t" "settled (agent t)" "same_session c (agent s) (agent t)"
      "length code = 5" for t code v
    using that(2-) by (intro vsql_m_status_ok [OF that(1)]) (auto intro!: Q simp del: same_session_def)
  have assign: "ok (vsql_m_into_using L M stmt r n u t) R"
    if t: "invar J cursor_count X t" "agent t = agent s"
      "\<And>r u' s'. invar J cursor_count X s' \<Longrightarrow> settled (agent s') \<Longrightarrow>
      same_session c (agent s) (agent s') \<Longrightarrow> (r = None \<longrightarrow> length (sqlstate s') = 5) \<Longrightarrow> R (r, u') s'"
    for r n t R
    using t(2,3) s(2-5) by (intro vsql_m_into_using_ok [OF t(1)]) (simp_all del: same_session_def)
  show ?thesis
    unfolding vsql_m_into_def using s refl
    by - ((erule num_result_cols_ok assign diag status | rule conjI impI | assumption
      | clarsimp simp del: same_session_def | (rule Q; simp del: same_session_def))[1])+
qed

section \<open>Rules of the statements\<close>

lemma activate_ok:
  assumes s: "invar J cursor_count X s" "settled (agent s)" "current (agent s) = Some c"
    and Q: "\<And>s'. invar J cursor_count X s' \<Longrightarrow> settled (agent s') \<Longrightarrow>
      same_session c (agent s) (agent s') \<Longrightarrow> Q () s'"
  shows "ok (activate s) Q"
proof -
  have live: "live c (agent s)" using s(1,3) by (rule invar_current)
  have held: "held (update c (\<lambda>k. k\<lparr>c_active := True\<rparr>) (agent s)) = held (agent s)"
    using held_update [OF invar_wf_agent [OF s(1)] live, of "\<lambda>k. k\<lparr>c_active := True\<rparr>" "{#}" "{#}"]
    by (simp add: held_connection_def)
  show ?thesis
    unfolding activate_def using s(3) live held
    by simp (rule keep_active [OF s(1,2) live], rule Q, simp_all add: live_update lookup_update)
qed

lemma status_same:
  assumes "invar J cursor_count X s" "settled (agent s)" "length code = 5"
    and "\<And>s'. invar J cursor_count X s' \<Longrightarrow> settled (agent s') \<Longrightarrow> agent s' = agent s \<Longrightarrow>
      length (sqlstate s') = 5 \<Longrightarrow> Q () s'"
  shows "ok (vsql_m_status code s) Q"
  using assms(2,3) by (intro vsql_m_status_ok [OF assms(1)]) (auto intro!: assms(4))

lemma vsql_m_suits_ok:
  assumes s: "invar J cursor_count X s" "settled (agent s)" "current (agent s) = Some c"
    and bad: "\<And>s'. invar J cursor_count X s' \<Longrightarrow> settled (agent s') \<Longrightarrow>
      same_session c (agent s) (agent s') \<Longrightarrow> length (sqlstate s') = 5 \<Longrightarrow> Q False s'"
    and good: "\<And>s'. invar J cursor_count X s' \<Longrightarrow> settled (agent s') \<Longrightarrow>
      same_session c (agent s) (agent s') \<Longrightarrow> Q True s'"
  shows "ok (vsql_m_suits L M columns single out s) Q"
proof -
  have refl: "same_session c (agent s) (agent s)"
    using invar_current [OF s(1,3)] by (rule same_session_refl)
  have status: "ok (vsql_m_status code s) (\<lambda>_. Q False)" if "length code = 5" for code
    using that refl by (intro status_same [OF s(1,2)] bad) (simp_all del: same_session_def)
  have select: "Q True (s\<lparr>da := (da s)\<lparr>dynamic_function := ''SELECT'', dynamic_function_code := 41\<rparr>\<rparr>)"
    using s(1,2) refl by (intro good) (auto simp: invar_def wf_da_def simp del: same_session_def)
  have items: "ok (vsql_m_items d 0 ''07002'' t) Q"
    if t: "invar J cursor_count X t" "settled (agent t)" "same_session c (agent s) (agent t)"
      "descriptor_at d (agent t)" for d t
    using t by (intro vsql_m_items_ok [OF t(1,2,4)]) (auto intro!: good bad simp del: same_session_def)
  have find: "ok (vsql_m_descriptor L M name m s) (\<lambda>d t. case d of
      None \<Rightarrow> Q False t | Some d \<Rightarrow> ok (vsql_m_items d 0 ''07002'' t) Q)" for name m
    by (rule vsql_m_descriptor_same [OF s]) (auto intro!: items bad simp del: same_session_def)
  show ?thesis
    unfolding vsql_m_suits_def
    using status select good [OF s(1,2) refl] find
    by (auto split: option.split intro!: ok_conseq [OF find] simp del: same_session_def)
qed

lemma vsql_m_execute_row_ok:
  assumes s: "invar J cursor_count X s" "settled (agent s)" "current (agent s) = Some c"
    "(SQL_HANDLE_STMT, stmt) \<in># held (agent s) + X" "wf_output u"
    and Q: "\<And>b u' s'. invar J cursor_count X s' \<Longrightarrow> settled (agent s') \<Longrightarrow>
      length (sqlstate s') = 5 \<Longrightarrow> Q (b, u') s'"
  shows "ok (vsql_m_execute_row L M stmt u s) Q"
proof -
  have into: "ok (vsql_m_into L M stmt rc u t) R"
    if t: "invar J cursor_count X t" "agent t = agent s"
      "\<And>b u' s'. invar J cursor_count X s' \<Longrightarrow> settled (agent s') \<Longrightarrow>
        (SQL_HANDLE_STMT, stmt) \<in># held (agent s') + X \<Longrightarrow> length (sqlstate s') = 5 \<Longrightarrow> R (b, u') s'"
    for rc t R
  proof (rule vsql_m_into_ok [OF t(1)])
    fix b u' and s' :: "'w state"
    assume "invar J cursor_count X s'" "settled (agent s')" "same_session c (agent t) (agent s')"
      "length (sqlstate s') = 5"
    then show "R (b, u') s'"
      using t(2) s(4) same_session_held [of c "agent t" "agent s'"]
      by (intro t(3)) (simp_all del: same_session_def)
  qed (use t(2) s in auto)
  show ?thesis
    unfolding vsql_m_execute_row_def using s
    by - ((erule into wp | rule uses conjI impI | erule call_preserves | assumption
      | clarsimp | (rule Q; simp))[1])+
qed

lemma vsql_m_execute_bound_ok:
  assumes s: "invar J cursor_count X s" "settled (agent s)" "current (agent s) = Some c"
    "(SQL_HANDLE_STMT, p_stmt q) \<in># held (agent s) + X" "wf_output u"
    and Q: "\<And>b u' s'. invar J cursor_count X s' \<Longrightarrow> settled (agent s') \<Longrightarrow>
      length (sqlstate s') = 5 \<Longrightarrow> Q (b, u') s'"
  shows "ok (vsql_m_execute_bound L M q columns u s) Q"
proof -
  have active: "ok (activate s) R"
    if "\<And>s'. invar J cursor_count X s' \<Longrightarrow> settled (agent s') \<Longrightarrow> current (agent s') = Some c \<Longrightarrow>
      (SQL_HANDLE_STMT, p_stmt q) \<in># held (agent s') + X \<Longrightarrow> R () s'" for R
    using s(3,4) by (intro activate_ok [OF s(1-3)] that) simp_all
  show ?thesis
    unfolding vsql_m_execute_bound_def using s(5)
    by - ((erule vsql_m_execute_row_ok wp | rule active uses conjI impI refl | erule call_preserves
      | assumption | clarsimp | (rule Q; simp))[1])+
qed

lemma vsql_m_execute_prepared_ok [wp]:
  assumes s: "invar J cursor_count X s" "settled (agent s)" "wf_input i" "wf_output u"
    and Q: "\<And>b u' s'. invar J cursor_count X s' \<Longrightarrow> settled (agent s') \<Longrightarrow>
      length (sqlstate s') = 5 \<Longrightarrow> Q (b, u') s'"
  shows "ok (vsql_m_execute_prepared L M name i u s) Q"
proof -
  have suits: "ok (vsql_m_suits L M columns single u t) R"
    if t: "invar J cursor_count X t" "settled (agent t)" "prepared_at p (agent t)"
      "current (agent t) = Some c" "fst p = c"
      "\<And>s'. invar J cursor_count X s' \<Longrightarrow> settled (agent s') \<Longrightarrow> length (sqlstate s') = 5 \<Longrightarrow> R False s'"
      "\<And>s'. invar J cursor_count X s' \<Longrightarrow> settled (agent s') \<Longrightarrow> prepared_at p (agent s') \<Longrightarrow>
        current (agent s') = Some c \<Longrightarrow> R True s'" for columns single t p c R
    using t(3-5) by (intro vsql_m_suits_ok [OF t(1,2,4)] t(6,7)) (auto simp: prepared_at_def)
  have bind: "ok (vsql_m_bind L M (p_stmt (the_prepared p (agent t))) sql i t) R"
    if t: "invar J cursor_count X t" "settled (agent t)" "prepared_at p (agent t)"
      "current (agent t) = Some c" "fst p = c"
      "\<And>s'. invar J cursor_count X s' \<Longrightarrow> settled (agent s') \<Longrightarrow> length (sqlstate s') = 5 \<Longrightarrow> R False s'"
      "\<And>s'. invar J cursor_count X s' \<Longrightarrow> settled (agent s') \<Longrightarrow> prepared_at p (agent s') \<Longrightarrow>
        current (agent s') = Some c \<Longrightarrow> R True s'" for sql t p c R
    using t(3-5) held_the_prepared [OF t(3)]
    by (intro vsql_m_bind_ok [OF t(1,2,4) _ s(3)] t(6,7)) (auto simp: prepared_at_def)
  have bound: "ok (vsql_m_execute_bound L M (the_prepared p (agent t)) columns u t) Q"
    if t: "invar J cursor_count X t" "settled (agent t)" "prepared_at p (agent t)"
      "current (agent t) = Some c" for columns t p c
    using held_the_prepared [OF t(3)] by (intro vsql_m_execute_bound_ok [OF t(1,2,4) _ s(4)] Q) auto
  have columns: "ok (call (SQLNumResultCols L (p_stmt (the_prepared p (agent t))))
      (t\<lparr>da := (da t)\<lparr>dynamic_function := f, dynamic_function_code := k\<rparr>\<rparr>)) R"
    if t: "invar J cursor_count X t" "prepared_at p (agent t)" "length f < 32"
      "\<And>r t'. invar J cursor_count X t' \<Longrightarrow> agent t' = agent t \<Longrightarrow> R r t'" for t f k p R
  proof (rule call_preserves)
    show "invar J cursor_count X (t\<lparr>da := (da t)\<lparr>dynamic_function := f, dynamic_function_code := k\<rparr>\<rparr>)"
      using t(1,3) by (simp add: invar_def wf_da_def)
  qed (use held_the_prepared [OF t(2)] in \<open>auto intro!: uses t(4)\<close>)
  have copy: "ok (Option.bind (strcpy 32 (p_dynamic_function (the_prepared p (agent t)))) f) R"
    if "invar J cursor_count X t" "prepared_at p (agent t)"
      "invar J cursor_count X t \<Longrightarrow> length (p_dynamic_function (the_prepared p (agent t))) < 32 \<Longrightarrow>
        ok (f (p_dynamic_function (the_prepared p (agent t)))) R" for p f t R
    using wf_the_prepared [OF that(1,2)] that(1,3) by (simp add: strcpy_ok)
  show ?thesis
    unfolding vsql_m_execute_prepared_def Let_def using s(1,2)
    by - ((erule vsql_m_prepared_statement_ok columns copy suits bind bound
      | rule deref_prepared_ok conjI impI refl | assumption | clarsimp | (rule Q; simp))[1])+
qed

lemma vsql_m_dynamic_function_ok [wp]:
  assumes "invar J cursor_count X s" "(SQL_HANDLE_STMT, stmt) \<in># held (agent s) + X"
    and Q: "\<And>s'. invar J cursor_count X s' \<Longrightarrow> agent s' = agent s \<Longrightarrow> Q () s'"
  shows "ok (vsql_m_dynamic_function L stmt s) Q"
proof -
  let ?f = "\<lambda>t d. d\<lparr>dynamic_function := in_buffer 32 t\<rparr>"
  let ?g = "\<lambda>k d. d\<lparr>dynamic_function_code := k\<rparr>"
  have f: "invar J cursor_count X (output_da ?f v t)" if "invar J cursor_count X t" for t v
    using that by (intro output_da_invar wf_da_text)
  have g: "invar J cursor_count X (output_da ?g v t)" if "invar J cursor_count X t" for t v
    using that by (intro output_da_invar) (auto simp: wf_da_def)
  show ?thesis
    unfolding vsql_m_dynamic_function_def using assms(1,2)
    by (auto intro!: call_preserves [where X = X and J = J and cc = cursor_count] uses f g Q)
qed

lemma vsql_m_execute_immediate_ok [wp]:
  assumes s: "invar J cursor_count X s" "settled (agent s)"
    and Q: "\<And>s'. invar J cursor_count X s' \<Longrightarrow> settled (agent s') \<Longrightarrow> length (sqlstate s') = 5 \<Longrightarrow> Q () s'"
  shows "ok (vsql_m_execute_immediate L M sql s) Q"
  unfolding vsql_m_execute_immediate_def using s
  by - ((erule wp | rule deref_ok uses conjI impI keep_active | erule call_preserves | assumption
    | clarsimp simp: settled_dbc held_dbc parent_dbc vsql_m_failed_iff live_update lookup_update
    | (rule Q; simp))[1])+

lemma vsql_m_reset_cursor_ok:
  assumes s: "invar J cursor_count X s" "settled (agent s)" "at_cursor M i h c (agent s)" "h \<noteq> 0"
    and Q: "\<And>s'. invar J cursor_count X s' \<Longrightarrow> settled (agent s') \<Longrightarrow> sqlstate s' = sqlstate s \<Longrightarrow> Q () s'"
  shows "ok (vsql_m_reset_cursor L M i h s) Q"
proof -
  have "ok (call (SQLFreeHandle L SQL_HANDLE_STMT h) s) (\<lambda>_ s'. agent s' = agent s)"
    by (simp add: call_def split: prod.split)
  moreover have "ok (call (SQLFreeHandle L SQL_HANDLE_STMT h) s)
      (\<lambda>_ s. ok (vsql_m_cursors M c s) (\<lambda>g s. (g \<longrightarrow> ok (cursors_set M c i 0 s) Q) \<and> g))"
    by (rule free_cursor_ok [OF s]) (rule Q)
  ultimately have "ok (call (SQLFreeHandle L SQL_HANDLE_STMT h) s) (\<lambda>_ s'. agent s' = agent s \<and>
      ok (vsql_m_cursors M c s') (\<lambda>g s. (g \<longrightarrow> ok (cursors_set M c i 0 s) Q) \<and> g))"
    by (rule ok_conj)
  then show ?thesis
    unfolding vsql_m_reset_cursor_def using s(3)
    by (auto simp: conj_commute at_cursor_def elim!: ok_conseq)
qed

lemma vsql_m_fetch_dynamic_ok [wp]:
  assumes s: "invar J cursor_count X s" "settled (agent s)" "linked cursor_count M"
    "i < vsql_m_cursor_count M" "wf_output u"
    and Q: "\<And>b u' s'. invar J cursor_count X s' \<Longrightarrow> settled (agent s') \<Longrightarrow>
      length (sqlstate s') = 5 \<Longrightarrow> Q (b, u') s'"
  shows "ok (vsql_m_fetch_dynamic L M i u s) Q"
proof -
  have into: "ok (vsql_m_into L M h rc u t) Q"
    if "invar J cursor_count X t" "settled (agent t)" "at_cursor M i h c (agent t)" "h \<noteq> 0" for h c t rc
    using that(3,4) s(5)
    by (intro vsql_m_into_ok [OF that(1,2)] Q) (auto simp: at_cursor_def dest!: at_cursor_held [OF that(3)])
  show ?thesis
    unfolding vsql_m_fetch_dynamic_def using s
    by - ((erule vsql_m_cursor_ok | rule uses conjI impI | erule call_preserves into | assumption
      | clarsimp | (rule Q; simp))[1])+
qed

lemma vsql_m_open_dynamic_ok [wp]:
  assumes s: "invar J cursor_count X s" "settled (agent s)" "linked cursor_count M"
    "i < vsql_m_cursor_count M" "wf_input u"
    and Q: "\<And>s'. invar J cursor_count X s' \<Longrightarrow> settled (agent s') \<Longrightarrow> length (sqlstate s') = 5 \<Longrightarrow> Q () s'"
  shows "ok (vsql_m_open_dynamic L M i name hold statement u s) Q"
proof -
  have reset: "ok (vsql_m_reset_cursor L M i h t) Q"
    if t: "invar J cursor_count X t" "settled (agent t)" "at_cursor M i h c (agent t)" "h \<noteq> 0"
      and len: "length (sqlstate t) = 5" for h c t
    by (rule vsql_m_reset_cursor_ok [OF t]) (rule Q, simp_all add: len)
  have columns: "ok (call (SQLNumResultCols L (p_stmt (the_prepared p (agent t)))) t) R"
    if "invar J cursor_count X t" "prepared_at p (agent t)"
      "\<And>r t'. invar J cursor_count X t' \<Longrightarrow> agent t' = agent t \<Longrightarrow> R r t'" for t p R
    using held_the_prepared [OF that(2)]
    by (intro call_preserves [OF that(1)] uses) (auto intro!: that(3))
  have open': "ok (vsql_m_cursor L M i n hold t) R"
    if t: "invar J cursor_count X t" "settled (agent t)" "prepared_at p (agent t)"
      "current (agent t) = Some c" "fst p = c"
      "\<And>s'. invar J cursor_count X s' \<Longrightarrow> settled (agent s') \<Longrightarrow> length (sqlstate s') = 5 \<Longrightarrow> R 0 s'"
      "\<And>h s'. invar J cursor_count X s' \<Longrightarrow> settled (agent s') \<Longrightarrow> h \<noteq> 0 \<Longrightarrow>
        at_cursor M i h c (agent s') \<Longrightarrow> prepared_at p (agent s') \<Longrightarrow> R h s'" for n t p c R
    using t(3,5)
    by (intro vsql_m_cursor_same [OF t(1,2,4) s(3,4)] t(6,7)) (auto simp: prepared_at_def at_cursor_def)
  have bind: "ok (vsql_m_bind L M h sql u t) R"
    if t: "invar J cursor_count X t" "settled (agent t)" "at_cursor M i h c (agent t)" "h \<noteq> 0"
      "\<And>b s'. invar J cursor_count X s' \<Longrightarrow> settled (agent s') \<Longrightarrow> at_cursor M i h c (agent s') \<Longrightarrow>
        (\<not> b \<longrightarrow> length (sqlstate s') = 5) \<Longrightarrow> R b s'"
    for h sql t c R
  proof (rule vsql_m_bind_ok [OF t(1,2) _ _ s(5)])
    show "current (agent t) = Some c" using t(3) by (simp add: at_cursor_def)
    show "(SQL_HANDLE_STMT, h) \<in># held (agent t) + X" using t(3,4) by simp
  qed (use at_cursor_same [OF t(3)] in \<open>auto intro!: t(5) simp del: same_session_def\<close>)
  have active: "ok (activate t) R"
    if t: "invar J cursor_count X t" "settled (agent t)" "at_cursor M i h c (agent t)"
      "\<And>s'. invar J cursor_count X s' \<Longrightarrow> settled (agent s') \<Longrightarrow> at_cursor M i h c (agent s') \<Longrightarrow> R () s'"
    for t h c R
  proof (rule activate_ok [OF t(1,2)])
    show "current (agent t) = Some c" using t(3) by (simp add: at_cursor_def)
  qed (use at_cursor_same [OF t(3)] in \<open>auto intro!: t(4) simp del: same_session_def\<close>)
  show ?thesis
    unfolding vsql_m_open_dynamic_def using s(1,2)
    by - ((erule vsql_m_prepared_statement_ok open' bind active reset columns wp
      | rule deref_prepared_ok uses conjI impI refl | erule call_preserves | assumption
      | clarsimp | (rule Q; simp))[1])+
qed

end

end
