(* ===== verification/GetDiagnostics.thy ===== *)
theory GetDiagnostics
  imports Diagnostics
begin

text \<open>
  Reading the first diagnostics area: the items of a GET DIAGNOSTICS statement
  (\<open>std_2_23_1_get_diagnostics_statement.c\<close>) and the condition of a WHENEVER CONSTRAINT
  (\<open>std_2_21_2_embedded_exception_declaration.c\<close>). Nothing is changed by them.
\<close>

section \<open>Routines\<close>

definition VSQL_M_COMMAND_FUNCTION :: int where [codes]: "VSQL_M_COMMAND_FUNCTION = -1"
definition VSQL_M_COMMAND_FUNCTION_CODE :: int where [codes]: "VSQL_M_COMMAND_FUNCTION_CODE = -2"
definition VSQL_M_DYNAMIC_FUNCTION :: int where [codes]: "VSQL_M_DYNAMIC_FUNCTION = -3"
definition VSQL_M_DYNAMIC_FUNCTION_CODE :: int where [codes]: "VSQL_M_DYNAMIC_FUNCTION_CODE = -4"

text \<open>\<open>strchr\<close> also finds the null character that ends the string.\<close>

definition vsql_m_origin :: "char \<Rightarrow> string" where
  "vsql_m_origin c = (if c \<in> set ''01234ABCDEFGH'' \<or> c = NUL then ''ISO 9075'' else ''vsql'')"

text \<open>\<open>conditions[n - 1]\<close>, which is undefined out of the range of the array.\<close>

definition condition :: "int \<Rightarrow> vsql_m_da \<Rightarrow> vsql_m_condition option" where
  "condition n d =
     (if 1 \<le> n \<and> n \<le> int (length (conditions d)) then Some (conditions d ! nat (n - 1)) else None)"

definition or_empty :: "string option \<Rightarrow> string" where
  "or_empty v = (case v of None \<Rightarrow> '''' | Some t \<Rightarrow> t)"

text \<open>A character of an array that holds the string, which is the null character after its end.\<close>

definition char_at :: "string \<Rightarrow> nat \<Rightarrow> char" where
  "char_at s i = (if i < length s then s ! i else NUL)"

definition vsql_m_item_text :: "int \<Rightarrow> int \<Rightarrow> vsql_m_da \<Rightarrow> string option" where
  "vsql_m_item_text item n d =
     (if item = SQL_DIAG_MORE then Some ''N''
      else if item = VSQL_M_COMMAND_FUNCTION then Some (command_function d)
      else if item = VSQL_M_DYNAMIC_FUNCTION then Some (dynamic_function d)
      else if item = SQL_DIAG_SQLSTATE then map_option k_sqlstate (condition n d)
      else if item = SQL_DIAG_MESSAGE_TEXT
      then map_option (\<lambda>k. or_empty (k_message k)) (condition n d)
      else if item = SQL_DIAG_CLASS_ORIGIN
      then map_option (\<lambda>k. vsql_m_origin (char_at (k_sqlstate k) 0)) (condition n d)
      else if item = SQL_DIAG_SUBCLASS_ORIGIN
      then map_option (\<lambda>k. vsql_m_origin (char_at (k_sqlstate k) 2)) (condition n d)
      else if item = SQL_DIAG_CONSTRAINT_CATALOG
      then map_option (\<lambda>k. or_empty (k_constraint_catalog k)) (condition n d)
      else if item = SQL_DIAG_CONSTRAINT_SCHEMA
      then map_option (\<lambda>k. or_empty (k_constraint_schema k)) (condition n d)
      else if item = SQL_DIAG_CONSTRAINT_NAME
      then map_option (\<lambda>k. or_empty (k_constraint_name k)) (condition n d)
      else if item = SQL_DIAG_CURSOR_NAME
      then map_option (\<lambda>k. if k_sqlstate k = ''24000'' then or_empty (cursor_name d) else '''')
        (condition n d)
      else if item = SQL_DIAG_CONNECTION_NAME then Some (connection_name d)
      else if item = SQL_DIAG_SERVER_NAME then Some (or_empty (server_name d))
      else Some '''')"

text \<open>The loop that counts the characters of a message.\<close>

fun message_length :: "string \<Rightarrow> int" where
  "message_length [] = 0"
| "message_length (c # cs) = (if continuation c then 0 else 1) + message_length cs"

definition vsql_m_item_number :: "int \<Rightarrow> int \<Rightarrow> 'w state \<Rightarrow> int option" where
  "vsql_m_item_number item n s =
     (if item = SQL_DIAG_NUMBER then Some (int (length (conditions (da s))))
      else if item = VSQL_M_COMMAND_FUNCTION_CODE then Some (command_function_code (da s))
      else if item = VSQL_M_DYNAMIC_FUNCTION_CODE then Some (dynamic_function_code (da s))
      else if item = SQL_DIAG_ROW_COUNT then Some (row_count (da s))
      else if item = SQL_DIAG_TRANSACTIONS_COMMITTED then Some (transactions_committed (da s))
      else if item = SQL_DIAG_TRANSACTIONS_ROLLED_BACK then Some (transactions_rolled_back (da s))
      else if item = SQL_DIAG_TRANSACTION_ACTIVE
      then (case current (agent s) of
          None \<Rightarrow> Some 0
        | Some c \<Rightarrow> map_option (\<lambda>(k, _). if c_active k then 1 else 0) (deref c s))
      else map_option (\<lambda>k. case k_message k of
          None \<Rightarrow> 0
        | Some m \<Rightarrow> if item = SQL_DIAG_MESSAGE_OCTET_LENGTH then int (length m)
            else message_length m) (condition n (da s)))"

text \<open>The loop of \<open>vsql_m_violated\<close> over the conditions.\<close>

fun violated_in ::
  "string option \<Rightarrow> string \<Rightarrow> string \<Rightarrow> vsql_m_condition list \<Rightarrow> bool" where
  "violated_in catalog schema name [] = False"
| "violated_in catalog schema name (k # ks) =
     (if k_constraint_name k = Some name \<and> k_constraint_schema k = Some schema \<and>
         (catalog = None \<or> k_constraint_catalog k = catalog)
      then True else violated_in catalog schema name ks)"

definition vsql_m_violated :: "string option \<Rightarrow> string \<Rightarrow> string \<Rightarrow> vsql_m_da \<Rightarrow> bool" where
  "vsql_m_violated catalog schema name d = violated_in catalog schema name (conditions d)"

section \<open>Lemmas\<close>

lemma condition_Some_iff: "(\<exists>k. condition n d = Some k) \<longleftrightarrow>
    1 \<le> n \<and> n \<le> int (length (conditions d))"
  by (simp add: condition_def)

lemma condition_mem: "condition n d = Some k \<Longrightarrow> k \<in> set (conditions d)"
  by (auto simp: condition_def split: if_splits)

lemma violated_in_iff:
  "violated_in catalog schema name ks \<longleftrightarrow> (\<exists>k\<in>set ks. k_constraint_name k = Some name \<and>
     k_constraint_schema k = Some schema \<and>
     (catalog = None \<or> k_constraint_catalog k = catalog))"
  by (induction ks) auto

lemma message_length_eq: "message_length m = int (length (filter (\<lambda>c. \<not> continuation c) m))"
  by (induction m) auto

lemma message_length_bounds:
  "0 \<le> message_length m" "message_length m \<le> int (length m)"
  "utf8_piece m \<Longrightarrow> int (length m) \<le> 4 * message_length m + 3"
proof -
  show "0 \<le> message_length m" "message_length m \<le> int (length m)"
    by (simp_all add: message_length_eq)
  show "utf8_piece m \<Longrightarrow> int (length m) \<le> 4 * message_length m + 3"
    using utf8_from_length [of 3 m] by (simp add: message_length_eq utf8_piece_def)
qed

text \<open>
  The items of a condition are defined for every condition that the diagnostics area has. The
  items of the statement are always defined.
\<close>

lemma item_text_defined:
  "1 \<le> n \<Longrightarrow> n \<le> int (length (conditions d)) \<Longrightarrow> \<exists>t. vsql_m_item_text item n d = Some t"
  by (simp add: vsql_m_item_text_def condition_def)

lemma item_number_defined:
  assumes "invar J cc X s" "1 \<le> n" "n \<le> int (length (conditions (da s)))"
  shows "\<exists>k. vsql_m_item_number item n s = Some k"
  using assms invar_current [OF assms(1)]
  by (auto simp: vsql_m_item_number_def condition_def deref_live split: option.split)

lemma item_sqlstate:
  "vsql_m_item_text SQL_DIAG_SQLSTATE n d = map_option k_sqlstate (condition n d)"
  "vsql_m_item_text SQL_DIAG_MESSAGE_TEXT n d = map_option (\<lambda>k. or_empty (k_message k)) (condition n d)"
  by (simp_all add: vsql_m_item_text_def codes)

text \<open>
  A GET DIAGNOSTICS after a statement that has raised a condition of the runtime (when there is
  enough memory) reads this condition, its SQLSTATE and its message.
\<close>

lemma status_diagnostics:
  assumes "nameable (agent s)" "allocations s = []" "state \<noteq> ''00000''" "length state = 5"
  shows "ok (vsql_m_status state s) (\<lambda>_ s'. sqlstate s' = state \<and>
    vsql_m_item_number SQL_DIAG_NUMBER 0 s' = Some 1 \<and>
    vsql_m_item_text SQL_DIAG_SQLSTATE 1 (da s') = Some state \<and>
    vsql_m_item_text SQL_DIAG_MESSAGE_TEXT 1 (da s') = Some (vsql_m_message state))"
proof -
  let ?s = "vsql_m_clear (s\<lparr>sqlstate := state\<rparr>)"
  have "ok (vsql_m_raise state (vsql_m_message state) ?s) (\<lambda>_ s'. sqlstate s' = state)"
    using vsql_m_raise_cases [of ?s state "vsql_m_message state"] assms(1)
    by (auto elim: ok_conseq)
  moreover have "ok (vsql_m_raise state (vsql_m_message state) ?s) (\<lambda>_ s'.
      \<exists>k. conditions (da s') = [k] \<and> k_sqlstate k = state \<and>
        k_message k = Some (vsql_m_message state))"
    using vsql_m_raise_enough [of ?s state "vsql_m_message state"] assms
    by (auto elim!: ok_conseq)
  ultimately have "ok (vsql_m_raise state (vsql_m_message state) ?s) (\<lambda>_ s'. sqlstate s' = state \<and>
      (\<exists>k. conditions (da s') = [k] \<and> k_sqlstate k = state \<and>
        k_message k = Some (vsql_m_message state)))"
    by (rule ok_conj)
  then show ?thesis
    using assms(3)
    by (auto simp: vsql_m_status_def vsql_m_sqlstate_def item_sqlstate condition_def or_empty_def
        vsql_m_item_number_def elim!: ok_conseq)
qed

end
