(* ===== verification/Monitor.thy ===== *)
theory Monitor
  imports Cursor
begin

text \<open>
  The two implementations of the SQL/CLI that the development uses. \<open>audit L\<close> is any libvsql
  \<open>L\<close> that checks how it is used: it keeps the handles that are allocated, and remembers if a
  routine was given a handle that is not. \<open>scripted\<close> is a libvsql that can be executed, which
  answers the statements from a list.
\<close>

section \<open>A libvsql that checks the handles\<close>

record 'w audit_state =
  inner :: 'w
  allocated :: handles
  misused :: bool

definition checked ::
  "int \<Rightarrow> int \<Rightarrow> ('w \<Rightarrow> 'a \<times> 'w) \<Rightarrow> 'w audit_state \<Rightarrow> 'a \<times> 'w audit_state" where
  "checked t h f w = (case f (inner w) of (a, v) \<Rightarrow>
     (a, w\<lparr>inner := v, misused := misused w \<or> (t, h) \<notin># allocated w\<rparr>))"

definition checked_alloc ::
  "'w cli \<Rightarrow> int \<Rightarrow> int \<Rightarrow> 'w audit_state \<Rightarrow> (int \<times> int) \<times> 'w audit_state" where
  "checked_alloc L t p w = (case SQLAllocHandle L t p (inner w) of ((rc, h), v) \<Rightarrow>
     ((rc, h), \<lparr>inner = v,
        allocated = (if completed rc then add_mset (t, h) (allocated w) else allocated w),
        misused = misused w \<or> \<not> parent t p (allocated w)\<rparr>))"

definition checked_free ::
  "'w cli \<Rightarrow> int \<Rightarrow> int \<Rightarrow> 'w audit_state \<Rightarrow> int \<times> 'w audit_state" where
  "checked_free L t h w = (case checked t h (SQLFreeHandle L t h) w of (rc, v) \<Rightarrow>
     (rc, v\<lparr>allocated := allocated v - {#(t, h)#}\<rparr>))"

definition audit :: "'w cli \<Rightarrow> 'w audit_state cli" where
  "audit L = \<lparr>
     SQLAllocHandle = checked_alloc L,
     SQLBindParameter = (\<lambda>q i io vt pt sz sc cv n.
       checked SQL_HANDLE_STMT q (SQLBindParameter L q i io vt pt sz sc cv n)),
     SQLCloseCursor = (\<lambda>q. checked SQL_HANDLE_STMT q (SQLCloseCursor L q)),
     SQLColAttributeText = (\<lambda>q i f b. checked SQL_HANDLE_STMT q (SQLColAttributeText L q i f b)),
     SQLColAttributeInt = (\<lambda>q i f. checked SQL_HANDLE_STMT q (SQLColAttributeInt L q i f)),
     SQLConnect = (\<lambda>c v u. checked SQL_HANDLE_DBC c (SQLConnect L c v u)),
     SQLDisconnect = (\<lambda>c. checked SQL_HANDLE_DBC c (SQLDisconnect L c)),
     SQLEndTran = (\<lambda>t c k. checked t c (SQLEndTran L t c k)),
     SQLExecDirect = (\<lambda>q x. checked SQL_HANDLE_STMT q (SQLExecDirect L q x)),
     SQLExecute = (\<lambda>q. checked SQL_HANDLE_STMT q (SQLExecute L q)),
     SQLFetch = (\<lambda>q. checked SQL_HANDLE_STMT q (SQLFetch L q)),
     SQLFreeHandle = checked_free L,
     SQLGetData = (\<lambda>q i t b ind. checked SQL_HANDLE_STMT q (SQLGetData L q i t b ind)),
     SQLGetDiagFieldText = (\<lambda>t h i f b. checked t h (SQLGetDiagFieldText L t h i f b)),
     SQLGetDiagFieldInt = (\<lambda>t h i f. checked t h (SQLGetDiagFieldInt L t h i f)),
     SQLGetDiagRec = (\<lambda>t h i b. checked t h (SQLGetDiagRec L t h i b)),
     SQLGetStmtAttr = (\<lambda>q a. checked SQL_HANDLE_STMT q (SQLGetStmtAttr L q a)),
     SQLNumResultCols = (\<lambda>q. checked SQL_HANDLE_STMT q (SQLNumResultCols L q)),
     SQLPrepare = (\<lambda>q x. checked SQL_HANDLE_STMT q (SQLPrepare L q x)),
     SQLSetCursorName = (\<lambda>q x. checked SQL_HANDLE_STMT q (SQLSetCursorName L q x)),
     SQLSetStmtAttr = (\<lambda>q a n. checked SQL_HANDLE_STMT q (SQLSetStmtAttr L q a n)),
     SQLStartTran = (\<lambda>t c a l. checked t c (SQLStartTran L t c a l))\<rparr>"

text \<open>\<open>M\<close> are the handles that are allocated, and none has been used that was not.\<close>

definition audited :: "handles \<Rightarrow> 'w audit_state \<Rightarrow> bool" where
  "audited M w \<longleftrightarrow> allocated w = M \<and> \<not> misused w"

lemma checked_preserves: "(t, h) \<in># M \<Longrightarrow> preserves audited M (checked t h f)"
  by (auto simp: preserves_def audited_def checked_def split: prod.splits)

interpretation audit: handle_monitor "audit L" audited for L
proof
  show "allocates audited M t (SQLAllocHandle (audit L) t p)" if "parent t p M" for t p M
    using that by (auto simp: audit_def allocates_def checked_alloc_def audited_def split: prod.splits)
  show "audited (M - {#(t, h)#}) (snd (SQLFreeHandle (audit L) t h w))"
    if "audited M w" "(t, h) \<in># M" for M w t h
    using that by (auto simp: audit_def checked_free_def checked_def audited_def split: prod.splits)
qed (simp_all add: audit_def checked_preserves)

text \<open>It behaves as \<open>L\<close> does, so it is documented to do the same.\<close>

lemma checked_eq:
  "checked t h f w = (a, w') \<longleftrightarrow>
     f (inner w) = (a, inner w') \<and> allocated w' = allocated w \<and>
     misused w' = (misused w \<or> (t, h) \<notin># allocated w)"
  by (cases w, cases w') (auto simp: checked_def split: prod.splits)

lemma fst_checked [simp]: "fst (checked t h f w) = fst (f (inner w))"
  by (simp add: checked_def split: prod.split)

lemma inner_checked [simp]: "inner (snd (checked t h f w)) = snd (f (inner w))"
  by (simp add: checked_def split: prod.split)

lemma retrieves_text_audit:
  assumes "retrieves_text L \<mu>"
  shows "retrieves_text (audit L) (\<lambda>h i w. \<mu> h i (inner w))"
  unfolding retrieves_text_def
proof (intro allI impI)
  fix h i b :: int and ind :: bool and w :: "'a audit_state"
  assume b: "2 \<le> b"
  obtain rc v n w' where call: "SQLGetData L h i SQL_CHAR b ind (inner w) = ((rc, v, n), w')"
    by (metis surj_pair)
  note piece = retrieves_textD [OF assms b call]
  show "\<mu> h i (inner w) < 2 ^ 31 \<and>
    (case SQLGetData (audit L) h i SQL_CHAR b ind w of ((rc, v, _), w') \<Rightarrow>
      (completed rc \<longrightarrow> (\<forall>x. v = Some (CText x) \<longrightarrow> utf8_piece x \<and>
        length (in_buffer (nat b) x) +
          (if rc = SQL_SUCCESS_WITH_INFO then \<mu> h i (inner w') else 0) \<le> \<mu> h i (inner w))) \<and>
      (\<not> completed rc \<longrightarrow> v = None) \<and>
      (rc = SQL_SUCCESS_WITH_INFO \<longrightarrow> \<mu> h i (inner w') < \<mu> h i (inner w)))"
    using piece by (auto simp: audit_def checked_def call)
qed

lemma cli_contract_audit: "cli_contract L \<Longrightarrow> cli_contract (audit L)"
proof -
  assume L: "cli_contract L"
  note c = cli_contractD [OF L]
  have "writes_columns (audit L)"
    using c(1) unfolding writes_columns_def by (simp add: case_prod_unfold audit_def)
  moreover have "writes_attribute (audit L)"
    using c(2) unfolding writes_attribute_def by (simp add: case_prod_unfold audit_def)
  moreover have "writes_data (audit L)"
    using c(3) unfolding writes_data_def by (simp add: case_prod_unfold audit_def)
  moreover have "writes_records (audit L)"
    using c(4) unfolding writes_records_def
    by (simp add: case_prod_unfold prod_eq_iff audit_def)
  moreover have "gives_handles (audit L)"
    unfolding gives_handles_def
    using gives_handlesD [OF c(6)]
    by (auto simp: audit_def checked_alloc_def split: prod.splits)
  ultimately show ?thesis
    using c(5) retrieves_text_audit unfolding cli_contract_def by blast
qed

lemma within_limits_audit: "within_limits L \<Longrightarrow> within_limits (audit L)"
  unfolding within_limits_def short_messages_def few_columns_def by (simp add: audit_def)

section \<open>Any libvsql\<close>

locale libvsql =
  fixes L :: "'w cli"
  assumes libvsql_contract: "cli_contract L" and libvsql_limits: "within_limits L"

text \<open>
  The runtime with a libvsql whose handles are checked, and with one whose handles are not (which
  is enough for properties that are not about handles).
\<close>

sublocale libvsql \<subseteq> strict: runtime "audit L" audited cursor_count for cursor_count
  by unfold_locales
    (simp_all add: cli_contract_audit within_limits_audit libvsql_contract libvsql_limits)

sublocale libvsql \<subseteq> plain: runtime L "\<lambda>_ _. True" cursor_count for cursor_count
  by unfold_locales
    (simp_all add: allocates_def preserves_def libvsql_contract libvsql_limits split: prod.split)

lemma runtime_audit:
  assumes "cli_contract L" "within_limits L"
  shows "runtime (audit L) audited"
  using assms
  by unfold_locales (simp_all add: cli_contract_audit within_limits_audit)

lemma runtime_plain:
  assumes "cli_contract L" "within_limits L"
  shows "runtime L (\<lambda>_ _. True)"
  using assms
  by unfold_locales (simp_all add: allocates_def preserves_def split: prod.split)

end
