(* ===== verification/Scripted.thy ===== *)
theory Scripted
  imports Monitor
begin

text \<open>
  A libvsql that can be executed: each statement that is executed is answered by the next answer
  of a list, with its return code, diagnostics records, columns and rows. Everything else
  succeeds. It behaves as the runtime relies on, for every list of answers, so the interfaces of
  the development are not vacuous, and the examples of it are executed with it.
\<close>

record answer =
  a_rc :: int
  a_records :: "(string \<times> string) list"
  a_columns :: "(string \<times> (int \<times> int) list) list"
  a_rows :: "cval option list list"

record script =
  next_handle :: int
  answers :: "answer list"
  records :: "(string \<times> string) list"
  columns :: "(string \<times> (int \<times> int) list) list"
  row :: "cval option list"
  rows :: "cval option list list"
  column :: int
  offset :: nat

definition nth_from_1 :: "'a list \<Rightarrow> int \<Rightarrow> 'a option" where
  "nth_from_1 xs i = (if 1 \<le> i \<and> i \<le> int (length xs) then Some (xs ! nat (i - 1)) else None)"

definition scripted_alloc :: "int \<Rightarrow> int \<Rightarrow> script \<Rightarrow> (int \<times> int) \<times> script" where
  "scripted_alloc t p w =
     (let h = next_handle w in
      if h = 0 then ((SQL_ERROR, 0), w)
      else ((SQL_SUCCESS, h), w\<lparr>next_handle := h + 1\<rparr>))"

definition scripted_prepare :: "int \<Rightarrow> string \<Rightarrow> script \<Rightarrow> int \<times> script" where
  "scripted_prepare h x w = (case answers w of
     [] \<Rightarrow> (SQL_SUCCESS, w\<lparr>columns := []\<rparr>)
   | a # _ \<Rightarrow> (SQL_SUCCESS, w\<lparr>columns := a_columns a\<rparr>))"

definition scripted_execute :: "int \<Rightarrow> script \<Rightarrow> int \<times> script" where
  "scripted_execute h w = (case answers w of
     [] \<Rightarrow> (SQL_SUCCESS, w\<lparr>records := [], columns := [], rows := []\<rparr>)
   | a # as \<Rightarrow> (a_rc a, w\<lparr>answers := as, columns := a_columns a,
       records := filter (\<lambda>(c, m). length c = 5 \<and> length m < 2 ^ 15 - 1) (a_records a),
       rows := a_rows a, column := 0, offset := 0\<rparr>))"

definition scripted_fetch :: "int \<Rightarrow> script \<Rightarrow> int \<times> script" where
  "scripted_fetch h w = (case rows w of
     [] \<Rightarrow> (SQL_NO_DATA, w\<lparr>row := []\<rparr>)
   | r # rs \<Rightarrow> (SQL_SUCCESS, w\<lparr>row := r, rows := rs, column := 0, offset := 0\<rparr>))"

text \<open>The octets of column \<open>i\<close> that have not been retrieved.\<close>

definition unread :: "int \<Rightarrow> script \<Rightarrow> string" where
  "unread i w = (case nth_from_1 (row w) i of
     Some (Some (CText x)) \<Rightarrow> drop (if column w = i then offset w else 0) x
   | _ \<Rightarrow> '''')"

definition scripted_text ::
  "int \<Rightarrow> int \<Rightarrow> script \<Rightarrow> (int \<times> cval option \<times> int option) \<times> script" where
  "scripted_text i b w =
     (let x = unread i w; n = Some (int (length x)) in
      if b < 2 \<or> length x \<ge> 2 ^ 31 \<or> \<not> utf8_piece x then ((SQL_ERROR, None, None), w)
      else if length x \<ge> nat b
      then ((SQL_SUCCESS_WITH_INFO, Some (CText x), n),
        w\<lparr>column := i, offset := (if column w = i then offset w else 0) + (nat b - 1)\<rparr>)
      else ((SQL_SUCCESS, Some (CText x), n), w))"

definition scripted_data ::
  "int \<Rightarrow> int \<Rightarrow> int \<Rightarrow> int \<Rightarrow> bool \<Rightarrow> script \<Rightarrow> (int \<times> cval option \<times> int option) \<times> script"
  where
  "scripted_data h i t b ind w = (case nth_from_1 (row w) i of
     None \<Rightarrow> ((SQL_ERROR, None, None), w)
   | Some None \<Rightarrow>
       if ind then ((SQL_SUCCESS, None, Some SQL_NULL_DATA), w) else ((SQL_ERROR, None, None), w)
   | Some (Some v) \<Rightarrow>
       if \<not> has_c_type t v then ((SQL_ERROR, None, None), w)
       else if t = SQL_CHAR then scripted_text i b w
       else ((SQL_SUCCESS, Some v, Some 0), w))"

definition scripted_diag_int :: "int \<Rightarrow> int \<Rightarrow> int \<Rightarrow> int \<Rightarrow> script \<Rightarrow> (int \<times> int option) \<times> script"
  where
  "scripted_diag_int t h i f w =
     (if f = SQL_DIAG_NUMBER then ((SQL_SUCCESS, Some (int (length (records w)))), w)
      else if f = SQL_DIAG_MESSAGE_OCTET_LENGTH
      then (case nth_from_1 (records w) i of
          None \<Rightarrow> ((SQL_NO_DATA, None), w)
        | Some (c, m) \<Rightarrow> ((SQL_SUCCESS, Some (int (length m) mod (2 ^ 15 - 1))), w))
      else ((SQL_SUCCESS, Some 0), w))"

definition scripted_record ::
  "int \<Rightarrow> int \<Rightarrow> int \<Rightarrow> int \<Rightarrow> script \<Rightarrow> (int \<times> string option \<times> string option) \<times> script" where
  "scripted_record t h i b w = (case nth_from_1 (records w) i of
     None \<Rightarrow> ((SQL_NO_DATA, None, None), w)
   | Some (c, m) \<Rightarrow> if length c \<noteq> 5 then ((SQL_ERROR, None, None), w)
       else ((SQL_SUCCESS, Some c, Some m), w))"

definition scripted_column ::
  "int \<Rightarrow> int \<Rightarrow> int \<Rightarrow> script \<Rightarrow> (int \<times> int option) \<times> script" where
  "scripted_column h i f w = (case nth_from_1 (columns w) i of
     None \<Rightarrow> ((SQL_ERROR, None), w)
   | Some (n, fs) \<Rightarrow> ((SQL_SUCCESS, Some (case map_of fs f of None \<Rightarrow> 0 | Some v \<Rightarrow> v)), w))"

definition scripted_column_name ::
  "int \<Rightarrow> int \<Rightarrow> int \<Rightarrow> int \<Rightarrow> script \<Rightarrow> (int \<times> string option) \<times> script" where
  "scripted_column_name h i f b w = (case nth_from_1 (columns w) i of
     None \<Rightarrow> ((SQL_ERROR, None), w)
   | Some (n, _) \<Rightarrow> ((SQL_SUCCESS, Some (if f = SQL_DESC_NAME then n else '''')), w))"

definition scripted :: "script cli" where
  "scripted = \<lparr>
     SQLAllocHandle = scripted_alloc,
     SQLBindParameter = (\<lambda>q i io vt pt sz sc cv n w. (SQL_SUCCESS, w)),
     SQLCloseCursor = (\<lambda>q w. (SQL_SUCCESS, w)),
     SQLColAttributeText = scripted_column_name,
     SQLColAttributeInt = scripted_column,
     SQLConnect = (\<lambda>c v u w. (SQL_SUCCESS, w)),
     SQLDisconnect = (\<lambda>c w. (SQL_SUCCESS, w)),
     SQLEndTran = (\<lambda>t c k w. (SQL_SUCCESS, w)),
     SQLExecDirect = (\<lambda>q x. scripted_execute q),
     SQLExecute = scripted_execute,
     SQLFetch = scripted_fetch,
     SQLFreeHandle = (\<lambda>t h w. (SQL_SUCCESS, w)),
     SQLGetData = scripted_data,
     SQLGetDiagFieldText = (\<lambda>t h i f b w. ((SQL_SUCCESS, Some ''''), w)),
     SQLGetDiagFieldInt = scripted_diag_int,
     SQLGetDiagRec = scripted_record,
     SQLGetStmtAttr = (\<lambda>q a w. ((SQL_SUCCESS, Some 0), w)),
     SQLNumResultCols = (\<lambda>q w. if length (columns w) < 2 ^ 15 - 1
       then ((SQL_SUCCESS, Some (int (length (columns w)))), w) else ((SQL_ERROR, None), w)),
     SQLPrepare = scripted_prepare,
     SQLSetCursorName = (\<lambda>q x w. (SQL_SUCCESS, w)),
     SQLSetStmtAttr = (\<lambda>q a n w. (SQL_SUCCESS, w)),
     SQLStartTran = (\<lambda>t c a l w. (SQL_SUCCESS, w))\<rparr>"

lemma completed_codes [simp]:
  "completed SQL_SUCCESS" "completed SQL_SUCCESS_WITH_INFO" "\<not> completed SQL_ERROR"
  "\<not> completed SQL_NO_DATA"
  by (simp_all add: completed_def codes)

definition unread_octets :: "int \<Rightarrow> int \<Rightarrow> script \<Rightarrow> nat" where
  "unread_octets h i w = (if length (unread i w) < 2 ^ 31 then length (unread i w) else 0)"

lemma unread_after:
  assumes "b \<le> length (unread i w)"
  shows "length (unread i (w\<lparr>column := i, offset := (if column w = i then offset w else 0) + b\<rparr>)) =
    length (unread i w) - b"
  using assms by (auto simp: unread_def split: option.splits cval.splits)

lemma scripted_text_read:
  assumes "scripted_text i b w = ((rc, v, n), w')" "2 \<le> b"
  shows "completed rc \<Longrightarrow> v = Some (CText x) \<Longrightarrow> utf8_piece x \<and> length (in_buffer (nat b) x) +
      (if rc = SQL_SUCCESS_WITH_INFO then unread_octets h i w' else 0) \<le> unread_octets h i w"
    "rc = SQL_SUCCESS_WITH_INFO \<Longrightarrow> unread_octets h i w' < unread_octets h i w"
    "\<not> completed rc \<Longrightarrow> v = None"
proof -
  obtain k where k: "nat b = Suc k" "0 < k"
    using assms(2) by (cases "nat b") auto
  let ?x = "unread i w"
  let ?later = "w\<lparr>column := i, offset := (if column w = i then offset w else 0) + k\<rparr>"
  have "length (in_buffer (nat b) ?x) \<le> length ?x"
    by (simp add: in_buffer_def cstr_def) (meson length_takeWhile_le min.coboundedI1)
  moreover have "length (in_buffer (nat b) ?x) \<le> k"
    using length_in_buffer [of "nat b" ?x] k by simp
  moreover have "unread_octets h i ?later = length ?x - k"
    if "k < length ?x" "length ?x < 2 ^ 31"
    using unread_after [of k i w] that by (auto simp: unread_octets_def)
  moreover have "rc = SQL_ERROR \<and> v = None \<or>
      length ?x < 2 ^ 31 \<and> utf8_piece ?x \<and> v = Some (CText ?x) \<and>
      (if k < length ?x then rc = SQL_SUCCESS_WITH_INFO \<and> w' = ?later else rc = SQL_SUCCESS)"
    using assms(1) k by (auto simp: scripted_text_def Let_def split: if_splits)
  ultimately have "completed rc \<longrightarrow> v = Some (CText x) \<longrightarrow> utf8_piece x \<and>
      length (in_buffer (nat b) x) +
      (if rc = SQL_SUCCESS_WITH_INFO then unread_octets h i w' else 0) \<le> unread_octets h i w"
    "rc = SQL_SUCCESS_WITH_INFO \<longrightarrow> unread_octets h i w' < unread_octets h i w"
    "\<not> completed rc \<longrightarrow> v = None"
    using k(2) unfolding unread_octets_def [of h i w]
    by (auto simp: codes completed_def split: if_splits)
  then show "completed rc \<Longrightarrow> v = Some (CText x) \<Longrightarrow> utf8_piece x \<and> length (in_buffer (nat b) x) +
      (if rc = SQL_SUCCESS_WITH_INFO then unread_octets h i w' else 0) \<le> unread_octets h i w"
    "rc = SQL_SUCCESS_WITH_INFO \<Longrightarrow> unread_octets h i w' < unread_octets h i w"
    "\<not> completed rc \<Longrightarrow> v = None"
    by blast+
qed

lemma scripted_retrieves: "retrieves_text scripted unread_octets"
  unfolding retrieves_text_def
proof (intro allI impI)
  fix h i b :: int and ind w
  assume b: "2 \<le> b"
  have "case scripted_data h i SQL_CHAR b ind w of ((rc, v, _), w') \<Rightarrow>
      (completed rc \<longrightarrow> (\<forall>x. v = Some (CText x) \<longrightarrow> utf8_piece x \<and> length (in_buffer (nat b) x) +
        (if rc = SQL_SUCCESS_WITH_INFO then unread_octets h i w' else 0) \<le> unread_octets h i w)) \<and>
      (\<not> completed rc \<longrightarrow> v = None) \<and>
      (rc = SQL_SUCCESS_WITH_INFO \<longrightarrow> unread_octets h i w' < unread_octets h i w)"
    unfolding scripted_data_def
    by (auto simp: codes dest: scripted_text_read(1,2) [OF _ b, where h = h] scripted_text_read(3) [OF _ b]
        split: option.split prod.split)
  then show "unread_octets h i w < 2 ^ 31 \<and>
      (case SQLGetData scripted h i SQL_CHAR b ind w of ((rc, v, _), w') \<Rightarrow>
        (completed rc \<longrightarrow> (\<forall>x. v = Some (CText x) \<longrightarrow> utf8_piece x \<and>
          length (in_buffer (nat b) x) +
            (if rc = SQL_SUCCESS_WITH_INFO then unread_octets h i w' else 0) \<le> unread_octets h i w)) \<and>
        (\<not> completed rc \<longrightarrow> v = None) \<and>
        (rc = SQL_SUCCESS_WITH_INFO \<longrightarrow> unread_octets h i w' < unread_octets h i w))"
    by (simp add: scripted_def unread_octets_def)
qed

lemma scripted_contract: "cli_contract scripted"
proof -
  have "writes_columns scripted" "writes_attribute scripted" "gives_handles scripted"
    by (auto simp: writes_columns_def writes_attribute_def gives_handles_def scripted_def
        scripted_alloc_def Let_def codes completed_def)
  moreover have "writes_data scripted"
    unfolding writes_data_def
    by (auto simp: scripted_def scripted_data_def scripted_text_def Let_def unread_def codes
        completed_def has_c_type_def nth_from_1_def split: option.splits cval.splits)
  moreover have "writes_records scripted"
    unfolding writes_records_def
    by (auto simp: scripted_def scripted_record_def codes completed_def split: option.splits)
  ultimately show ?thesis
    using scripted_retrieves unfolding cli_contract_def by blast
qed

lemma scripted_limits: "within_limits scripted"
  unfolding within_limits_def
proof
  show "few_columns scripted" by (auto simp: few_columns_def scripted_def)
  have "0 \<le> n \<and> n < 2 ^ 15 - 1"
    if "snd (fst (SQLGetDiagFieldInt scripted t h i SQL_DIAG_MESSAGE_OCTET_LENGTH w)) = Some n"
    for t h i w n
    using that by (auto simp: scripted_def scripted_diag_int_def codes split: option.splits prod.splits)
  then show "short_messages scripted"
    unfolding short_messages_def by blast
qed

interpretation scripted: libvsql scripted
  by unfold_locales (rule scripted_contract scripted_limits)+

section \<open>The start of a program\<close>

text \<open>
  The static data of the runtime before the first procedure of the module is called, when the
  state of libvsql is \<open>w\<close>. \<open>sound\<close> is what holds between the statements.
\<close>

definition initial :: "'w \<Rightarrow> 'w state" where
  "initial w = \<lparr>
     agent = \<lparr>ready = False, env = 0, connections = [], current = None, connected = False,
       next_address = 1, atexits = 0\<rparr>,
     da = \<lparr>command_function = '''', command_function_code = 0, dynamic_function = '''',
       dynamic_function_code = 0, row_count = 0, transactions_committed = 0,
       transactions_rolled_back = 0, conditions = [], connection_name = '''',
       server_name = None, cursor_name = None\<rparr>,
     sqlstate = ''00000'', allocations = [], world = w\<rparr>"

definition sound :: "(nat \<Rightarrow> nat) \<Rightarrow> 'w audit_state state \<Rightarrow> bool" where
  "sound cc s \<longleftrightarrow> invar audited cc {#} s \<and> settled (agent s)"

definition unused :: "'w \<Rightarrow> 'w audit_state" where
  "unused w = \<lparr>inner = w, allocated = {#}, misused = False\<rparr>"

lemma sound_initial: "sound cc (initial (unused w))"
  by (simp add: sound_def initial_def unused_def invar_def wf_agent_def wf_da_def audited_def
      held_def settled_def named_def)

text \<open>A libvsql that has just been started, with the answers that it will give.\<close>

definition playing :: "answer list \<Rightarrow> script" where
  "playing as = \<lparr>next_handle = 1, answers = as, records = [], columns = [], row = [], rows = [],
     column = 0, offset = 0\<rparr>"

definition playing_state :: "answer list \<Rightarrow> script audit_state state" where
  "playing_state as = initial (unused (playing as))"

text \<open>A module with two cursors.\<close>

definition sample_module :: vsql_m_module where
  "sample_module = \<lparr>own = 1, set_schema = '''', cursor_names = [''C1'', ''C2''],
     cursor_statements = [None, Some ''S1'']\<rparr>"

end
