(* ===== verification/Program.thy ===== *)
theory Program
  imports Using GetDiagnostics Scripted
begin

text \<open>
  A program: its host language calls the procedures of its modules in any order, and each of them
  executes one SQL-statement with the routines of the runtime. The procedures are generated as they
  are here: they begin with \<open>vsql_m_begin\<close>, and call the routines of the statement. Whatever a
  program does, the invariant holds between its procedures.
\<close>

section \<open>Statements\<close>

text \<open>
  A value of a SET DESCRIPTOR, and the SQL-statements with the arguments of their routines. The
  values that GET DESCRIPTOR and GET DIAGNOSTICS read are assigned afterwards, which does not
  change the state; \<open>w\<close> is whether one was truncated.
\<close>

datatype item_value =
    Set_Number number_component int
  | Set_String string_component string
  | Set_Data int int cval

datatype statement =
    Connect_To "string option" "string option" "string option"
  | Set_Connection "string option"
  | Disconnect_From char string
  | Start_Transaction
  | End_Transaction int
  | Execute_Statement string "vsql_m_param list"
  | Select_Into string "vsql_m_param list" "vsql_m_target list"
  | Open_Cursor nat string bool string "vsql_m_param list"
  | Fetch_Into nat "vsql_m_target list"
  | Close_Cursor nat
  | Allocate_Descriptor string "nat option" int
  | Deallocate_Descriptor string "nat option"
  | Get_Header string "nat option" bool
  | Get_Item string "nat option" int int int bool bool
  | Set_Count string "nat option" int
  | Set_Item string "nat option" int "item_value list"
  | Prepare_Statement string string
  | Deallocate_Prepared string
  | Describe_Output string string "nat option"
  | Execute_Prepared string vsql_m_input vsql_m_output
  | Execute_Immediate string
  | Open_Dynamic nat string bool string vsql_m_input
  | Fetch_Dynamic nat vsql_m_output

text \<open>\<open>if (vsql_m_i != NULL && vsql_m_set_...(...) && ...)\<close>.\<close>

fun set_values :: "item_pointer \<Rightarrow> item_value list \<Rightarrow> 'w state \<Rightarrow> (bool \<times> 'w state) option" where
  "set_values p [] s = Some (True, s)"
| "set_values p (v # vs) s = do {
     (good, s) \<leftarrow> (case v of
         Set_Number n x \<Rightarrow> vsql_m_set_number p n x s
       | Set_String n x \<Rightarrow> vsql_m_set_string p n x s
       | Set_Data t l x \<Rightarrow> vsql_m_set_data p t l x s);
     if good then set_values p vs s else Some (False, s)
   }"

definition set_items ::
  "'w cli \<Rightarrow> vsql_m_module \<Rightarrow> string \<Rightarrow> nat option \<Rightarrow> int \<Rightarrow> item_value list \<Rightarrow> 'w state
    \<Rightarrow> (unit \<times> 'w state) option" where
  "set_items L M name module n vs s = do {
     (p, s) \<leftarrow> vsql_m_set_item L M name module n s;
     case p of
       None \<Rightarrow> Some ((), s)
     | Some p \<Rightarrow> do {
         (good, s) \<leftarrow> set_values p vs s;
         if good then vsql_m_status ''00000'' s else Some ((), s)
       }
   }"

text \<open>A result that is not used.\<close>

definition ignore :: "('a \<times> 's) option \<Rightarrow> (unit \<times> 's) option" where
  "ignore m = map_option (\<lambda>r. ((), snd r)) m"

definition if_found :: "bool \<Rightarrow> ('a option \<times> 'w state) option \<Rightarrow> (unit \<times> 'w state) option" where
  "if_found w m = do {
     (p, s) \<leftarrow> m;
     case p of
       None \<Rightarrow> Some ((), s)
     | Some _ \<Rightarrow> vsql_m_status (if w then ''01004'' else ''00000'') s
   }"

primrec perform ::
  "'w cli \<Rightarrow> vsql_m_module \<Rightarrow> statement \<Rightarrow> 'w state \<Rightarrow> (unit \<times> 'w state) option" where
  "perform L M (Connect_To server name user) s = vsql_m_connect L M server name user s"
| "perform L M (Set_Connection name) s = vsql_m_set_connection name s"
| "perform L M (Disconnect_From which name) s = vsql_m_disconnect L which name s"
| "perform L M Start_Transaction s = vsql_m_start L M s"
| "perform L M (End_Transaction completion) s = vsql_m_end L M completion s"
| "perform L M (Execute_Statement sql ps) s = vsql_m_execute L M sql ps s"
| "perform L M (Select_Into sql ps ts) s = ignore (vsql_m_select L M sql ps ts s)"
| "perform L M (Open_Cursor i name hold sql ps) s = vsql_m_open_cursor L M i name hold sql ps s"
| "perform L M (Fetch_Into i ts) s = ignore (vsql_m_fetch L M i ts s)"
| "perform L M (Close_Cursor i) s = vsql_m_close_cursor L M i s"
| "perform L M (Allocate_Descriptor name m n) s = vsql_m_allocate_descriptor L M name m n s"
| "perform L M (Deallocate_Descriptor name m) s = vsql_m_deallocate_descriptor L M name m s"
| "perform L M (Get_Header name m w) s = if_found w (vsql_m_descriptor L M name m s)"
| "perform L M (Get_Item name m n t l ind w) s =
     if_found w (vsql_m_get_item L M name m n t l ind s)"
| "perform L M (Set_Count name m v) s = vsql_m_set_count L M name m v s"
| "perform L M (Set_Item name m n vs) s = set_items L M name m n vs s"
| "perform L M (Prepare_Statement name sql) s = vsql_m_prepare L M name sql s"
| "perform L M (Deallocate_Prepared name) s = vsql_m_deallocate_prepare L M name s"
| "perform L M (Describe_Output stmt name m) s = vsql_m_describe L M stmt name m s"
| "perform L M (Execute_Prepared name i out) s =
     ignore (vsql_m_execute_prepared L M name i out s)"
| "perform L M (Execute_Immediate sql) s = vsql_m_execute_immediate L M sql s"
| "perform L M (Open_Dynamic i name hold stmt u) s =
     vsql_m_open_dynamic L M i name hold stmt u s"
| "perform L M (Fetch_Dynamic i out) s = ignore (vsql_m_fetch_dynamic L M i out s)"

definition procedure ::
  "'w cli \<Rightarrow> vsql_m_module \<Rightarrow> string \<Rightarrow> int \<Rightarrow> statement \<Rightarrow> 'w state \<Rightarrow> (unit \<times> 'w state) option"
  where
  "procedure L M command code st s = do {
     (_, s) \<leftarrow> vsql_m_begin command code s;
     perform L M st s
   }"

section \<open>The programs that are generated\<close>

text \<open>
  The arguments of the routines are generated: a cursor is one of the module, the host parameters
  have their types, and the arrays have the lengths that they are given with.
\<close>

definition typed_value :: "item_value \<Rightarrow> bool" where
  "typed_value v = (case v of
     Set_Data t l x \<Rightarrow> t \<in> set host_types \<and> data_of t x \<noteq> None
   | _ \<Rightarrow> True)"

definition generated :: "vsql_m_module \<Rightarrow> statement \<Rightarrow> bool" where
  "generated M st = (case st of
     Select_Into sql ps ts \<Rightarrow> \<forall>t\<in>set ts. wf_target t
   | Open_Cursor i name hold sql ps \<Rightarrow> i < vsql_m_cursor_count M
   | Fetch_Into i ts \<Rightarrow> i < vsql_m_cursor_count M \<and> (\<forall>t\<in>set ts. wf_target t)
   | Close_Cursor i \<Rightarrow> i < vsql_m_cursor_count M
   | Set_Item name m n vs \<Rightarrow> \<forall>v\<in>set vs. typed_value v
   | Execute_Prepared name i out \<Rightarrow> wf_input i \<and> wf_output out
   | Open_Dynamic i name hold stmt u \<Rightarrow> i < vsql_m_cursor_count M \<and> wf_input u
   | Fetch_Dynamic i out \<Rightarrow> i < vsql_m_cursor_count M \<and> wf_output out
   | _ \<Rightarrow> True)"

text \<open>
  A step of a program is a call of a procedure that is generated. The status parameter has any
  value before, and any of the allocations can fail.
\<close>

inductive call_procedure ::
  "'w cli \<Rightarrow> (nat \<Rightarrow> nat) \<Rightarrow> 'w state \<Rightarrow> 'w state \<Rightarrow> bool" for L cc where
  "linked cc M \<Longrightarrow> length command < 32 \<Longrightarrow> generated M st \<Longrightarrow>
   procedure L M command code st (s\<lparr>sqlstate := x, allocations := bs\<rparr>) = Some ((), s') \<Longrightarrow>
   call_procedure L cc s s'"

inductive_cases call_procedureE: "call_procedure L cc s s'"

inductive reachable :: "'w cli \<Rightarrow> (nat \<Rightarrow> nat) \<Rightarrow> 'w \<Rightarrow> 'w state \<Rightarrow> bool" for L cc w where
  starts: "reachable L cc w (initial w)"
| calls: "reachable L cc w s \<Longrightarrow> call_procedure L cc s s' \<Longrightarrow> reachable L cc w s'"

section \<open>Rules\<close>

lemma ok_ignore [simp]: "ok (ignore m) Q = ok m (\<lambda>_. Q ())"
  by (cases m) (auto simp: ignore_def)

context runtime
begin

lemma set_values_ok:
  assumes "invar J cursor_count X s" "settled (agent s)" "item_at p (agent s)"
    "\<forall>v\<in>set vs. typed_value v"
    and "\<And>s'. invar J cursor_count X s' \<Longrightarrow> settled (agent s') \<Longrightarrow> length (sqlstate s') = 5 \<Longrightarrow>
      Q False s'"
    and "\<And>s'. invar J cursor_count X s' \<Longrightarrow> settled (agent s') \<Longrightarrow> Q True s'"
  shows "ok (set_values p vs s) Q"
  using assms
proof (induction vs arbitrary: s)
  case (Cons v vs)
  note rest = Cons.IH [OF _ _ _ _ Cons.prems(5,6)]
  show ?case
    using Cons.prems
    by (cases v) (auto simp: typed_value_def intro!: rest vsql_m_set_number_ok [of X]
        vsql_m_set_string_ok [of X] vsql_m_set_data_ok [of X])
qed simp

lemma set_items_ok:
  assumes "invar J cursor_count X s" "settled (agent s)" "\<forall>v\<in>set vs. typed_value v"
    and Q: "\<And>s'. invar J cursor_count X s' \<Longrightarrow> settled (agent s') \<Longrightarrow> length (sqlstate s') = 5 \<Longrightarrow> Q () s'"
  shows "ok (set_items L M name module n vs s) Q"
  unfolding set_items_def using assms(1-3)
  by - ((erule wp set_values_ok | rule conjI impI | assumption | clarsimp | (rule Q; simp))[1])+

lemma perform_ok:
  assumes s: "invar J cursor_count X s" "settled (agent s)" "linked cursor_count M" "generated M st"
    and Q: "\<And>s'. invar J cursor_count X s' \<Longrightarrow> settled (agent s') \<Longrightarrow> length (sqlstate s') = 5 \<Longrightarrow> Q () s'"
  shows "ok (perform L M st s) Q"
proof -
  have five: "length (set_connection_check a n) = 5" "length (disconnect_check a c t) = 5" for a n c t
    by (auto simp: set_connection_check_def disconnect_check_def split: option.split)
  have found: "ok (vsql_m_status code t) Q"
    if "invar J cursor_count X t" "settled (agent t)" "length code = 5" for code t
    using that(2,3) by (intro vsql_m_status_ok [OF that(1)]) (auto intro!: Q)
  show ?thesis
    using s(3,4) unfolding generated_def
    by (cases st) (auto simp: if_found_def five intro!: Q found
      vsql_m_connect_ok [OF s(1,2)] vsql_m_set_connection_ok [OF s(1,2)] vsql_m_disconnect_ok [OF s(1,2)]
      vsql_m_start_ok [OF s(1,2)] vsql_m_end_ok [OF s(1,2)] vsql_m_execute_ok [OF s(1,2)]
      vsql_m_select_ok [OF s(1,2)] vsql_m_open_cursor_ok [OF s(1,2)] vsql_m_fetch_ok [OF s(1,2)]
      vsql_m_close_cursor_ok [OF s(1,2)] vsql_m_allocate_descriptor_ok [OF s(1,2)]
      vsql_m_deallocate_descriptor_ok [OF s(1,2)] vsql_m_descriptor_ok [OF s(1,2)]
      vsql_m_get_item_ok [OF s(1,2)] vsql_m_set_count_ok [OF s(1,2)] set_items_ok [OF s(1,2)]
      vsql_m_prepare_ok [OF s(1,2)] vsql_m_deallocate_prepare_ok [OF s(1,2)]
      vsql_m_describe_ok [OF s(1,2)] vsql_m_execute_prepared_ok [OF s(1,2)]
      vsql_m_execute_immediate_ok [OF s(1,2)] vsql_m_open_dynamic_ok [OF s(1,2)]
      vsql_m_fetch_dynamic_ok [OF s(1,2)])
qed

lemma procedure_ok:
  assumes s: "invar J cursor_count X s" "settled (agent s)" "linked cursor_count M" "generated M st"
    "length command < 32"
    and Q: "\<And>s'. invar J cursor_count X s' \<Longrightarrow> settled (agent s') \<Longrightarrow> length (sqlstate s') = 5 \<Longrightarrow> Q () s'"
  shows "ok (procedure L M command code st s) Q"
  unfolding procedure_def using s(2-5)
  by (auto intro!: vsql_m_begin_ok [OF s(1)] perform_ok Q)

end

section \<open>Any program\<close>

lemma sound_call [simp]: "sound cc (s\<lparr>sqlstate := x, allocations := bs\<rparr>) = sound cc s"
  by (simp add: sound_def invar_def)

lemma procedure_sound:
  assumes "cli_contract L" "within_limits L" "sound cc s" "linked cc M" "generated M st"
    "length command < 32"
  shows "ok (procedure (audit L) M command code st (s\<lparr>sqlstate := x, allocations := bs\<rparr>))
    (\<lambda>_ s'. sound cc s' \<and> length (sqlstate s') = 5)"
proof -
  have "invar audited cc {#} (s\<lparr>sqlstate := x, allocations := bs\<rparr>)"
    using sound_call assms(3) unfolding sound_def by blast
  then show ?thesis
    using assms(3-6)
    by (intro runtime.procedure_ok [OF runtime_audit [OF assms(1,2)]]) (simp_all add: sound_def)
qed

lemma call_procedure_sound:
  assumes "cli_contract L" "within_limits L" "call_procedure (audit L) cc s s'" "sound cc s"
  shows "sound cc s'"
  using assms(3)
proof (rule call_procedureE)
  fix M command st code x bs
  assume "linked cc M" "length command < 32" "generated M st"
    "procedure (audit L) M command code st (s\<lparr>sqlstate := x, allocations := bs\<rparr>) = Some ((), s')"
  then show ?thesis
    using procedure_sound [OF assms(1,2,4), where M = M and st = st and command = command
      and code = code and x = x and bs = bs] by simp
qed

lemma reachable_invariant:
  assumes "cli_contract L" "within_limits L" "reachable (audit L) cc (unused w) s"
  shows "sound cc s"
  using assms(3)
  by induction (auto intro: sound_initial call_procedure_sound [OF assms(1,2)])

text \<open>A generated procedure can be called in any state that a program reaches.\<close>

lemma procedure_step:
  assumes "cli_contract L" "within_limits L" "sound cc s" "linked cc M" "generated M st"
    "length command < 32"
  obtains s' where "call_procedure (audit L) cc s s'"
    "procedure (audit L) M command code st (s\<lparr>sqlstate := x, allocations := bs\<rparr>) = Some ((), s')"
    "length (sqlstate s') = 5"
proof -
  obtain s' where "procedure (audit L) M command code st (s\<lparr>sqlstate := x, allocations := bs\<rparr>) = Some ((), s')"
    "length (sqlstate s') = 5"
    using procedure_sound [OF assms, where code = code and x = x and bs = bs] by (auto simp: ok_def split: option.splits)
  moreover from this(1) have "call_procedure (audit L) cc s s'"
    using assms(4-6) by (intro call_procedure.intros)
  ultimately show thesis by (intro that)
qed

end
