(* ===== verification/Items.thy ===== *)
theory Items
  imports Descriptor
begin

text \<open>
  What the descriptor statements do in an SQL-session: the SQL descriptor areas are a map from
  their names and modules, and each statement changes it as its specification says, with its
  SQLSTATE. The values of DATA that are set and got are the same.
\<close>

section \<open>An SQL-session\<close>

text \<open>
  The module \<open>M\<close> has a current SQL-connection \<open>c\<close>, whose schema is the one of the module, and there is
  enough memory.
\<close>

definition in_session :: "vsql_m_module \<Rightarrow> nat \<Rightarrow> 'w state \<Rightarrow> bool" where
  "in_session M c s \<longleftrightarrow> current (agent s) = Some c \<and> live c (agent s) \<and>
     c_module (lookup c (agent s)) = Some (own M) \<and> allocations s = []"

text \<open>The map that the SQL descriptor areas of the SQL-connection \<open>c\<close> are.\<close>

definition areas :: "nat \<Rightarrow> vsql_m_agent \<Rightarrow> string \<times> nat option \<Rightarrow> vsql_m_descriptor option" where
  "areas c a = entries d_key (c_descriptors (lookup c a))"

lemma connection_in_session:
  "in_session M c s \<Longrightarrow> vsql_m_connection L M s = Some (Some c, s)"
  by (simp add: in_session_def vsql_m_connection_def vsql_m_schema_def deref_live)

lemma areas_lookup:
  "deref_link (c_descriptors (lookup c a)) (vsql_m_find_descriptor name module (lookup c a)) =
     areas c a (name, module)"
  using descriptors.found [of "lookup c a" "(name, module)"] by (simp add: areas_def)

lemma areas_active [simp]:
  "live c a \<Longrightarrow> areas c (update c (\<lambda>k. k\<lparr>c_active := b\<rparr>) a) = areas c a"
  by (simp add: areas_def lookup_update)

lemma distinct_areas:
  "invar J cc X s \<Longrightarrow> live c (agent s) \<Longrightarrow> distinct (map d_key (c_descriptors (lookup c (agent s))))"
  using invar_lookup [of J cc X s c] by (simp add: wf_connection_def)

lemma find_descriptor_active:
  "vsql_m_find_descriptor name module (k\<lparr>c_active := b\<rparr>) = vsql_m_find_descriptor name module k"
  by (simp add: vsql_m_find_descriptor_def)

text \<open>The SQL-transaction is active when a descriptor has been found.\<close>

definition activated :: "nat \<Rightarrow> 'w state \<Rightarrow> 'w state" where
  "activated c s = s\<lparr>agent := update c (\<lambda>k. k\<lparr>c_active := True\<rparr>) (agent s)\<rparr>"

lemma modify_active: "live c (agent s) \<Longrightarrow> modify c (\<lambda>k. k\<lparr>c_active := True\<rparr>) s = Some ((), activated c s)"
  by (simp add: modify_def deref_live activated_def)

lemma activated_simps [simp]:
  "agent (activated c s) = update c (\<lambda>k. k\<lparr>c_active := True\<rparr>) (agent s)"
  "da (activated c s) = da s" "sqlstate (activated c s) = sqlstate s"
  "allocations (activated c s) = allocations s" "world (activated c s) = world s"
  by (simp_all add: activated_def)

lemma activated_ok:
  assumes "invar J cc X s" "settled (agent s)" "live c (agent s)"
  shows "invar J cc X (activated c s)" "settled (agent (activated c s))"
proof -
  have "ok (modify c (\<lambda>k. k\<lparr>c_active := True\<rparr>) s) (\<lambda>_ s'. invar J cc X s')"
    by (rule modify_invar [OF assms(1,3), where X' = X])
      (auto simp: wf_connection_def held_connection_def)
  then show "invar J cc X (activated c s)" using assms(3) by (simp add: modify_active)
  show "settled (agent (activated c s))" using assms(2) by (simp add: settled_update)
qed

lemma in_session_activated: "in_session M c s \<Longrightarrow> in_session M c (activated c s)"
  by (simp add: in_session_def live_update lookup_update)

section \<open>Allocating and deallocating\<close>

definition allocate_check :: "(string \<times> nat option \<Rightarrow> 'd option) \<Rightarrow> string \<times> nat option \<Rightarrow> int \<Rightarrow> string"
  where
  "allocate_check D key n =
     (if n < 1 \<or> n > 32767 then ''07009'' else if key \<in> dom D then ''33000'' else ''00000'')"

lemma status_agent:
  assumes "invar J cc X s" "settled (agent s)" "length code = 5"
    and "\<And>s'. invar J cc X s' \<Longrightarrow> settled (agent s') \<Longrightarrow> agent s' = agent s \<Longrightarrow> sqlstate s' = code \<Longrightarrow>
      has_status code s' \<Longrightarrow> Q () s'"
  shows "ok (vsql_m_status code s) Q"
  using assms(2,3) by (intro vsql_m_status_ok [OF assms(1)]) (auto intro!: assms(4))

lemma allocate_in_session:
  assumes s: "invar J cc X s" "settled (agent s)" "in_session M c s"
    and Q: "\<And>s'. invar J cc X s' \<Longrightarrow> settled (agent s') \<Longrightarrow> code = sqlstate s' \<Longrightarrow> has_status code s' \<Longrightarrow>
      areas c (agent s') = (if code = ''00000''
        then (areas c (agent s))((name, module) \<mapsto> new_descriptor name module n)
        else areas c (agent s)) \<Longrightarrow> Q () s'"
    and code: "code = allocate_check (areas c (agent s)) (name, module) n"
  shows "ok (vsql_m_allocate_descriptor L M name module n s) Q"
proof -
  have live: "live c (agent s)" using s(3) by (simp add: in_session_def)
  let ?t = "activated c s"
  note t = activated_ok [OF s(1,2) live]
  have live': "live c (agent ?t)" using live by (simp add: live_update)
  have areas: "areas c (agent ?t) = areas c (agent s)" using live by simp
  have bad: "ok (vsql_m_status code ?t) Q" if "code \<noteq> ''00000''" "length code = 5"
    using that areas by (intro status_agent [OF t]) (auto intro!: Q)
  have push: "ok (modify c (\<lambda>k. k\<lparr>c_descriptors := new_descriptor name module n # c_descriptors k\<rparr>) ?t)
      (\<lambda>_ s. ok (vsql_m_status ''00000'' s) Q)"
    if n: "\<not> n < 1" "\<not> 32767 < n" and none: "areas c (agent s) (name, module) = None"
  proof (rule modify_invar [OF t(1) live', where X' = X])
    let ?f = "\<lambda>k. k\<lparr>c_descriptors := new_descriptor name module n # c_descriptors k\<rparr>"
    show "wf_connection cc (?f (lookup c (agent ?t)))" if "wf_connection cc (lookup c (agent ?t))"
      using that wf_new_descriptor [OF n, of name module] none areas
        descriptors.push_distinct [of "lookup c (agent ?t)" "new_descriptor name module n"]
      by (simp add: wf_connection_def areas_lookup)
    fix u :: "'a state"
    assume u: "invar J cc X u" "agent u = update c ?f (agent ?t)"
    have "areas c (agent u) = (areas c (agent s))((name, module) \<mapsto> new_descriptor name module n)"
      using wf_new_descriptor [OF n, of name module] live' u(2) areas
      by (simp add: areas_def lookup_update)
    moreover have "code = ''00000''" using n none by (simp add: code allocate_check_def domIff)
    ultimately show "ok (vsql_m_status ''00000'' u) Q"
      using t(2) u(2) by (intro status_agent [OF u(1)]) (auto intro!: Q simp: settled_update)
  qed (simp_all add: held_connection_def)
  show ?thesis
  proof (cases "n < 1 \<or> n > 32767")
    case True
    then have "code = ''07009''" by (simp add: code allocate_check_def)
    then show ?thesis
      using True bad unfolding vsql_m_allocate_descriptor_def
      by (simp add: connection_in_session [OF s(3)] modify_active [OF live])
  next
    case False
    show ?thesis
    proof (cases "areas c (agent s) (name, module)")
      case None
      then show ?thesis
        using False push s(3) areas unfolding vsql_m_allocate_descriptor_def allocate_both_def
        by (simp add: connection_in_session [OF s(3)] modify_active [OF live] deref_live [OF live']
            areas_lookup allocate_enough in_session_def del: activated_simps(1))
    next
      case (Some d)
      then have "code = ''33000''" using False by (simp add: code allocate_check_def domIff)
      then show ?thesis
        using False Some bad areas unfolding vsql_m_allocate_descriptor_def
        by (simp add: connection_in_session [OF s(3)] modify_active [OF live] deref_live [OF live']
            areas_lookup del: activated_simps(1))
    qed
  qed
qed

text \<open>Finding a descriptor makes the SQL-transaction active, or is an exception.\<close>

lemma descriptor_eq:
  assumes "in_session M c s"
  shows "vsql_m_descriptor L M name module s =
    (if areas c (agent s) (name, module) = None then do {
       (_, s) \<leftarrow> vsql_m_status ''33000'' (activated c s);
       Some (None, s)
     } else Some (Some (c, vsql_m_find_descriptor name module (lookup c (agent s))), activated c s))"
proof -
  have live: "live c (agent s)" "live c (agent (activated c s))"
    using assms by (simp_all add: in_session_def live_update)
  have "vsql_m_find_descriptor name module (lookup c (agent (activated c s))) =
      vsql_m_find_descriptor name module (lookup c (agent s))"
    "c_descriptors (lookup c (agent (activated c s))) = c_descriptors (lookup c (agent s))"
    using live(1) by (simp_all add: lookup_update find_descriptor_active)
  then show ?thesis
    unfolding vsql_m_descriptor_def
    by (simp add: connection_in_session [OF assms] modify_active [OF live(1)] deref_live [OF live(2)]
        areas_lookup Let_def del: activated_simps(1))
qed

lemma descriptor_found:
  assumes "live c (agent s)" "areas c (agent s) (name, module) = Some d"
  shows "descriptor_at (c, vsql_m_find_descriptor name module (lookup c (agent s))) (agent (activated c s))"
    "the_descriptor (c, vsql_m_find_descriptor name module (lookup c (agent s))) (agent (activated c s)) = d"
  using assms descriptors.found_nth [of "lookup c (agent s)" "(name, module)" d]
  by (simp_all add: descriptor_at_def the_descriptor_def live_update lookup_update areas_lookup)

lemma deallocate_in_session:
  assumes s: "invar J cc X s" "settled (agent s)" "in_session M c s"
    and code: "code = (if areas c (agent s) (name, module) = None then ''33000'' else ''00000'')"
    and Q: "\<And>s'. invar J cc X s' \<Longrightarrow> settled (agent s') \<Longrightarrow> sqlstate s' = code \<Longrightarrow> has_status code s' \<Longrightarrow>
      areas c (agent s') = (areas c (agent s))((name, module) := None) \<Longrightarrow> Q () s'"
  shows "ok (vsql_m_deallocate_descriptor L M name module s) Q"
proof -
  have live: "live c (agent s)" using s(3) by (simp add: in_session_def)
  let ?t = "activated c s"
  note t = activated_ok [OF s(1,2) live]
  have live': "live c (agent ?t)" using live by (simp add: live_update)
  have areas: "areas c (agent ?t) = areas c (agent s)" using live by simp
  show ?thesis
  proof (cases "areas c (agent s) (name, module)")
    case None
    then have "ok (vsql_m_status ''33000'' ?t) Q"
      using areas by (intro status_agent [OF t]) (auto intro!: Q simp: code fun_eq_iff)
    then show ?thesis
      using None areas unfolding vsql_m_deallocate_descriptor_def
      by (simp add: connection_in_session [OF s(3)] modify_active [OF live] deref_live [OF live']
          areas_lookup del: activated_simps(1))
  next
    case (Some d)
    let ?i = "vsql_m_find_descriptor name module (lookup c (agent ?t))"
    let ?f = "\<lambda>k. k\<lparr>c_descriptors := unlink ?i (c_descriptors k)\<rparr>"
    have d: "wf_descriptor d"
      using invar_lookup [OF s(1) live] entries_key [of d_key _ "(name, module)" d] Some
      by (auto simp: areas_def wf_connection_def)
    have wf: "wf_connection cc (lookup c (agent ?t))"
      using t(1) live' by (rule invar_lookup)
    have "ok (modify c ?f ?t) (\<lambda>_ s. ok (vsql_m_status ''00000'' s) Q)"
    proof (rule modify_invar [OF t(1) live', where X' = X])
      show "wf_connection cc (?f (lookup c (agent ?t)))"
        using wf by (auto simp: wf_connection_def distinct_map_unlink dest: set_unlink_subset [THEN subsetD])
      fix u :: "'a state"
      assume u: "invar J cc X u" "agent u = update c ?f (agent ?t)"
      have "areas c (agent u) = (areas c (agent s))((name, module) := None)"
        using descriptors.dropped [of "lookup c (agent ?t)" "(name, module)"] live' u(2) areas wf
        by (simp add: areas_def lookup_update wf_connection_def)
      then show "ok (vsql_m_status ''00000'' u) Q"
        using t(2) u(2) Some code by (intro status_agent [OF u(1)]) (auto intro!: Q simp: settled_update)
    qed (simp_all add: held_connection_def)
    then show ?thesis
      using Some areas d unfolding vsql_m_deallocate_descriptor_def Let_def
      by (simp add: connection_in_session [OF s(3)] modify_active [OF live] deref_live [OF live']
          areas_lookup vsql_m_free_descriptor_def wf_descriptor_def del: activated_simps(1))
  qed
qed

section \<open>Getting and setting\<close>

text \<open>The checks of GET DESCRIPTOR for item \<open>n\<close>, and of SET DESCRIPTOR for COUNT.\<close>

definition get_check ::
  "vsql_m_descriptor option \<Rightarrow> int \<Rightarrow> int \<Rightarrow> int \<Rightarrow> bool \<Rightarrow> string" where
  "get_check area n type len ind = (case area of
     None \<Rightarrow> ''33000''
   | Some d \<Rightarrow>
       if n < 1 \<or> n > d_max d then ''07009''
       else if n > d_count d then ''02000''
       else if type \<noteq> 0 \<and> \<not> vsql_m_matches (d_items d ! nat (n - 1)) type len True then ''22005''
       else if type \<noteq> 0 \<and> number (d_items d ! nat (n - 1)) VSQL_M_INDICATOR < 0 \<and> \<not> ind then ''22002''
       else ''00000'')"

lemma get_item_in_session:
  assumes s: "invar J cc X s" "settled (agent s)" "in_session M c s"
    and bad: "\<And>s'. code \<noteq> ''00000'' \<Longrightarrow> invar J cc X s' \<Longrightarrow> settled (agent s') \<Longrightarrow> sqlstate s' = code \<Longrightarrow>
      areas c (agent s') = areas c (agent s) \<Longrightarrow> Q None s'"
    and good: "\<And>p d s'. code = ''00000'' \<Longrightarrow> invar J cc X s' \<Longrightarrow> settled (agent s') \<Longrightarrow>
      areas c (agent s') = areas c (agent s) \<Longrightarrow> areas c (agent s) (name, module) = Some d \<Longrightarrow>
      item_at p (agent s') \<Longrightarrow> the_item p (agent s') = d_items d ! nat (n - 1) \<Longrightarrow> Q (Some p) s'"
    and code: "code = get_check (areas c (agent s) (name, module)) n type len ind"
  shows "ok (vsql_m_get_item L M name module n type len ind s) Q"
proof -
  have live: "live c (agent s)" using s(3) by (simp add: in_session_def)
  let ?t = "activated c s"
  note t = activated_ok [OF s(1,2) live]
  have status: "ok (vsql_m_status st ?t) (\<lambda>_. Q None)" if "st = code" "st \<noteq> ''00000''" "length st = 5" for st
    using that live by (intro status_agent [OF t]) (auto intro!: bad)
  show ?thesis
  proof (cases "areas c (agent s) (name, module)")
    case None
    then show ?thesis
      using status [of "''33000''"] unfolding vsql_m_get_item_def
      by (simp add: descriptor_eq [OF s(3)] code get_check_def)
  next
    case (Some d)
    let ?p = "(c, vsql_m_find_descriptor name module (lookup c (agent s)))"
    note found = descriptor_found [OF live Some]
    have good': "Q (Some (?p, nat (n - 1))) ?t" if "code = ''00000''" "\<not> n < 1" "\<not> d_max d < n"
      using that t live Some found item_in_descriptor [OF t(1) found(1) that(2)]
      by (intro good [of _ d]) (simp_all add: the_item_def)
    have item: "item_at (?p, nat (n - 1)) (agent ?t)" if "\<not> n < 1" "\<not> d_max d < n"
      using item_in_descriptor [OF t(1) found(1) that(1)] that(2) found(2) by simp
    have the: "the_item (?p, nat (n - 1)) (agent ?t) = d_items d ! nat (n - 1)"
      using found(2) by (simp add: the_item_def)
    show ?thesis
      using status [of "''07009''"] status [of "''02000''"] status [of "''22005''"]
        status [of "''22002''"] good' item the Some unfolding vsql_m_get_item_def
      by (simp add: descriptor_eq [OF s(3)] deref_descriptor_eq [OF found(1)] found(2) deref_item_eq
          code get_check_def del: activated_simps(1))
  qed
qed

definition count_check :: "vsql_m_descriptor option \<Rightarrow> int \<Rightarrow> string" where
  "count_check area v =
     (if area = None then ''33000'' else if v \<noteq> cast32 v then ''22003'' else ''00000'')"

lemma modify_descriptor_areas:
  assumes s: "invar J cc X s" "settled (agent s)" "descriptor_at p (agent s)"
    and f: "d_key (f (the_descriptor p (agent s))) = d_key (the_descriptor p (agent s))"
      "wf_descriptor (the_descriptor p (agent s)) \<Longrightarrow> wf_descriptor (f (the_descriptor p (agent s)))"
    and Q: "\<And>s'. invar J cc X s' \<Longrightarrow> settled (agent s') \<Longrightarrow>
      areas (fst p) (agent s') = (areas (fst p) (agent s))(d_key (the_descriptor p (agent s)) \<mapsto>
        f (the_descriptor p (agent s))) \<Longrightarrow> Q () s'"
  shows "ok (modify_descriptor p f s) Q"
proof -
  let ?u = "s\<lparr>agent := update (fst p) (set_descriptor (snd p) f) (agent s)\<rparr>"
  have live: "live (fst p) (agent s)" and i: "snd p < length (c_descriptors (lookup (fst p) (agent s)))"
    using s(3) by (simp_all add: descriptor_at_def)
  have m: "modify_descriptor p f s = Some ((), ?u)"
    by (simp add: modify_descriptor_def deref_descriptor_eq [OF s(3)] modify_def deref_live [OF live])
  have "ok (modify_descriptor p f s) (\<lambda>_ s'. invar J cc X s' \<and> settled (agent s'))"
    by (rule modify_descriptor_invar [OF s]) (use f in auto)
  then have u: "invar J cc X ?u" "settled (agent ?u)" unfolding m by simp_all
  have "c_descriptors (lookup (fst p) (agent ?u)) =
      (c_descriptors (lookup (fst p) (agent s)))[snd p := f (the_descriptor p (agent s))]"
    using live by (simp add: lookup_update) (simp add: set_descriptor_def the_descriptor_def)
  then have "areas (fst p) (agent ?u) = (areas (fst p) (agent s))(d_key (the_descriptor p (agent s)) \<mapsto>
      f (the_descriptor p (agent s)))"
    using entries_update [OF distinct_areas [OF s(1) live] i, of "f (the_descriptor p (agent s))"] f(1)
    by (simp add: areas_def the_descriptor_def)
  then show ?thesis unfolding m using Q [OF u] by simp
qed

lemma set_count_in_session:
  assumes s: "invar J cc X s" "settled (agent s)" "in_session M c s"
    and Q: "\<And>s'. invar J cc X s' \<Longrightarrow> settled (agent s') \<Longrightarrow> sqlstate s' = code \<Longrightarrow> has_status code s' \<Longrightarrow>
      areas c (agent s') = (if code = ''00000''
        then (areas c (agent s))((name, module) \<mapsto> (the (areas c (agent s) (name, module)))\<lparr>d_count := v\<rparr>)
        else areas c (agent s)) \<Longrightarrow> Q () s'"
    and code: "code = count_check (areas c (agent s) (name, module)) v"
  shows "ok (vsql_m_set_count L M name module v s) Q"
proof -
  have live: "live c (agent s)" using s(3) by (simp add: in_session_def)
  let ?t = "activated c s"
  note t = activated_ok [OF s(1,2) live]
  have status: "ok (vsql_m_status st ?t) Q" if "st = code" "st \<noteq> ''00000''" "length st = 5" for st
    using that live by (intro status_agent [OF t]) (auto intro!: Q)
  show ?thesis
  proof (cases "areas c (agent s) (name, module)")
    case None
    then show ?thesis
      using status [of "''33000''"] unfolding vsql_m_set_count_def
      by (simp add: descriptor_eq [OF s(3)] code count_check_def)
  next
    case (Some d)
    let ?p = "(c, vsql_m_find_descriptor name module (lookup c (agent s)))"
    note found = descriptor_found [OF live Some]
    have key: "d_key d = (name, module)"
      using Some entries_key [of d_key _ "(name, module)" d] by (simp add: areas_def)
    have "ok (modify_descriptor ?p (\<lambda>d. d\<lparr>d_count := cast32 v\<rparr>) ?t) (\<lambda>_ s. ok (vsql_m_status ''00000'' s) Q)"
      if v: "cast32 v = v"
    proof (rule modify_descriptor_areas [OF t found(1)])
      fix u :: "'a state"
      assume u: "invar J cc X u" "settled (agent u)"
        "areas (fst ?p) (agent u) = (areas (fst ?p) (agent ?t))(d_key (the_descriptor ?p (agent ?t)) \<mapsto>
          (the_descriptor ?p (agent ?t))\<lparr>d_count := cast32 v\<rparr>)"
      then have "areas c (agent u) = (areas c (agent s))((name, module) \<mapsto> d\<lparr>d_count := v\<rparr>)"
        using found(2) key v live by simp
      then show "ok (vsql_m_status ''00000'' u) Q"
        using Some v by (intro status_agent [OF u(1,2)]) (auto intro!: Q simp: code count_check_def)
    qed (simp_all add: d_key_def wf_descriptor_def)
    then show ?thesis
      using status [of "''22003''"] Some unfolding vsql_m_set_count_def
      by (auto simp: descriptor_eq [OF s(3)] code count_check_def simp del: activated_simps(1))
  qed
qed

text \<open>
  Setting a number of an item. TYPE resets the item to the defaults of the data type, and
  DATETIME_INTERVAL_CODE sets the default precision.
\<close>

definition number_check :: "vsql_m_item \<Rightarrow> number_component \<Rightarrow> int \<Rightarrow> string" where
  "number_check i n v =
     (if v \<noteq> cast32 v then ''22003''
      else if n = VSQL_M_LEVEL \<and> v \<noteq> 0 then ''0700E''
      else if n = VSQL_M_DATETIME_INTERVAL_CODE \<and>
        (number i VSQL_M_TYPE \<noteq> SQL_DATETIME \<or> v < 1 \<or> v > 5) then ''0700F''
      else ''00000'')"

definition type_defaults :: "int \<Rightarrow> number_component \<Rightarrow> int" where
  "type_defaults t = (\<lambda>_. 0)(
     VSQL_M_TYPE := t,
     VSQL_M_LENGTH := if t = SQL_CHAR \<or> t = SQL_VARCHAR then 1 else 0,
     VSQL_M_PRECISION := if t = SQL_NUMERIC \<or> t = SQL_DECIMAL then 18
       else if t = SQL_FLOAT then 53 else 0)"

definition numbers_after ::
  "vsql_m_item \<Rightarrow> number_component \<Rightarrow> int \<Rightarrow> number_component \<Rightarrow> int" where
  "numbers_after i n v =
     (if n = VSQL_M_TYPE then type_defaults v
      else if n = VSQL_M_DATETIME_INTERVAL_CODE
      then (number i)(VSQL_M_PRECISION := if v = 3 \<or> v = 5 then 6 else 0, n := v)
      else (number i)(n := v))"

lemma item_simps [simp]:
  "number (set_number n v i) = (number i)(n := cast32 v)" "data (set_number n v i) = data i"
  "number (set_string m x i) = number i" "data (set_string m x i) = data i"
  "number (vsql_m_reset_item i) = (\<lambda>_. 0)" "data (vsql_m_reset_item i) = None"
  by (simp_all add: set_number_def set_string_def vsql_m_reset_item_def)

lemma cast32_small [simp]: "cast32 1 = 1" "cast32 6 = 6" "cast32 18 = 18" "cast32 53 = 53"
  by (simp_all add: cast32_def)

lemma set_type_numbers:
  assumes s: "invar J cc X s" "settled (agent s)" "item_at p (agent s)"
    and Q: "\<And>s'. invar J cc X s' \<Longrightarrow> settled (agent s') \<Longrightarrow> item_at p (agent s') \<Longrightarrow>
      data (the_item p (agent s')) = None \<Longrightarrow>
      number (the_item p (agent s')) = (type_defaults v)(VSQL_M_TYPE := 0) \<Longrightarrow> Q () s'"
  shows "ok (vsql_m_set_type p v s) Q"
proof -
  have level: "number (the_item p (agent s)) VSQL_M_LEVEL = 0"
    using wf_the_item [OF s(1,3)] by (simp add: wf_item_def)
  have numbers: "((\<lambda>_. 0)(VSQL_M_LEVEL := 0)) = (\<lambda>_. 0 :: int)" by auto
  have ne: "SQL_NUMERIC \<noteq> SQL_CHAR" "SQL_NUMERIC \<noteq> SQL_VARCHAR" "SQL_DECIMAL \<noteq> SQL_CHAR"
    "SQL_DECIMAL \<noteq> SQL_VARCHAR" "SQL_FLOAT \<noteq> SQL_CHAR" "SQL_FLOAT \<noteq> SQL_VARCHAR"
    "SQL_FLOAT \<noteq> SQL_NUMERIC" "SQL_FLOAT \<noteq> SQL_DECIMAL"
    by (simp_all add: codes)
  have defaults: "(type_defaults w)(VSQL_M_TYPE := 0) =
     (if w = SQL_CHAR \<or> w = SQL_VARCHAR then (\<lambda>_. 0)(VSQL_M_LENGTH := 1)
      else if w = SQL_NUMERIC \<or> w = SQL_DECIMAL then (\<lambda>_. 0)(VSQL_M_PRECISION := 18)
      else if w = SQL_FLOAT then (\<lambda>_. 0)(VSQL_M_PRECISION := 53)
      else (\<lambda>_. 0))" for w
    using ne by (auto simp: type_defaults_def)
  show ?thesis
    unfolding vsql_m_set_type_def Let_def using s level
    by - ((erule wp modify_item_invar | rule deref_item_ok conjI impI | assumption
      | clarsimp simp: wf_set_number wf_set_string wf_reset_item numbers simp del: same_session_def
      | (rule Q; simp add: defaults numbers ne))[1])+
qed

lemma set_component_numbers:
  assumes s: "invar J cc X s" "settled (agent s)" "item_at p (agent s)"
    "data (the_item p (agent s)) = None" "number_check (the_item p (agent s)) n v = code"
    and v: "cast32 v = v"
    and bad: "\<And>s'. code \<noteq> ''00000'' \<Longrightarrow> invar J cc X s' \<Longrightarrow> settled (agent s') \<Longrightarrow> item_at p (agent s') \<Longrightarrow>
      sqlstate s' = code \<Longrightarrow> the_item p (agent s') = the_item p (agent s) \<Longrightarrow> Q False s'"
    and good: "\<And>s'. code = ''00000'' \<Longrightarrow> invar J cc X s' \<Longrightarrow> settled (agent s') \<Longrightarrow> item_at p (agent s') \<Longrightarrow>
      data (the_item p (agent s')) = None \<Longrightarrow> (n = VSQL_M_LEVEL \<longrightarrow> v = 0) \<Longrightarrow>
      (number (the_item p (agent s')))(n := v) = numbers_after (the_item p (agent s)) n v \<Longrightarrow> Q True s'"
  shows "ok (vsql_m_set_component p n v s) Q"
proof -
  have status: "ok (vsql_m_status st s) (\<lambda>_. Q False)" if "st = code" "st \<noteq> ''00000''" "length st = 5" for st
    using that s(3) by (intro status_agent [OF s(1,2)]) (auto intro!: bad)
  consider "n = VSQL_M_LEVEL" | "n = VSQL_M_TYPE" | "n = VSQL_M_DATETIME_INTERVAL_CODE"
    | "n \<notin> {VSQL_M_LEVEL, VSQL_M_TYPE, VSQL_M_DATETIME_INTERVAL_CODE}"
    by blast
  then show ?thesis
  proof cases
    case 1
    then show ?thesis
      using s status [of "''0700E''"] good [of s] v
      by (auto simp: vsql_m_set_component_def number_check_def numbers_after_def)
  next
    case 2
    have "ok (vsql_m_set_type p v s) (\<lambda>_. Q True)"
      using 2 s(5) v by (intro set_type_numbers [OF s(1-3)])
        (auto intro!: good simp: number_check_def numbers_after_def type_defaults_def)
    then show ?thesis using 2 by (simp add: vsql_m_set_component_def)
  next
    case 3
    have "ok (modify_item p (set_number VSQL_M_PRECISION (if v = 3 \<or> v = 5 then 6 else 0)) s) (\<lambda>_. Q True)"
      if "code = ''00000''"
      using that 3 s(4)
      by (intro modify_item_invar [OF s(1-3)] wf_set_number)
        (auto intro!: good simp: numbers_after_def)
    then show ?thesis
      using 3 s(3,5) v status [of "''0700F''"]
      by (auto simp: vsql_m_set_component_def deref_item_eq number_check_def codes)
  next
    case 4
    then show ?thesis
      using s v good [of s] by (auto simp: vsql_m_set_component_def number_check_def numbers_after_def)
  qed
qed

lemma set_number_effect:
  assumes s: "invar J cc X s" "settled (agent s)" "item_at p (agent s)"
    and code: "code = number_check (the_item p (agent s)) n v"
    and bad: "\<And>s'. code \<noteq> ''00000'' \<Longrightarrow> invar J cc X s' \<Longrightarrow> settled (agent s') \<Longrightarrow> item_at p (agent s') \<Longrightarrow>
      sqlstate s' = code \<Longrightarrow> data (the_item p (agent s')) = None \<Longrightarrow>
      number (the_item p (agent s')) = number (the_item p (agent s)) \<Longrightarrow> Q False s'"
    and good: "\<And>s'. code = ''00000'' \<Longrightarrow> invar J cc X s' \<Longrightarrow> settled (agent s') \<Longrightarrow> item_at p (agent s') \<Longrightarrow>
      data (the_item p (agent s')) = None \<Longrightarrow>
      number (the_item p (agent s')) = numbers_after (the_item p (agent s)) n v \<Longrightarrow> Q True s'"
  shows "ok (vsql_m_set_number p n v s) Q"
proof -
  let ?i = "the_item p (agent s)"
  have set: "ok (modify_item p (set_number n v) u) (\<lambda>_. Q True)"
    if u: "code = ''00000''" "invar J cc X u" "settled (agent u)" "item_at p (agent u)"
      "data (the_item p (agent u)) = None" "n = VSQL_M_LEVEL \<longrightarrow> v = 0"
      "(number (the_item p (agent u)))(n := v) = numbers_after ?i n v" and v: "cast32 v = v" for u
    using u v by (intro modify_item_invar [OF u(2-4)] wf_set_number good) auto
  show ?thesis
    unfolding vsql_m_set_number_def
  proof (simp, intro modify_item_invar [OF s] wf_item_data)
    fix t
    assume t: "invar J cc X t" "settled (agent t)" "item_at p (agent t)"
      "the_item p (agent t) = ?i\<lparr>data := None\<rparr>"
    have numbers: "number_check (the_item p (agent t)) n v = code"
      "numbers_after (the_item p (agent t)) n v = numbers_after ?i n v"
      using t(4) by (auto simp: code number_check_def numbers_after_def)
    have out: "ok (vsql_m_status ''22003'' t) (\<lambda>_. Q False)" if "v \<noteq> cast32 v"
      using that t by (intro status_agent [OF t(1,2)]) (auto intro!: bad simp: code number_check_def)
    have inside: "ok (vsql_m_set_component p n v t) (\<lambda>b u. (\<not> b \<longrightarrow> Q False u) \<and>
        (b \<longrightarrow> ok (modify_item p (set_number n v) u) (\<lambda>_. Q True)))" if v: "cast32 v = v"
    proof (rule set_component_numbers [OF t(1-3) _ numbers(1) v])
      show "(\<not> True \<longrightarrow> Q False u) \<and> (True \<longrightarrow> ok (modify_item p (set_number n v) u) (\<lambda>_. Q True))"
        if "code = ''00000''" "invar J cc X u" "settled (agent u)" "item_at p (agent u)"
          "data (the_item p (agent u)) = None" "n = VSQL_M_LEVEL \<longrightarrow> v = 0"
          "(number (the_item p (agent u)))(n := v) = numbers_after (the_item p (agent t)) n v" for u
        using set [OF that(1-6)] that(7) numbers(2) v by simp
    qed (use t in \<open>auto intro!: bad\<close>)
    show "(v \<noteq> cast32 v \<longrightarrow> ok (vsql_m_status ''22003'' t) (\<lambda>_. Q False)) \<and>
        (v = cast32 v \<longrightarrow> ok (vsql_m_set_component p n v t) (\<lambda>b u. (\<not> b \<longrightarrow> Q False u) \<and>
          (b \<longrightarrow> ok (modify_item p (set_number n v) u) (\<lambda>_. Q True))))"
      using out inside [OF sym] by blast
  qed
qed

section \<open>DATA\<close>

text \<open>
  A value of a host parameter that is set as DATA is got unchanged, except that a boolean is 0 or 1.
\<close>

definition got :: "int \<Rightarrow> cval \<Rightarrow> cval" where
  "got t v = (if t = SQL_BOOLEAN then (case v of CLong n \<Rightarrow> CLong (if n \<noteq> 0 then 1 else 0) | _ \<Rightarrow> v) else v)"

lemma data_round_trip:
  assumes "t \<in> set host_types" "t \<noteq> SQL_CHAR" "t \<noteq> SQL_VARCHAR" "data_of t v = Some (Inr x)"
    and "0 \<le> number i VSQL_M_INDICATOR"
  shows "vsql_m_get_data (i\<lparr>data := Some x\<rparr>) t len = Some (Some (got t v), False)"
  using assms
  by (auto simp: host_types_def data_of_def vsql_m_get_data_def got_def codes cast32_id
      split: cval.splits if_splits)

text \<open>
  A character string of at most \<open>len\<close> characters is padded, and a longer one is cut.
\<close>

lemma text_round_trip:
  assumes "t = SQL_CHAR \<or> t = SQL_VARCHAR" "data_of t v = Some (Inr x)"
    and "0 \<le> number i VSQL_M_INDICATOR"
  shows "vsql_m_get_data (i\<lparr>data := Some x\<rparr>) t len = map_option (\<lambda>(p, tr). (Some (CText p), tr))
    (vsql_m_put ((len + 1) * 4) len (case v of CText y \<Rightarrow> y | _ \<Rightarrow> ''''))"
proof -
  obtain y where "v = CText y" "x = CText (cstr y)"
    using assms(1,2) by (auto simp: data_of_def codes split: cval.splits)
  moreover have "cstr (cstr y) = cstr y" by (simp add: cstr_def takeWhile_eq_all_conv)
  ultimately show ?thesis
    using assms(1,3)
    by (elim disjE) (simp_all add: vsql_m_get_data_def vsql_m_put_def codes strcpy_def split: prod.split)
qed

lemma matches_c_type:
  assumes "t \<in> set host_types" "vsql_m_matches i t l target"
  shows "item_c_type (number i VSQL_M_TYPE) =
    (if t \<in> {SQL_SMALLINT, SQL_INTEGER, SQL_BIGINT, SQL_REAL, SQL_DOUBLE} then t else SQL_CHAR)"
proof -
  have "t = SQL_CHAR \<or> t = SQL_VARCHAR \<or> t = SQL_SMALLINT \<or> t = SQL_INTEGER \<or> t = SQL_BIGINT \<or>
      t = SQL_REAL \<or> t = SQL_DOUBLE \<or> t = SQL_BOOLEAN"
    using assms(1) by (simp add: host_types_def)
  then show ?thesis
    using assms(2) by (elim disjE)
      (simp_all add: vsql_m_matches_def item_c_type_def codes Let_def split: if_splits, (elim disjE conjE; simp)+)
qed

lemma has_c_type_cases:
  "has_c_type 5 v \<longleftrightarrow> (\<exists>n. v = CShort n)"
  "has_c_type 4 v \<longleftrightarrow> (\<exists>n. v = CInt n \<and> cast32 n = n)"
  "has_c_type 25 v \<longleftrightarrow> (\<exists>n. v = CBigint n)"
  "has_c_type 7 v \<longleftrightarrow> (\<exists>x. v = CReal x)"
  "has_c_type 8 v \<longleftrightarrow> (\<exists>x. v = CDouble x)"
  "has_c_type 1 v \<longleftrightarrow> (\<exists>x. v = CText x)"
  by (auto simp: has_c_type_def codes split: cval.splits)

text \<open>DATA of an item that matches the type of a target is read with the type it was written with.\<close>

lemma get_data_defined:
  assumes "wf_item i" "t \<in> set host_types" "vsql_m_matches i t l True"
    and "\<And>x. data i = Some (CText x) \<Longrightarrow> utf8_piece x"
  shows "\<exists>r. vsql_m_get_data i t len = Some r"
proof (cases "\<exists>v. data i = Some v \<and> 0 \<le> number i VSQL_M_INDICATOR")
  case False
  then show ?thesis by (auto simp: vsql_m_get_data_def split: option.split)
next
  case True
  then obtain v where v: "data i = Some v" "0 \<le> number i VSQL_M_INDICATOR" by blast
  then have type: "has_c_type (item_c_type (number i VSQL_M_TYPE)) v"
    using assms(1) by (simp add: wf_item_def)
  note type = type [unfolded matches_c_type [OF assms(2,3)]]
  have put: "\<exists>p. vsql_m_put ((len + 1) * 4) len x = Some p" if "v = CText x" for x
    using vsql_m_put_fits [OF assms(4), of x len] v(1) that by (simp add: mult.commute)
  have "t = SQL_CHAR \<or> t = SQL_VARCHAR \<or> t = SQL_SMALLINT \<or> t = SQL_INTEGER \<or> t = SQL_BIGINT \<or>
      t = SQL_REAL \<or> t = SQL_DOUBLE \<or> t = SQL_BOOLEAN"
    using assms(2) by (simp add: host_types_def)
  then show ?thesis
    using type v put
    by (elim disjE) (simp_all add: vsql_m_get_data_def has_c_type_cases codes, (elim exE; force)+)
qed

end
