(* ===== verification/Statements.thy ===== *)
theory Statements
  imports Using Items
begin

text \<open>
  What the statements of dynamic SQL do in an SQL-session: the prepared statements are a map from
  their names and modules, as the SQL descriptor areas are.
\<close>

section \<open>The prepared statements of an SQL-session\<close>

definition statements :: "nat \<Rightarrow> vsql_m_agent \<Rightarrow> string \<times> nat \<Rightarrow> vsql_m_prepared option" where
  "statements c a = entries p_key (c_prepared (lookup c a))"

lemma statements_lookup:
  "deref_link (c_prepared (lookup c a)) (vsql_m_find_prepared M name (lookup c a)) =
     statements c a (name, own M)"
  using prepared.found [of "lookup c a" M "(name, own M)"] by (simp add: statements_def find_prepared_key)

lemma distinct_statements:
  "invar J cc X s \<Longrightarrow> live c (agent s) \<Longrightarrow> distinct (map p_key (c_prepared (lookup c (agent s))))"
  using invar_lookup [of J cc X s c] by (simp add: wf_connection_def)

lemma statements_unlink:
  assumes "invar J cc X s" "live c (agent s)"
    and "c_prepared (lookup c a) =
      unlink (vsql_m_find_prepared M name (lookup c (agent s))) (c_prepared (lookup c (agent s)))"
  shows "statements c a = (statements c (agent s))((name, own M) := None)"
  using entries_unlink [OF distinct_statements [OF assms(1,2)], of "(name, own M)"] assms(3)
  by (simp add: statements_def find_prepared_key)

text \<open>
  A statement that needs a prepared statement that there isn't gives 26000.
\<close>

lemma prepared_statement_eq:
  assumes "in_session M c s"
  shows "vsql_m_prepared_statement L M name s =
    (if statements c (agent s) (name, own M) = None then do {
       (_, s) \<leftarrow> vsql_m_status ''26000'' s;
       Some (None, s)
     } else Some (Some (c, vsql_m_find_prepared M name (lookup c (agent s))), s))"
proof -
  have "live c (agent s)" using assms by (simp add: in_session_def)
  then show ?thesis
    by (simp add: vsql_m_prepared_statement_def connection_in_session [OF assms] deref_live
        statements_lookup Let_def)
qed

definition prepared_as ::
  "string \<Rightarrow> string \<times> nat \<Rightarrow> (string \<times> nat \<Rightarrow> vsql_m_prepared option) \<Rightarrow> string
    \<Rightarrow> (string \<times> nat \<Rightarrow> vsql_m_prepared option) \<Rightarrow> bool" where
  "prepared_as sql key P state P' \<longleftrightarrow> (\<forall>k. k \<noteq> key \<longrightarrow> P' k = P k) \<and>
     (case P' key of
        None \<Rightarrow> True
      | Some p \<Rightarrow> p_sql p = sql \<or> state = ''24000'' \<and> P key = Some p)"

context runtime
begin

lemma prepare_in_session:
  assumes s: "invar J cursor_count X s" "settled (agent s)" "in_session M c s" "linked cursor_count M"
    and Q: "\<And>s'. invar J cursor_count X s' \<Longrightarrow> settled (agent s') \<Longrightarrow> length (sqlstate s') = 5 \<Longrightarrow>
      prepared_as sql (name, own M) (statements c (agent s)) (sqlstate s') (statements c (agent s')) \<Longrightarrow>
      Q () s'"
  shows "ok (vsql_m_prepare L M name sql s) Q"
proof -
  have live: "live c (agent s)" using s(3) by (simp add: in_session_def)
  let ?i = "vsql_m_find_prepared M name (lookup c (agent s))"
  have new: "ok (vsql_m_prepare_new L M c name sql t) Q"
    if t: "invar J cursor_count X t" "settled (agent t)" "live c (agent t)"
      "statements c (agent t) = (statements c (agent s))((name, own M) := None)" for t
  proof (rule vsql_m_prepare_new_ok [OF t(1-3)])
    have "(name, own M) \<notin> dom (statements c (agent t))" using t(4) by simp
    then show "(name, own M) \<notin> p_key ` set (c_prepared (lookup c (agent t)))"
      by (simp add: statements_def dom_entries)
    fix s'
    assume s': "invar J cursor_count X s'" "settled (agent s')" "length (sqlstate s') = 5"
      "c_prepared (lookup c (agent s')) = c_prepared (lookup c (agent t)) \<or>
      (\<exists>p. c_prepared (lookup c (agent s')) = p # c_prepared (lookup c (agent t)) \<and>
        p_key p = (name, own M) \<and> p_sql p = sql)"
    then have "statements c (agent s') = statements c (agent t) \<or>
        (\<exists>p. statements c (agent s') = (statements c (agent t))((name, own M) \<mapsto> p) \<and> p_sql p = sql)"
      by (auto simp: statements_def)
    then show "Q () s'"
      using t(4) by (intro Q s') (auto simp: prepared_as_def)
  qed
  show ?thesis
  proof (cases "statements c (agent s) (name, own M)")
    case None
    then have "statements c (agent s) = (statements c (agent s))((name, own M) := None)" by auto
    with None show ?thesis
      using new [OF s(1,2) live] unfolding vsql_m_prepare_def
      by (simp add: connection_in_session [OF s(3)] deref_live [OF live] statements_lookup)
  next
    case (Some p)
    then have at: "prepared_at (c, ?i) (agent s)"
      using find_prepared_some [OF live] statements_lookup [of c "agent s" M name] by simp
    have "ok (vsql_m_deallocate L M (c, ?i) s)
        (\<lambda>b t. (\<not> b \<longrightarrow> Q () t) \<and> (b \<longrightarrow> ok (vsql_m_prepare_new L M c name sql t) Q))"
      by (rule vsql_m_deallocate_ok [OF s(1,2) at s(4)])
        (auto intro!: Q new statements_unlink [OF s(1) live] simp: prepared_as_def statements_def split: option.split)
    then show ?thesis
      using Some unfolding vsql_m_prepare_def
      by (simp add: connection_in_session [OF s(3)] deref_live [OF live] statements_lookup)
  qed
qed

lemma deallocate_prepare_in_session:
  assumes s: "invar J cursor_count X s" "settled (agent s)" "in_session M c s" "linked cursor_count M"
    and Q: "\<And>s'. invar J cursor_count X s' \<Longrightarrow> settled (agent s') \<Longrightarrow>
      (if statements c (agent s) (name, own M) = None
       then sqlstate s' = ''26000'' \<and> statements c (agent s') = statements c (agent s)
       else sqlstate s' = ''24000'' \<and> statements c (agent s') = statements c (agent s) \<or>
         sqlstate s' = ''00000'' \<and> statements c (agent s') = (statements c (agent s))((name, own M) := None)) \<Longrightarrow>
      Q () s'"
  shows "ok (vsql_m_deallocate_prepare L M name s) Q"
proof -
  have live: "live c (agent s)" using s(3) by (simp add: in_session_def)
  let ?t = "activated c s"
  note t = activated_ok [OF s(1,2) live]
  have live': "live c (agent ?t)" using live by (simp add: live_update)
  have same: "statements c (agent ?t) = statements c (agent s)"
    using live by (simp add: statements_def lookup_update)
  let ?i = "vsql_m_find_prepared M name (lookup c (agent ?t))"
  show ?thesis
  proof (cases "statements c (agent s) (name, own M)")
    case None
    have "ok (vsql_m_status ''26000'' ?t) Q"
      using None same by (intro status_agent [OF t]) (auto intro!: Q)
    with None show ?thesis
      unfolding vsql_m_deallocate_prepare_def
      by (simp add: connection_in_session [OF s(3)] modify_active [OF live] deref_live [OF live']
          statements_lookup same Let_def del: activated_simps(1))
  next
    case (Some p)
    then have at: "prepared_at (c, ?i) (agent ?t)"
      using find_prepared_some [OF live'] statements_lookup [of c "agent ?t" M name] same by simp
    have finish: "ok (vsql_m_status ''00000'' u) Q"
      if u: "invar J cursor_count X u" "settled (agent u)"
        "c_prepared (lookup c (agent u)) = unlink ?i (c_prepared (lookup c (agent ?t)))" for u
      using Some statements_unlink [OF t(1) live' u(3)] same
      by (intro status_agent [OF u(1,2)]) (auto intro!: Q)
    have "ok (vsql_m_deallocate L M (c, ?i) ?t) (\<lambda>b t. (b \<longrightarrow> ok (vsql_m_status ''00000'' t) Q) \<and> (\<not> b \<longrightarrow> Q () t))"
      using Some same
      by (intro vsql_m_deallocate_ok [OF t at s(4)]) (auto intro!: Q finish simp: statements_def)
    with Some show ?thesis
      unfolding vsql_m_deallocate_prepare_def
      by (simp add: connection_in_session [OF s(3)] modify_active [OF live] deref_live [OF live']
          statements_lookup same Let_def del: activated_simps(1))
  qed
qed

lemma unknown_in_session:
  assumes s: "invar J cursor_count X s" "settled (agent s)" "in_session M c s"
    "statements c (agent s) (name, own M) = None"
    and Q: "\<And>s'. invar J cursor_count X s' \<Longrightarrow> settled (agent s') \<Longrightarrow> agent s' = agent s \<Longrightarrow>
      sqlstate s' = ''26000'' \<Longrightarrow> R s'"
  shows "ok (vsql_m_execute_prepared L M name i u s) (\<lambda>r s'. \<not> fst r \<and> R s')"
    "ok (vsql_m_open_dynamic L M j cursor hold name i s) (\<lambda>_. R)"
    "ok (vsql_m_describe L M name area module s) (\<lambda>_. R)"
proof -
  have status: "ok (vsql_m_status ''26000'' s) (\<lambda>_. R)"
    by (rule status_agent [OF s(1,2)]) (auto intro!: Q)
  show "ok (vsql_m_execute_prepared L M name i u s) (\<lambda>r s'. \<not> fst r \<and> R s')"
    "ok (vsql_m_open_dynamic L M j cursor hold name i s) (\<lambda>_. R)"
    "ok (vsql_m_describe L M name area module s) (\<lambda>_. R)"
    using status by (simp_all add: vsql_m_execute_prepared_def vsql_m_open_dynamic_def vsql_m_describe_def
        prepared_statement_eq [OF s(3)] s(4))
qed

section \<open>The end of an SQL-transaction\<close>

lemma end_in_session:
  assumes s: "invar J cursor_count X s" "settled (agent s)" "in_session M c s"
    and Q: "\<And>s'. invar J cursor_count X s' \<Longrightarrow> settled (agent s') \<Longrightarrow> length (sqlstate s') = 5 \<Longrightarrow>
      agent s' = update c (\<lambda>k. k\<lparr>c_active := False\<rparr>) (agent s) \<Longrightarrow>
      (\<not> c_active (lookup c (agent s)) \<Longrightarrow> header (da s') = header (da s)) \<Longrightarrow> Q () s'"
  shows "ok (vsql_m_end L M completion s) Q"
proof -
  have live: "live c (agent s)" using s(3) by (simp add: in_session_def)
  have ended: "ok (modify c (\<lambda>k. k\<lparr>c_active := False\<rparr>) (t\<lparr>da := d\<rparr>)) Q"
    if t: "invar J cursor_count X t" "agent t = agent s" "length (sqlstate t) = 5"
      "wf_da (da t) \<Longrightarrow> wf_da d" "\<not> c_active (lookup c (agent s)) \<Longrightarrow> header d = header (da s)" for t d
    using t(2-) s(2) live
    by (intro modify_invar [OF invar_da [OF t(1)], where X' = X])
      (auto intro: invar_wf_da [OF t(1)] intro!: Q simp: settled_update wf_connection_def held_connection_def)
  have diag: "ok (vsql_m_diag L rc SQL_HANDLE_DBC (c_dbc (lookup c (agent s))) t) (\<lambda>_ u. ok (modify c (\<lambda>k. k\<lparr>c_active := False\<rparr>)
      (if c_active (lookup c (agent s)) \<and> completion = SQL_COMMIT \<and> \<not> vsql_m_failed rc
       then u\<lparr>da := (da u)\<lparr>transactions_committed := 1\<rparr>\<rparr>
       else if c_active (lookup c (agent s)) \<and> (completion = SQL_ROLLBACK \<or> take 2 (sqlstate u) = ''40'')
       then u\<lparr>da := (da u)\<lparr>transactions_rolled_back := 1\<rparr>\<rparr> else u)) Q)"
    if t: "invar J cursor_count X t" "agent t = agent s" "da t = da s" for t rc
  proof (rule vsql_m_diag_ok [OF t(1)])
    fix u
    assume u: "invar J cursor_count X u" "agent u = agent t" "header (da u) = header (da t)" "reported rc u"
    have "ok (modify c (\<lambda>k. k\<lparr>c_active := False\<rparr>) (u\<lparr>da := da u\<rparr>)) Q"
      using u t by (intro ended) auto
    then show "ok (modify c (\<lambda>k. k\<lparr>c_active := False\<rparr>)
      (if c_active (lookup c (agent s)) \<and> completion = SQL_COMMIT \<and> \<not> vsql_m_failed rc
       then u\<lparr>da := (da u)\<lparr>transactions_committed := 1\<rparr>\<rparr>
       else if c_active (lookup c (agent s)) \<and> (completion = SQL_ROLLBACK \<or> take 2 (sqlstate u) = ''40'')
       then u\<lparr>da := (da u)\<lparr>transactions_rolled_back := 1\<rparr>\<rparr> else u)) Q"
      using u t by (auto intro!: ended simp: wf_da_def)
  qed (use held_dbc [OF live] settled_dbc [OF s(2) live] t(2) in auto)
  show ?thesis
    unfolding vsql_m_end_def
    by (simp add: connection_in_session [OF s(3)] deref_live [OF live] Let_def,
        rule call_preserves [OF s(1)])
      (use held_dbc [OF live] settled_dbc [OF s(2) live] in
        \<open>auto intro!: uses ok_conseq [OF diag] split: if_splits\<close>)
qed

end

end
