(* ===== verification/Assignment.thy ===== *)
theory Assignment
  imports Retrieval Scripted
begin

text \<open>
  What retrieval assignment (\<open>vsql_m_assign\<close>) gives for a character string, with a libvsql that serves
  the octets of its value as it is documented: the first characters of the value, whether or not they
  fit in the buffer of the target, and the number of all of its characters, which are read in pieces.
  Then the same for the columns of a row.
\<close>

section \<open>Characters of UTF-8\<close>

text \<open>
  The characters of a string of UTF-8: each is an octet that starts it with the octets that continue
  it. \<open>utf8 x\<close> holds for whole characters of at most four octets.
\<close>

function glyphs :: "string \<Rightarrow> string list" where
  "glyphs [] = []"
| "glyphs (c # cs) = (c # takeWhile continuation cs) # glyphs (dropWhile continuation cs)"
  by pat_completeness auto
termination by (relation "measure length") (auto simp: le_imp_less_Suc length_dropWhile_le)

definition utf8 :: "string \<Rightarrow> bool" where
  "utf8 x \<longleftrightarrow> utf8_from 0 x"

text \<open>A value that is assigned to a target of \<open>len\<close> characters: it's cut or padded to them.\<close>

definition fitted :: "nat \<Rightarrow> string \<Rightarrow> string" where
  "fitted len x = concat (take len (glyphs x)) @ replicate (len - length (glyphs x)) CHR '' ''"

definition starts :: "string \<Rightarrow> bool" where
  "starts x \<longleftrightarrow> x = [] \<or> \<not> continuation (hd x)"

lemma starts_dropWhile [simp]: "starts (dropWhile continuation cs)"
  using hd_dropWhile [of continuation cs] by (auto simp: starts_def simp del: dropWhile_eq_Nil_conv)

lemma utf8_starts: "utf8 x \<Longrightarrow> starts x"
  by (cases x) (auto simp: utf8_def starts_def)

lemma utf8_take: "utf8 x \<Longrightarrow> utf8 (take n x)"
  using utf8_from_append [of 0 "take n x" "drop n x"] by (simp add: utf8_def)

lemma utf8_piece: "utf8 x \<Longrightarrow> utf8_piece x"
  by (cases x) (auto simp: utf8_def utf8_piece_def split: if_splits)

lemma concat_glyphs: "concat (glyphs x) = x"
  by (induction x rule: glyphs.induct) simp_all

lemma glyphs_nonempty: "[] \<notin> set (glyphs x)"
  by (induction x rule: glyphs.induct) simp_all

lemma characters_append [simp]:
  "vsql_m_characters (x @ y) = vsql_m_characters x + vsql_m_characters y"
  by (simp add: vsql_m_characters_def)

lemma characters_continuation: "\<forall>c\<in>set cs. continuation c \<Longrightarrow> vsql_m_characters cs = 0"
  by (simp add: vsql_m_characters_def filter_empty_conv)

lemma characters_Cons:
  "vsql_m_characters (c # cs) = (if continuation c then 0 else 1) + vsql_m_characters cs"
  by (simp add: vsql_m_characters_def)

lemma characters_glyphs: "starts x \<Longrightarrow> vsql_m_characters x = int (length (glyphs x))"
proof (induction x rule: glyphs.induct)
  case (2 c cs)
  have "vsql_m_characters (takeWhile continuation cs) = 0"
    by (intro characters_continuation) (auto dest: set_takeWhileD)
  moreover have "vsql_m_characters cs = vsql_m_characters (takeWhile continuation cs) +
      vsql_m_characters (dropWhile continuation cs)"
    by (simp flip: characters_append)
  ultimately show ?case
    using 2(1) [OF starts_dropWhile] 2(2) by (simp add: characters_Cons starts_def)
qed (simp add: vsql_m_characters_def)

text \<open>Octets that follow a string only change its last character.\<close>

lemma glyphs_append:
  assumes "k < length (glyphs p)"
  shows "take k (glyphs (p @ r)) = take k (glyphs p) \<and> k < length (glyphs (p @ r))"
  using assms
proof (induction p arbitrary: k rule: glyphs.induct)
  case (2 c cs)
  show ?case
  proof (cases k)
    case (Suc j)
    then have j: "j < length (glyphs (dropWhile continuation cs))" using 2(2) by simp
    then have "dropWhile continuation cs \<noteq> []" by (metis glyphs.simps(1) less_nat_zero_code list.size(3))
    then obtain d where "d \<in> set cs" "\<not> continuation d" by (auto simp: dropWhile_eq_Nil_conv)
    then have "takeWhile continuation (cs @ r) = takeWhile continuation cs"
      "dropWhile continuation (cs @ r) = dropWhile continuation cs @ r"
      by (auto simp: takeWhile_append1 dropWhile_append1)
    then show ?thesis using 2(1) [OF j] Suc by simp
  qed simp
qed simp

section \<open>Putting characters\<close>

lemma put_octets_continuation:
  "\<forall>c\<in>set ks. continuation c \<Longrightarrow> vsql_m_put_octets len n (ks @ x) =
     (case vsql_m_put_octets len n x of (p, m, r) \<Rightarrow> (ks @ p, m, r))"
  by (induction ks) (auto split: prod.split)

lemma put_octets_glyphs:
  "starts x \<Longrightarrow> n \<le> len \<Longrightarrow> vsql_m_put_octets len n x =
     (concat (take (len - n) (glyphs x)), n + min (len - n) (length (glyphs x)),
      concat (drop (len - n) (glyphs x)))"
proof (induction x arbitrary: n rule: glyphs.induct)
  case (2 c cs)
  have c: "\<not> continuation c" using 2(2) by (simp add: starts_def)
  show ?case
  proof (cases "n = len")
    case True
    have "concat (glyphs (dropWhile continuation cs)) = dropWhile continuation cs" by (rule concat_glyphs)
    with True c show ?thesis by simp
  next
    case False
    then have n: "Suc n \<le> len" "len - n = Suc (len - Suc n)" using 2(3) by simp_all
    have "vsql_m_put_octets len (Suc n) (takeWhile continuation cs @ dropWhile continuation cs) =
        (takeWhile continuation cs @ concat (take (len - Suc n) (glyphs (dropWhile continuation cs))),
         Suc n + min (len - Suc n) (length (glyphs (dropWhile continuation cs))),
         concat (drop (len - Suc n) (glyphs (dropWhile continuation cs))))"
      using 2(1) [OF starts_dropWhile n(1)]
      by (subst put_octets_continuation) (auto dest: set_takeWhileD)
    then show ?thesis using c n False by simp
  qed
qed simp

lemma concat_drop_glyphs: "concat (drop k (glyphs x)) = [] \<longleftrightarrow> length (glyphs x) \<le> k"
  using glyphs_nonempty [of x] by (auto simp: concat_eq_Nil_conv dest: in_set_dropD)
    (metis drop_eq_Nil2 in_set_dropD last_in_set)

lemma put_glyphs:
  assumes "utf8 x" "NUL \<notin> set x"
  shows "vsql_m_put (4 * (len + 1)) len x = Some (fitted len x, len < length (glyphs x))"
proof -
  have "cstr x = x" using assms(2) by (auto simp: cstr_def takeWhile_eq_all_conv)
  moreover obtain p where "vsql_m_put (4 * (len + 1)) len x = Some p"
    using vsql_m_put_fits [OF utf8_piece [OF assms(1)]] by blast
  ultimately show ?thesis
    using put_octets_glyphs [OF utf8_starts [OF assms(1)], of 0 len] concat_drop_glyphs [of len x]
    by (auto simp: vsql_m_put_def strcpy_def fitted_def min_def split: if_splits)
qed

section \<open>A libvsql that serves the octets of a value\<close>

text \<open>
  As it is documented, SQLGetData writes as many octets of the rest of a value as there's room for
  with a null character, gives the length of the rest, and the next call goes on with what has not
  been read. \<open>text\<close> is the rest of the value in a state of libvsql.
\<close>

definition serves_text :: "'w cli \<Rightarrow> int \<Rightarrow> int \<Rightarrow> ('w \<Rightarrow> string option) \<Rightarrow> bool" where
  "serves_text L stmt i text \<longleftrightarrow> (\<forall>w x b ind. text w = Some x \<and> 2 \<le> b \<longrightarrow>
     (\<exists>y n w'. SQLGetData L stmt i SQL_CHAR b ind w =
        ((if length x < nat b then SQL_SUCCESS else SQL_SUCCESS_WITH_INFO, Some (CText y), n), w') \<and>
        in_buffer (nat b) y = take (nat b - 1) x \<and> (ind \<longrightarrow> n = Some (int (length x))) \<and>
        (nat b \<le> length x \<longrightarrow> text w' = Some (drop (nat b - 1) x))))"

lemma serves_textE:
  assumes "serves_text L stmt i text" "text w = Some x" "2 \<le> b"
  obtains y n w' where "SQLGetData L stmt i SQL_CHAR b ind w =
      ((if length x < nat b then SQL_SUCCESS else SQL_SUCCESS_WITH_INFO, Some (CText y), n), w')"
    "in_buffer (nat b) y = take (nat b - 1) x" "ind \<Longrightarrow> n = Some (int (length x))"
    "nat b \<le> length x \<Longrightarrow> text w' = Some (drop (nat b - 1) x)"
  using assms unfolding serves_text_def by blast

text \<open>The pieces of the rest of a value have the characters of the rest.\<close>

lemma assign_rest_counts:
  assumes serves: "serves_text L stmt i text"
    and "text (world s) = Some x" "0 \<le> k" "k + int (length x) < 2 ^ 31"
  shows "\<exists>w. vsql_m_assign_rest L stmt i SQL_SUCCESS_WITH_INFO k s =
    Some ((SQL_SUCCESS, k + vsql_m_characters x), s\<lparr>world := w\<rparr>)"
  using assms(2-)
proof (induction "length x" arbitrary: x k s rule: less_induct)
  case less
  obtain y n w' where data: "SQLGetData L stmt i SQL_CHAR 256 False (world s) =
      ((if length x < nat 256 then SQL_SUCCESS else SQL_SUCCESS_WITH_INFO, Some (CText y), n), w')"
    and y: "in_buffer (nat 256) y = take (nat 256 - 1) x"
    and later: "nat 256 \<le> length x \<Longrightarrow> text w' = Some (drop (nat 256 - 1) x)"
    by (rule serves_textE [OF serves less.prems(1), where ind = False and b = 256]) auto
  let ?p = "take 255 x" and ?r = "drop 255 x"
  have chars: "vsql_m_characters x = vsql_m_characters ?p + vsql_m_characters ?r"
    by (simp flip: characters_append)
  have len: "vsql_m_characters ?p \<le> int (length ?p)" "0 \<le> vsql_m_characters ?p"
    by (rule characters_le)+
  then have int: "int32 (k + vsql_m_characters ?p) = Some (k + vsql_m_characters ?p)"
    using less.prems(2,3) by (auto simp: int32_def)
  have codes_differ: "SQL_SUCCESS \<noteq> SQL_SUCCESS_WITH_INFO" by (simp add: codes)
  show ?case
  proof (cases "length x < 256")
    case True
    then show ?thesis
      using data y int codes_differ
      by (subst vsql_m_assign_rest.simps, subst vsql_m_assign_rest.simps)
        (auto simp: call_def vsql_m_failed_iff buffer_text_def)
  next
    case False
    have "\<exists>w. vsql_m_assign_rest L stmt i SQL_SUCCESS_WITH_INFO (k + vsql_m_characters ?p) (s\<lparr>world := w'\<rparr>) =
        Some ((SQL_SUCCESS, k + vsql_m_characters ?p + vsql_m_characters ?r), s\<lparr>world := w'\<rparr>\<lparr>world := w\<rparr>)"
      using False len less.prems(2,3) later by (intro less.hyps) auto
    then show ?thesis
      using data y int False chars
      by (subst vsql_m_assign_rest.simps) (auto simp: call_def vsql_m_failed_iff buffer_text_def add.assoc)
  qed
qed

section \<open>The assignment of a character string\<close>

text \<open>What is assigned, and the indicator.\<close>

definition assigned_text :: "string \<Rightarrow> vsql_m_target \<Rightarrow> int \<times> vsql_m_target \<Rightarrow> bool" where
  "assigned_text x t r \<longleftrightarrow>
     (let len = nat (t_length t); n = length (glyphs x) in
      t_value (snd r) = CText (fitted len x) \<and>
      (if n \<le> len then fst r = SQL_SUCCESS \<and> t_indicator (snd r) = 0
       else if \<not> has_indicator t then fst r = SQL_SUCCESS_WITH_INFO
       else if int n > t_max_indicator t then fst r = VSQL_M_INDICATOR_OVERFLOW
       else fst r = SQL_SUCCESS_WITH_INFO \<and> t_indicator (snd r) = int n))"

text \<open>
  The buffer of a target has room for more characters than the target when it doesn't have room for
  all of the value.
\<close>

lemma first_piece:
  assumes "utf8 x" "4 * (len + 1) \<le> length x"
  defines "p \<equiv> take (4 * (len + 1) - 1) x"
  shows "fitted len p = fitted len x" "len < length (glyphs p)" "len < length (glyphs x)"
proof -
  have p: "utf8 p" using assms(1) utf8_take by (simp add: p_def)
  have "length p \<le> 4 * length (filter (\<lambda>c. \<not> continuation c) p)"
    using utf8_from_length [of 0 p] p by (simp add: utf8_def)
  moreover have "length (filter (\<lambda>c. \<not> continuation c) p) = length (glyphs p)"
    using characters_glyphs [OF utf8_starts [OF p]] by (simp add: vsql_m_characters_def)
  ultimately show len: "len < length (glyphs p)"
    using assms(2) by (simp add: p_def)
  have "p @ drop (4 * (len + 1) - 1) x = x" by (simp add: p_def)
  with glyphs_append [OF len, of "drop (4 * (len + 1) - 1) x"]
  show "fitted len p = fitted len x" "len < length (glyphs x)"
    using len by (auto simp: fitted_def)
qed

lemma has_indicator_update [simp]:
  "has_indicator (t\<lparr>t_value := v\<rparr>) = has_indicator t" "has_indicator (t\<lparr>t_indicator := k\<rparr>) = has_indicator t"
  by (simp_all add: has_indicator_def)

lemma characters_Nil [simp]: "vsql_m_characters [] = 0"
  by (simp add: vsql_m_characters_def)

lemma assign_text_retrieves:
  assumes serves: "serves_text L stmt i text"
    and x: "text (world s) = Some x" "utf8 x" "NUL \<notin> set x" "length x < 2 ^ 31"
    and t: "wf_target t" "t_type t = SQL_CHAR \<or> t_type t = SQL_VARCHAR"
  shows "\<exists>r w. vsql_m_assign_text L stmt i t s = Some (r, s\<lparr>world := w\<rparr>) \<and> assigned_text x t r"
proof -
  define len where "len = nat (t_length t)"
  let ?b = "(t_length t + 1) * 4"
  have len: "0 \<le> t_length t" "t_length t < 2 ^ 29 - 1" "t_length t = int len"
    using t by (auto simp: wf_target_def len_def)
  have b: "int32 ?b = Some ?b" "nat ?b = 4 * (len + 1)" "2 \<le> ?b"
    using len by (simp_all add: int32_def nat_eq_iff)
  obtain y n w where data: "SQLGetData L stmt i SQL_CHAR ?b (has_indicator t) (world s) =
      ((if length x < nat ?b then SQL_SUCCESS else SQL_SUCCESS_WITH_INFO, Some (CText y), n), w)"
    and y: "in_buffer (nat ?b) y = take (nat ?b - 1) x"
    and n: "has_indicator t \<Longrightarrow> n = Some (int (length x))"
    and later: "nat ?b \<le> length x \<Longrightarrow> text w = Some (drop (nat ?b - 1) x)"
    by (rule serves_textE [OF serves x(1) b(3), where ind = "has_indicator t"]) blast
  let ?p = "take (4 * (len + 1) - 1) x"
  let ?t = "output_indicator n (output_value (Some (CText ?p)) t)"
  have null: "not_null ?t"
    using n by (cases "has_indicator t") (simp_all add: not_null_def, simp add: output_indicator_def)
  have p: "utf8 ?p" "NUL \<notin> set ?p" using x(2,3) utf8_take by (auto dest: in_set_takeD)
  have put: "vsql_m_put (4 * (len + 1)) len ?p = Some (fitted len ?p, len < length (glyphs ?p))"
    by (rule put_glyphs [OF p])
  have chars: "vsql_m_characters ?p + vsql_m_characters (drop (4 * (len + 1) - 1) x) = int (length (glyphs x))"
    using characters_glyphs [OF utf8_starts [OF x(2)]] by (simp flip: characters_append)
  have codes_differ: "SQL_SUCCESS \<noteq> SQL_SUCCESS_WITH_INFO" by (simp add: codes)
  show ?thesis
  proof (cases "length x < 4 * (len + 1)")
    case True
    then have px: "?p = x" by simp
    have rest: "vsql_m_assign_rest L stmt i SQL_SUCCESS k u = Some ((SQL_SUCCESS, k), u)" for k u
      using codes_differ by (subst vsql_m_assign_rest.simps) simp
    show ?thesis
      using True data y null put chars len b codes_differ unfolding vsql_m_assign_text_def
      by (auto simp: call_def buffer_text_def vsql_m_failed_iff Let_def rest assigned_text_def px)
  next
    case False
    then have piece: "fitted len ?p = fitted len x" "len < length (glyphs ?p)" "\<not> length (glyphs x) \<le> len"
      using first_piece [OF x(2), of len] by simp_all
    have rest: "\<exists>v. vsql_m_assign_rest L stmt i SQL_SUCCESS_WITH_INFO (vsql_m_characters ?p) (s\<lparr>world := w\<rparr>) =
        Some ((SQL_SUCCESS, int (length (glyphs x))), s\<lparr>world := v\<rparr>)"
      using assign_rest_counts [OF serves, of "s\<lparr>world := w\<rparr>" "drop (4 * (len + 1) - 1) x" "vsql_m_characters ?p"]
        characters_le [of ?p] x(4) False later b(2) chars by auto
    show ?thesis
      using False data y null put len b piece rest unfolding vsql_m_assign_text_def
      by (cases "t_max_indicator t < int (length (glyphs x))")
        (auto simp: call_def buffer_text_def vsql_m_failed_iff Let_def assigned_text_def)
  qed
qed

lemma assign_retrieves:
  assumes "serves_text L stmt i text" "text (world s) = Some x" "utf8 x" "NUL \<notin> set x" "length x < 2 ^ 31"
    and t: "wf_target t" "t_type t = SQL_CHAR \<or> t_type t = SQL_VARCHAR"
  shows "\<exists>r w. vsql_m_assign L stmt i t s = Some (r, s\<lparr>world := w\<rparr>) \<and> assigned_text x t r"
proof -
  have "vsql_m_assign L stmt i t s = vsql_m_assign_text L stmt i t s"
    using t(2) by (auto simp: vsql_m_assign_def codes)
  then show ?thesis using assign_text_retrieves [OF assms] by simp
qed

section \<open>The row of a query\<close>

text \<open>
  A libvsql that serves the character strings of a row: \<open>texts i\<close> is what is left of the value of
  column \<open>i\<close>, and reading it doesn't change the values of the columns after it.
\<close>

definition serves_texts :: "'w cli \<Rightarrow> int \<Rightarrow> (int \<Rightarrow> 'w \<Rightarrow> string option) \<Rightarrow> bool" where
  "serves_texts L stmt texts \<longleftrightarrow> (\<forall>i. serves_text L stmt i (texts i)) \<and>
     (\<forall>i j w t b ind a w'. i < j \<longrightarrow> texts i w \<noteq> None \<longrightarrow> SQLGetData L stmt i t b ind w = (a, w') \<longrightarrow>
        texts j w' = texts j w)"

lemma serves_textsD:
  assumes "serves_texts L stmt texts"
  shows "serves_text L stmt i (texts i)"
    "i < j \<Longrightarrow> texts i w \<noteq> None \<Longrightarrow> SQLGetData L stmt i t b ind w = (a, w') \<Longrightarrow> texts j w' = texts j w"
  using assms unfolding serves_texts_def by blast+

text \<open>What is said of the later columns, while a column is read.\<close>

definition ahead :: "(int \<Rightarrow> 'w \<Rightarrow> string option) \<Rightarrow> int \<Rightarrow> (int \<Rightarrow> string option) \<Rightarrow> bool \<Rightarrow> 'w state \<Rightarrow> bool"
  where
  "ahead texts i later unfinished s \<longleftrightarrow> (\<forall>j>i. texts j (world s) = later j) \<and>
     (unfinished \<longrightarrow> texts i (world s) \<noteq> None)"

lemma data_ahead:
  assumes "ahead texts i later True s" "serves_texts L stmt texts" "2 \<le> b"
    "\<And>rc v n s'. ahead texts i later (rc = SQL_SUCCESS_WITH_INFO) s' \<Longrightarrow> Q (rc, v, n) s'"
  shows "wlp (call (SQLGetData L stmt i SQL_CHAR b ind) s) Q"
proof -
  obtain x where x: "texts i (world s) = Some x" using assms(1) by (auto simp: ahead_def)
  obtain y n w where data: "SQLGetData L stmt i SQL_CHAR b ind (world s) =
      ((if length x < nat b then SQL_SUCCESS else SQL_SUCCESS_WITH_INFO, Some (CText y), n), w)"
    and later: "nat b \<le> length x \<Longrightarrow> texts i w = Some (drop (nat b - 1) x)"
    by (rule serves_textE [OF serves_textsD(1) [OF assms(2)] x assms(3), where ind = ind]) blast
  have "ahead texts i later (nat b \<le> length x) (s\<lparr>world := w\<rparr>)"
    using assms(1) serves_textsD(2) [OF assms(2) _ _ data] later by (auto simp: ahead_def)
  then show ?thesis
    using data by (auto simp: call_def codes intro!: assms(4) split: if_splits)
qed

lemma rest_ahead:
  assumes "ahead texts i later (rc = SQL_SUCCESS_WITH_INFO) s" "serves_texts L stmt texts"
    "\<And>a s'. ahead texts i later False s' \<Longrightarrow> Q a s'"
  shows "wlp (vsql_m_assign_rest L stmt i rc k s) Q"
proof -
  have "serves_texts L stmt texts \<longrightarrow> ahead texts i later (rc = SQL_SUCCESS_WITH_INFO) s \<longrightarrow>
      ahead texts i later False (snd y)" if "vsql_m_assign_rest L stmt i rc k s = Some y" for y
    using that
  proof (rule vsql_m_assign_rest.raw_induct [rotated], goal_cases)
    case (1 f L stmt i rc k s y)
    show ?case
    proof (intro impI)
      assume L: "serves_texts L stmt texts" and s: "ahead texts i later (rc = SQL_SUCCESS_WITH_INFO) s"
      have data: "ahead texts i later (rc' = SQL_SUCCESS_WITH_INFO) s'"
        if "call (SQLGetData L stmt i SQL_CHAR 256 False) s = Some ((rc', v, n), s')"
          "rc = SQL_SUCCESS_WITH_INFO" for rc' v n s'
        using data_ahead [of texts i later s L stmt 256
            "\<lambda>r. ahead texts i later (fst r = SQL_SUCCESS_WITH_INFO)" False] s L that
        by (simp add: wlp_def)
      have less: "ahead texts i later False s'" if "ahead texts i later b s'" for b s'
        using that by (auto simp: ahead_def)
      show "ahead texts i later False (snd y)"
      proof (cases "rc = SQL_SUCCESS_WITH_INFO")
        case True
        then show ?thesis
          using 1 L s by (cases y) (fastforce split: if_splits bind_splits dest!: data intro: less)
      qed (use 1 s in \<open>auto intro: less\<close>)
    qed
  qed
  then show ?thesis using assms by (auto simp: wlp_def)
qed

lemma assign_ahead:
  assumes "ahead texts i later True s" "serves_texts L stmt texts"
    and t: "wf_target t" "t_type t = SQL_CHAR \<or> t_type t = SQL_VARCHAR"
    and Q: "\<And>a s'. ahead texts i later False s' \<Longrightarrow> Q a s'"
  shows "wlp (vsql_m_assign L stmt i t s) Q"
proof -
  have less: "ahead texts i later False s'" if "ahead texts i later b s'" for b s'
    using that by (auto simp: ahead_def)
  have bytes: "2 \<le> b" if "int32 ((t_length t + 1) * 4) = Some b" for b
    using that t by (auto simp: int32_def wf_target_def split: if_splits)
  have "vsql_m_assign L stmt i t s = vsql_m_assign_text L stmt i t s"
    using t(2) by (auto simp: vsql_m_assign_def codes)
  then show ?thesis
    unfolding vsql_m_assign_text_def Let_def using assms(1,2)
    by - (clarsimp simp: bytes Q less split: cval.split
      | (rule conjI impI allI | (rule data_ahead, assumption, assumption, rule bytes, simp; fail)
        | erule data_ahead rest_ahead | rule wlp_any)[1])+
qed

text \<open>
  A value that its target can have: with an indicator that its length doesn't overflow. It is truncated
  when it has more characters than the target.
\<close>

definition retrievable :: "string \<Rightarrow> vsql_m_target \<Rightarrow> bool" where
  "retrievable x t \<longleftrightarrow> utf8 x \<and> NUL \<notin> set x \<and> length x < 2 ^ 31 \<and> wf_target t \<and>
     (t_type t = SQL_CHAR \<or> t_type t = SQL_VARCHAR) \<and>
     (has_indicator t \<longrightarrow> int (length (glyphs x)) \<le> t_max_indicator t)"

definition truncates :: "string \<Rightarrow> vsql_m_target \<Rightarrow> bool" where
  "truncates x t \<longleftrightarrow> nat (t_length t) < length (glyphs x)"

definition retrieved_text :: "string \<Rightarrow> vsql_m_target \<Rightarrow> vsql_m_target \<Rightarrow> bool" where
  "retrieved_text x t t' \<longleftrightarrow> t_value t' = CText (fitted (nat (t_length t)) x) \<and>
     (if \<not> truncates x t then t_indicator t' = 0
      else has_indicator t \<longrightarrow> t_indicator t' = int (length (glyphs x)))"

lemma assigned_retrievable:
  assumes "assigned_text x t (rc, t')" "retrievable x t"
  shows "rc = (if truncates x t then SQL_SUCCESS_WITH_INFO else SQL_SUCCESS)" "retrieved_text x t t'"
  using assms by (auto simp: assigned_text_def retrievable_def truncates_def retrieved_text_def Let_def
      split: if_splits)

lemma assign_targets_retrieves:
  assumes L: "serves_texts L stmt texts"
  shows "list_all2 retrievable xs ts \<Longrightarrow> i + length ts < 2 ^ 15 \<Longrightarrow>
    \<forall>j<length ts. texts (int (i + j) + 1) (world s) = Some (xs ! j) \<Longrightarrow>
    rc = SQL_SUCCESS \<or> rc = SQL_SUCCESS_WITH_INFO \<Longrightarrow>
    \<exists>rc' ts' w. vsql_m_assign_targets L stmt i rc tr ts s =
        Some ((rc', ts', tr \<or> (\<exists>(x, t)\<in>set (zip xs ts). truncates x t)), s\<lparr>world := w\<rparr>) \<and>
      (rc' = SQL_SUCCESS \<or> rc' = SQL_SUCCESS_WITH_INFO) \<and>
      list_all2 (\<lambda>(x, t) t'. retrieved_text x t t') (zip xs ts) ts'"
proof (induction ts arbitrary: xs i rc tr s)
  case Nil
  have "s = s\<lparr>world := world s\<rparr>" by simp
  then show ?case using Nil by (auto intro!: exI [of _ "world s"])
next
  case (Cons t ts)
  obtain x xs' where xs: "xs = x # xs'" "retrievable x t" "list_all2 retrievable xs' ts"
    using Cons.prems(1) by (auto simp: list_all2_Cons2)
  have x: "utf8 x" "NUL \<notin> set x" "length x < 2 ^ 31" and t: "wf_target t" "t_type t = SQL_CHAR \<or> t_type t = SQL_VARCHAR"
    using xs(2) by (simp_all add: retrievable_def)
  have here: "texts (int i + 1) (world s) = Some x"
    using Cons.prems(3) xs(1) by (auto dest: spec [of _ 0])
  obtain rc' t' w where assign: "vsql_m_assign L stmt (int i + 1) t s = Some ((rc', t'), s\<lparr>world := w\<rparr>)"
    "assigned_text x t (rc', t')"
    using assign_retrieves [OF serves_textsD(1) [OF L] here x t] by auto
  note t' = assigned_retrievable [OF assign(2) xs(2)]
  have "ahead texts (int i + 1) (\<lambda>j. texts j (world s)) False (s\<lparr>world := w\<rparr>)"
    using assign_ahead [OF _ L t, of "int i + 1" "\<lambda>j. texts j (world s)" s "\<lambda>_. ahead texts (int i + 1) (\<lambda>j. texts j (world s)) False"]
      assign(1) here by (simp add: ahead_def wlp_def)
  then have later: "texts (int (Suc i + j) + 1) w = texts (int (Suc i + j) + 1) (world s)" for j
    by (simp add: ahead_def)
  have later: "\<forall>j<length ts. texts (int (Suc i + j) + 1) (world (s\<lparr>world := w\<rparr>)) = Some (xs' ! j)"
  proof (intro allI impI)
    fix j
    assume "j < length ts"
    then have "texts (int (i + Suc j) + 1) (world s) = Some (xs ! Suc j)"
      using Cons.prems(3) by (simp del: of_nat_Suc of_nat_add add_Suc_right)
    then show "texts (int (Suc i + j) + 1) (world (s\<lparr>world := w\<rparr>)) = Some (xs' ! j)"
      using later [of j] xs(1) by simp
  qed
  have cast: "cast16 (int i + 1) = int i + 1"
    using Cons.prems(2) by (intro cast16_id) simp_all
  have next_rc: "rc' = SQL_SUCCESS \<or> rc' = SQL_SUCCESS_WITH_INFO" "(rc' = SQL_SUCCESS_WITH_INFO) = truncates x t"
    using t'(1) by (auto simp: codes)
  have "Suc i + length ts < 2 ^ 15" using Cons.prems(2) by simp
  from Cons.IH [OF xs(3) this later next_rc(1), of "tr \<or> rc' = SQL_SUCCESS_WITH_INFO"]
  show ?case
    using Cons.prems(4) t'(2) next_rc(2) by (auto simp: cast assign(1) xs(1) Let_def)
qed

section \<open>A libvsql that can be executed\<close>

definition scripted_rest :: "int \<Rightarrow> script \<Rightarrow> string option" where
  "scripted_rest i w = (case nth_from_1 (row w) i of
     Some (Some (CText x)) \<Rightarrow>
       if utf8_piece x \<and> NUL \<notin> set x \<and> length x < 2 ^ 31 then Some (unread i w) else None
   | _ \<Rightarrow> None)"

lemma utf8_from_mono: "utf8_from n x \<Longrightarrow> n \<le> m \<Longrightarrow> utf8_from m x"
  by (induction n x arbitrary: m rule: utf8_from.induct) (auto split: if_splits)

lemma utf8_piece_drop: "utf8_piece x \<Longrightarrow> utf8_piece (drop k x)"
proof (induction x arbitrary: k)
  case (Cons c cs)
  then have "utf8_piece cs"
    by (auto simp: utf8_piece_def split: if_splits intro: utf8_from_mono)
  then show ?case using Cons by (cases k) simp_all
qed simp

lemma scripted_serves: "serves_text scripted stmt i (scripted_rest i)"
  unfolding serves_text_def
proof (intro allI impI, elim conjE)
  fix w x ind and b :: int
  assume x: "scripted_rest i w = Some x" "2 \<le> b"
  then obtain y where y: "nth_from_1 (row w) i = Some (Some (CText y))" "utf8_piece y" "NUL \<notin> set y"
      "length y < 2 ^ 31" "x = unread i w"
    by (auto simp: scripted_rest_def split: option.splits cval.splits if_splits)
  then have "x = drop (if column w = i then offset w else 0) y" by (simp add: unread_def)
  then have "utf8_piece x" "NUL \<notin> set x" "length x < 2 ^ 31"
    using y utf8_piece_drop by (auto dest: in_set_dropD)
  moreover have "cstr x = x" using \<open>NUL \<notin> set x\<close> by (auto simp: cstr_def takeWhile_eq_all_conv)
  moreover have "nat b \<le> length x \<Longrightarrow> scripted_rest i
      (w\<lparr>column := i, offset := (if column w = i then offset w else 0) + (nat b - 1)\<rparr>) = Some (drop (nat b - 1) x)"
    using y by (auto simp: scripted_rest_def unread_def add.commute)
  ultimately show "\<exists>y n w'. SQLGetData scripted stmt i SQL_CHAR b ind w =
      ((if length x < nat b then SQL_SUCCESS else SQL_SUCCESS_WITH_INFO, Some (CText y), n), w') \<and>
      in_buffer (nat b) y = take (nat b - 1) x \<and> (ind \<longrightarrow> n = Some (int (length x))) \<and>
      (nat b \<le> length x \<longrightarrow> scripted_rest i w' = Some (drop (nat b - 1) x))"
    using x(2) y(1,5)
    by (auto simp: scripted_def scripted_data_def scripted_text_def has_c_type_def in_buffer_def Let_def)
qed

definition scripted_ahead :: "int \<Rightarrow> script \<Rightarrow> string option" where
  "scripted_ahead i w = (if column w \<le> i then scripted_rest i w else None)"

lemma scripted_ahead_unread:
  assumes "column w = 0" "1 \<le> i" "nth_from_1 (row w) i = Some (Some (CText x))"
    and "utf8_piece x" "NUL \<notin> set x" "length x < 2 ^ 31"
  shows "scripted_ahead i w = Some x"
  using assms by (simp add: scripted_ahead_def scripted_rest_def unread_def)

lemma scripted_serves_texts: "serves_texts scripted stmt scripted_ahead"
proof -
  have "serves_text scripted stmt i (scripted_ahead i)" for i
    unfolding serves_text_def
  proof (intro allI impI, elim conjE)
    fix w x ind and b :: int
    assume x: "scripted_ahead i w = Some x" "2 \<le> b"
    then have "column w \<le> i" "scripted_rest i w = Some x" by (auto simp: scripted_ahead_def split: if_splits)
    with x(2) scripted_serves [of stmt i] obtain y n w' where w': "SQLGetData scripted stmt i SQL_CHAR b ind w =
      ((if length x < nat b then SQL_SUCCESS else SQL_SUCCESS_WITH_INFO, Some (CText y), n), w')"
      "in_buffer (nat b) y = take (nat b - 1) x" "ind \<Longrightarrow> n = Some (int (length x))"
      "nat b \<le> length x \<Longrightarrow> scripted_rest i w' = Some (drop (nat b - 1) x)"
      unfolding serves_text_def by blast
    moreover have "column w' \<le> i"
      using w'(1) \<open>column w \<le> i\<close>
      by (auto simp: scripted_def scripted_data_def scripted_text_def Let_def split: option.splits if_splits)
    ultimately show "\<exists>y n w'. SQLGetData scripted stmt i SQL_CHAR b ind w =
      ((if length x < nat b then SQL_SUCCESS else SQL_SUCCESS_WITH_INFO, Some (CText y), n), w') \<and>
      in_buffer (nat b) y = take (nat b - 1) x \<and> (ind \<longrightarrow> n = Some (int (length x))) \<and>
      (nat b \<le> length x \<longrightarrow> scripted_ahead i w' = Some (drop (nat b - 1) x))"
      by (auto simp: scripted_ahead_def)
  qed
  moreover have "scripted_ahead j w' = scripted_ahead j w"
    if "i < j" "scripted_ahead i w \<noteq> None" "SQLGetData scripted stmt i t b ind w = (a, w')" for i j w t b ind a w'
  proof -
    have "row w' = row w" "column w' = column w \<or> column w' = i" "column w \<le> i"
      using that(2,3)
      by (auto simp: scripted_ahead_def scripted_def scripted_data_def scripted_text_def Let_def
          split: option.splits if_splits)
    then show ?thesis
      using that(1) by (auto simp: scripted_ahead_def scripted_rest_def unread_def split: option.splits cval.splits)
  qed
  ultimately show ?thesis unfolding serves_texts_def by blast
qed

end
