(* ===== verification/Queries.thy ===== *)
theory Queries
  imports Statements Assignment
begin

text \<open>
  What the statements on the rows of a query do in an SQL-session: FETCH and CLOSE of a cursor that
  isn't open, and the rows that a single row SELECT finds with a libvsql that serves them.
\<close>

section \<open>Cursors that are not open\<close>

context runtime
begin

text \<open>FETCH and CLOSE of a cursor without a CLI statement give 24000, without calling libvsql.\<close>

lemma cursors_in_session:
  assumes s: "invar J cursor_count X s" "settled (agent s)" "in_session M c s" "linked cursor_count M"
  obtains m t where "vsql_m_cursors M c s = Some (True, t)" "invar J cursor_count X t" "settled (agent t)"
    "live c (agent t)" "current (agent t) = Some c" "slots M c (agent t) = Some m"
    "cursor_stmts c (agent t) = cursor_stmts c (agent s)" "world t = world s"
proof -
  have live: "live c (agent s)" "current (agent s) = Some c" "allocations s = []"
    using s(3) by (simp_all add: in_session_def)
  have "ok (vsql_m_cursors M c s) (\<lambda>good t. good \<longrightarrow> invar J cursor_count X t \<and> settled (agent t) \<and>
      live c (agent t) \<and> current (agent t) = Some c \<and> (\<exists>m. slots M c (agent t) = Some m) \<and>
      cursor_stmts c (agent t) = cursor_stmts c (agent s))"
    using live(2) by (intro vsql_m_cursors_ok [OF s(1,2) live(1) s(4)]) auto
  moreover have "\<exists>t. vsql_m_cursors M c s = Some (True, t) \<and> world t = world s"
    using live
    by (auto simp: vsql_m_cursors_def deref_live allocate_enough modify_def)
  ultimately show thesis using that by auto
qed

lemma closed_in_session:
  assumes s: "invar J cursor_count X s" "settled (agent s)" "in_session M c s" "linked cursor_count M"
    "i < vsql_m_cursor_count M" "cursor_stmts c (agent s) (own M, i) = 0"
    and Q: "\<And>s'. invar J cursor_count X s' \<Longrightarrow> settled (agent s') \<Longrightarrow> sqlstate s' = ''24000'' \<Longrightarrow>
      world s' = world s \<Longrightarrow> cursor_stmts c (agent s') = cursor_stmts c (agent s) \<Longrightarrow> Q 0 s'"
  shows "ok (vsql_m_cursor L M i None hold s) Q"
proof -
  obtain m t where t: "vsql_m_cursors M c s = Some (True, t)" "invar J cursor_count X t" "settled (agent t)"
    "live c (agent t)" "slots M c (agent t) = Some m"
    "cursor_stmts c (agent t) = cursor_stmts c (agent s)" "world t = world s"
    by (rule cursors_in_session [OF s(1-4)])
  have i: "i < length (m_stmts m)"
    using slots_length [OF invar_wf_agent [OF t(2)] t(4,5) s(4,5)] by simp
  then have "m_stmts m ! i = cursor_stmts c (agent t) (own M, i)"
    using t(5) by (simp add: cursor_stmts_def slots_def)
  then have "cursors_get M c i t = Some (0, t)"
    using cursors_get_eq [OF t(4,5) i] t(6) s(6) by simp
  moreover have "ok (vsql_m_status ''24000'' t) (\<lambda>_. Q 0)"
    using t by (intro vsql_m_status_ok [OF t(2)]) (auto intro!: Q)
  ultimately show ?thesis
    by (simp add: vsql_m_cursor_def connection_in_session [OF s(3)] t(1))
qed

lemma fetch_closed:
  assumes s: "invar J cursor_count X s" "settled (agent s)" "in_session M c s" "linked cursor_count M"
    "i < vsql_m_cursor_count M" "cursor_stmts c (agent s) (own M, i) = 0"
    and Q: "\<And>s'. invar J cursor_count X s' \<Longrightarrow> settled (agent s') \<Longrightarrow> sqlstate s' = ''24000'' \<Longrightarrow>
      world s' = world s \<Longrightarrow> cursor_stmts c (agent s') = cursor_stmts c (agent s) \<Longrightarrow> R s'"
  shows "ok (vsql_m_fetch L M i ts s) (\<lambda>r s'. r = (False, ts) \<and> R s')"
    "ok (vsql_m_fetch_dynamic L M i u s) (\<lambda>r s'. r = (False, u) \<and> R s')"
    "ok (vsql_m_close_cursor L M i s) (\<lambda>_. R)"
  unfolding vsql_m_fetch_def vsql_m_fetch_dynamic_def vsql_m_close_cursor_def
  by (simp_all, (intro closed_in_session [OF s], simp add: Q)+)

end

section \<open>The rows of a query\<close>

text \<open>
  A libvsql that serves the rows of a query: \<open>left\<close> is the number of rows that have not been fetched,
  which reading the values of a row doesn't change.
\<close>

definition serves_rows :: "'w cli \<Rightarrow> int \<Rightarrow> ('w \<Rightarrow> nat) \<Rightarrow> bool" where
  "serves_rows L stmt left \<longleftrightarrow>
     (\<forall>w rc w'. SQLFetch L stmt w = (rc, w') \<longrightarrow>
        (if left w = 0 then rc = SQL_NO_DATA else rc = SQL_SUCCESS \<and> left w' = left w - 1)) \<and>
     (\<forall>i t b ind w a w'. SQLGetData L stmt i t b ind w = (a, w') \<longrightarrow> left w' = left w)"

lemma serves_rowsD:
  assumes "serves_rows L stmt left"
  shows "SQLFetch L stmt w = (rc, w') \<Longrightarrow>
      if left w = 0 then rc = SQL_NO_DATA else rc = SQL_SUCCESS \<and> left w' = left w - 1"
    "SQLGetData L stmt i t b ind v = (a, v') \<Longrightarrow> left v' = left v"
  using assms unfolding serves_rows_def by blast+

lemma serves_rows_audit:
  assumes "serves_rows L stmt left"
  shows "serves_rows (audit L) stmt (\<lambda>w. left (inner w))"
proof -
  have "SQLFetch (audit L) stmt = checked SQL_HANDLE_STMT stmt (SQLFetch L stmt)"
    "SQLGetData (audit L) stmt i t b ind = checked SQL_HANDLE_STMT stmt (SQLGetData L stmt i t b ind)"
    for i t b ind
    by (simp_all add: audit_def)
  then show ?thesis
    unfolding serves_rows_def using serves_rowsD [OF assms] by (simp only: checked_eq) blast
qed

text \<open>Assigning a row reads it only with SQLGetData, so it leaves the rows.\<close>

definition rows_left :: "('w \<Rightarrow> nat) \<Rightarrow> nat \<Rightarrow> 'w state \<Rightarrow> bool" where
  "rows_left left n s \<longleftrightarrow> left (world s) = n"

lemma data_left:
  assumes "rows_left left n s" "serves_rows L stmt left" "\<And>a s'. rows_left left n s' \<Longrightarrow> Q a s'"
  shows "wlp (call (SQLGetData L stmt i t b ind) s) Q"
  using assms(1,3) serves_rowsD(2) [OF assms(2)]
  by (auto simp: call_def rows_left_def split: prod.split)

lemma assign_rest_left:
  assumes "rows_left left n s" "serves_rows L stmt left" "\<And>a s'. rows_left left n s' \<Longrightarrow> Q a s'"
  shows "wlp (vsql_m_assign_rest L stmt i rc k s) Q"
proof -
  have "serves_rows L stmt left \<longrightarrow> left (world (snd y)) = left (world s)"
    if "vsql_m_assign_rest L stmt i rc k s = Some y" for y
    using that
  proof (rule vsql_m_assign_rest.raw_induct [rotated], goal_cases)
    case (1 f L stmt i rc k s y)
    show ?case
    proof
      assume left: "serves_rows L stmt left"
      then show "left (world (snd y)) = left (world s)"
        using 1 by (auto simp: call_def split: if_splits prod.splits option.splits bind_splits
            dest!: serves_rowsD(2) [OF left])
    qed
  qed
  then show ?thesis using assms by (auto simp: wlp_def rows_left_def)
qed

lemma assign_left:
  assumes "rows_left left n s" "serves_rows L stmt left" "\<And>a s'. rows_left left n s' \<Longrightarrow> Q a s'"
  shows "wlp (vsql_m_assign L stmt i t s) Q"
  unfolding vsql_m_assign_def vsql_m_assign_text_def using assms(1,2)
  by - (clarsimp simp: assms(3) split: cval.split
    | (rule conjI impI allI | erule data_left assign_rest_left | rule wlp_any)[1])+

lemma assign_targets_left:
  "rows_left left n s \<Longrightarrow> serves_rows L stmt left \<Longrightarrow> (\<And>a s'. rows_left left n s' \<Longrightarrow> Q a s') \<Longrightarrow>
   wlp (vsql_m_assign_targets L stmt i rc tr ts s) Q"
proof (induction ts arbitrary: i rc tr s Q)
  case (Cons t ts)
  show ?case
    using Cons.prems(1,2) by (auto intro!: Cons.prems(3) elim!: assign_left Cons.IH)
qed simp

context runtime
begin

text \<open>
  SELECT assigns the first row of the query to the targets, and gives 02000 when there is none, and
  21000 when there are more.
\<close>

lemma select_row_served:
  assumes s: "invar J cursor_count (add_mset (SQL_HANDLE_STMT, stmt) X) s" "settled (agent s)"
    "\<forall>t\<in>set ts. wf_target t" and left: "serves_rows L stmt left"
    and Q: "\<And>good ts' s'. invar J cursor_count X s' \<Longrightarrow> settled (agent s') \<Longrightarrow>
      if left (world s) = 0 then \<not> good \<and> ts' = ts \<and> sqlstate s' = ''02000''
      else good \<longrightarrow> (if left (world s) = 1 then sqlstate s' \<in> {''00000'', ''01004''} else sqlstate s' = ''21000'')
      \<Longrightarrow> Q (good, ts') s'"
  shows "ok (vsql_m_select_row L stmt SQL_SUCCESS ts s) Q"
proof -
  let ?X = "add_mset (SQL_HANDLE_STMT, stmt) X"
  have row: "ok (vsql_m_assign_row L stmt rc ts t) R"
    if t: "invar J cursor_count ?X t"
      "\<And>rc' ts' tr s'. invar J cursor_count ?X s' \<Longrightarrow> agent s' = agent t \<Longrightarrow> da s' = da t \<Longrightarrow>
        sqlstate s' = sqlstate t \<Longrightarrow> left (world s') = left (world t) \<Longrightarrow>
        (rc = SQL_NO_DATA \<longrightarrow> rc' = rc \<and> ts' = ts) \<Longrightarrow> R (rc', ts', tr) s'" for rc t R
  proof -
    have "ok (vsql_m_assign_row L stmt rc ts t) (\<lambda>r s'. invar J cursor_count ?X s' \<and> agent s' = agent t \<and>
        da s' = da t \<and> sqlstate s' = sqlstate t)"
      using s(3) by (intro vsql_m_assign_row_ok [OF t(1)]) auto
    then have "ok (vsql_m_assign_row L stmt rc ts t) (\<lambda>r s'. (invar J cursor_count ?X s' \<and> agent s' = agent t \<and>
        da s' = da t \<and> sqlstate s' = sqlstate t) \<and> left (world s') = left (world t))"
      by (rule ok_wlp) (unfold vsql_m_assign_row_def, rule assign_targets_left [where left = left and n = "left (world t)"],
          simp_all add: rows_left_def left)
    moreover have "vsql_m_assign_row L stmt SQL_NO_DATA ts t = Some ((SQL_NO_DATA, ts, False), t)"
      by (cases ts) (simp_all add: vsql_m_assign_row_def codes)
    ultimately show ?thesis
      by (cases "rc = SQL_NO_DATA") (auto simp: ok_iff intro!: t(2))
  qed
  have fetch: "ok (call (SQLFetch L stmt) t) R"
    if t: "invar J cursor_count ?X t"
      "\<And>rc s'. invar J cursor_count ?X s' \<Longrightarrow> agent s' = agent t \<Longrightarrow>
        (if left (world t) = 0 then rc = SQL_NO_DATA else rc = SQL_SUCCESS \<and> left (world s') = left (world t) - 1) \<Longrightarrow>
        R rc s'" for t R
    using serves_rowsD(1) [OF left] by (intro call_preserves [OF t(1)] uses t(2)) auto
  have free: "ok (call (SQLFreeHandle L SQL_HANDLE_STMT stmt) t) (\<lambda>_. Q (good, ts'))"
    if t: "invar J cursor_count ?X t" "agent t = agent s"
      "if left (world s) = 0 then \<not> good \<and> ts' = ts \<and> sqlstate t = ''02000''
       else good \<longrightarrow> (if left (world s) = 1 then sqlstate t \<in> {''00000'', ''01004''} else sqlstate t = ''21000'')"
    for good ts' t
    using t s(2) by - ((erule wp | (rule Q; simp split: if_splits))[1])+
  have succeeded: "\<not> vsql_m_failed SQL_SUCCESS" "SQL_SUCCESS \<noteq> SQL_NO_DATA"
    by (simp add: vsql_m_failed_iff, simp add: codes)
  have status: "ok (vsql_m_status code t) (\<lambda>_ t. ok (call (SQLFreeHandle L SQL_HANDLE_STMT stmt) t)
      (\<lambda>_. Q (True, ts')))"
    if t: "invar J cursor_count ?X t" "agent t = agent s" "left (world s) \<noteq> 0"
      "if left (world s) = 1 then code \<in> {''00000'', ''01004''} else code = ''21000''" for code ts' t
    using t by (intro vsql_m_status_ok [OF t(1)] free) (auto split: if_splits)
  have diag: "ok (vsql_m_diag L rc SQL_HANDLE_STMT stmt t)
      (\<lambda>_ t. ok (call (SQLFreeHandle L SQL_HANDLE_STMT stmt) t) (\<lambda>_. Q (False, ts')))"
    if t: "invar J cursor_count ?X t" "agent t = agent s" "left (world s) = 0 \<longrightarrow> rc = SQL_NO_DATA \<and> ts' = ts"
    for rc ts' t
    using t by (intro vsql_m_diag_ok [OF t(1)] free) (auto simp: reported_def)
  show ?thesis
    unfolding vsql_m_select_row_def using succeeded
    by (auto intro!: fetch [OF s(1)] row fetch status diag split: if_splits)
qed

end

lemma scripted_rows: "serves_rows scripted stmt (\<lambda>w. length (rows w))"
  by (auto simp: serves_rows_def scripted_def scripted_fetch_def scripted_data_def scripted_text_def Let_def
      split: list.splits option.splits if_splits)

end
