(* ===== verification/Samples.thy ===== *)
theory Samples
  imports Program Queries
begin

text \<open>
  Concrete states for the witnesses of the properties: what a program of the module
  \<open>sample_module\<close> reaches with \<open>scripted\<close> when it connects, and then allocates an SQL descriptor
  area. They are evaluated by the simplifier.
\<close>

section \<open>Evaluation\<close>

lemmas session_steps = procedure_def vsql_m_begin_def vsql_m_connect_def vsql_m_connect_default_def
  vsql_m_open_def vsql_m_open_env_def vsql_m_schema_def vsql_m_status_def vsql_m_clear_def
  vsql_m_sqlstate_def vsql_m_find_default_def vsql_m_switch_def vsql_m_connection_def

lemmas memory_steps = call_def allocate_def vsql_m_copy_def deref_def modify_def update_def
  new_connection_def strcpy_def deref_link_def

lemmas descriptor_steps = vsql_m_allocate_descriptor_def vsql_m_set_count_def vsql_m_descriptor_def
  vsql_m_find_descriptor_def allocate_both_def new_descriptor_def modify_descriptor_def
  set_descriptor_def deref_descriptor_def cast32_def

lemmas libvsql_steps = audit_def checked_def checked_alloc_def checked_free_def parent_def
  scripted_def scripted_alloc_def scripted_execute_def vsql_m_failed_def completed_def codes

lemmas sample_steps = playing_state_def initial_def unused_def playing_def sample_module_def

section \<open>States\<close>

definition after :: "statement \<Rightarrow> script audit_state state \<Rightarrow> script audit_state state" where
  "after st s = snd (the (procedure (audit scripted) sample_module '''' 0 st s))"

definition connected_state :: "script audit_state state" where
  "connected_state = after (Connect_To None None None) (playing_state [])"

definition area_state :: "script audit_state state" where
  "area_state = after (Set_Count ''D'' None 1) (after (Allocate_Descriptor ''D'' None 2) connected_state)"

abbreviation reachable_sample :: "script audit_state state \<Rightarrow> bool" where
  "reachable_sample \<equiv> reachable (audit scripted) (\<lambda>_. 2) (unused (playing []))"

lemma linked_sample: "linked (\<lambda>_. 2) sample_module"
  by (simp add: linked_def sample_module_def vsql_m_cursor_count_def)

lemma after_reachable:
  assumes "reachable_sample s" "generated sample_module st"
  shows "reachable_sample (after st s)"
proof -
  have "sound (\<lambda>_. 2) s"
    by (rule reachable_invariant [OF scripted_contract scripted_limits assms(1)])
  from procedure_step [OF scripted_contract scripted_limits this linked_sample assms(2),
      where command = "''''" and code = 0 and x = "sqlstate s" and bs = "allocations s"]
  obtain s' where "call_procedure (audit scripted) (\<lambda>_. 2) s s'"
    "procedure (audit scripted) sample_module '''' 0 st s = Some ((), s')"
    by auto
  then show ?thesis
    using reachable.calls [OF assms(1)] by (simp add: after_def)
qed

lemma samples_reachable: "reachable_sample connected_state" "reachable_sample area_state"
proof -
  have "reachable_sample (playing_state [])"
    unfolding playing_state_def by (rule reachable.starts)
  then show "reachable_sample connected_state"
    unfolding connected_state_def by (rule after_reachable) (simp add: generated_def)
  then show "reachable_sample area_state"
    unfolding area_state_def by (intro after_reachable) (simp_all add: generated_def)
qed

lemma samples_sound: "sound (\<lambda>_. 2) connected_state" "sound (\<lambda>_. 2) area_state"
  by (rule reachable_invariant [OF scripted_contract scripted_limits], rule samples_reachable)+

lemma connected_state_eq:
  "connected_state = \<lparr>
     agent = \<lparr>ready = True, env = 1,
       connections = [\<lparr>c_address = 1, c_name = '''', c_server = Some ''DEFAULT'', c_is_default = True,
         c_dbc = 2, c_active = False, c_module = Some 1, c_cursors = [], c_prepared = [],
         c_descriptors = []\<rparr>],
       current = Some 1, connected = True, next_address = 2, atexits = 1\<rparr>,
     da = \<lparr>command_function = '''', command_function_code = 0, dynamic_function = '''',
       dynamic_function_code = 0, row_count = 0, transactions_committed = 0,
       transactions_rolled_back = 0, conditions = [], connection_name = '''',
       server_name = None, cursor_name = None\<rparr>,
     sqlstate = ''00000'', allocations = [],
     world = \<lparr>inner = \<lparr>next_handle = 4, answers = [], records = [], columns = [], row = [],
       rows = [], column = 0, offset = 0\<rparr>, allocated = {#(2, 2), (1, 1)#}, misused = False\<rparr>\<rparr>"
  unfolding connected_state_def after_def
  by (simp add: session_steps memory_steps libvsql_steps sample_steps Let_def)

lemma connected_in_session: "in_session sample_module 1 connected_state"
  by (simp add: connected_state_eq in_session_def live_def lookup_def sample_module_def)

lemma connected_ready: "ready (agent connected_state)"
  by (simp add: connected_state_eq)

lemma connected_areas: "areas 1 (agent connected_state) = Map.empty"
  by (simp add: connected_state_eq areas_def lookup_def entries_def fun_eq_iff)

lemma area_in_session: "in_session sample_module 1 area_state"
  unfolding area_state_def after_def connected_state_eq
  by (simp add: session_steps memory_steps descriptor_steps sample_module_def Let_def
      in_session_def live_def lookup_def)

lemma area_areas: "areas 1 (agent area_state) =
    [(''D'', None) \<mapsto> (new_descriptor ''D'' None 2)\<lparr>d_count := 1\<rparr>]"
  unfolding area_state_def after_def connected_state_eq
  by (simp add: session_steps memory_steps descriptor_steps sample_module_def Let_def
      areas_def lookup_def entries_def d_key_def fun_eq_iff)

lemma area_item: "item_at ((1, 0), 1) (agent area_state)"
  unfolding area_state_def after_def connected_state_eq
  by (simp add: session_steps memory_steps descriptor_steps sample_module_def Let_def
      item_at_def descriptor_at_def the_descriptor_def live_def lookup_def)

lemma area_active: "connections (agent area_state) \<noteq> [] \<and> c_active (hd (connections (agent area_state)))"
  unfolding area_state_def after_def connected_state_eq
  by (simp add: session_steps memory_steps descriptor_steps sample_module_def Let_def)

lemmas statement_steps = vsql_m_prepare_def vsql_m_prepare_new_def vsql_m_find_prepared_def
  vsql_m_diag_def scripted_prepare_def written_text_def written_number_def if_found_def
  vsql_m_raise_def vsql_m_message_def vsql_m_messages_def scripted_diag_int_def

definition raised_state :: "script audit_state state" where
  "raised_state = after (Get_Header ''D'' None False) connected_state"

definition prepared_state :: "script audit_state state" where
  "prepared_state = after (Prepare_Statement ''S'' ''SELECT 1'') connected_state"

lemma more_samples_sound: "sound (\<lambda>_. 2) raised_state" "sound (\<lambda>_. 2) prepared_state"
  unfolding raised_state_def prepared_state_def
  by (rule reachable_invariant [OF scripted_contract scripted_limits], rule after_reachable,
      rule samples_reachable, simp add: generated_def)+

lemma connected_statements: "statements 1 (agent connected_state) = Map.empty"
  by (simp add: connected_state_eq statements_def lookup_def)

lemma raised_condition: "length (conditions (da raised_state)) = 1"
  unfolding raised_state_def after_def connected_state_eq
  by (simp add: session_steps memory_steps descriptor_steps statement_steps sample_module_def Let_def)

lemma prepared_held: "(SQL_HANDLE_STMT, 4) \<in># held (agent prepared_state)"
  unfolding prepared_state_def after_def connected_state_eq
  by (simp add: session_steps memory_steps statement_steps libvsql_steps sample_module_def Let_def
      held_def held_connection_def)

lemma area_descriptor: "descriptor_at (1, 0) (agent area_state) \<and>
    the_descriptor (1, 0) (agent area_state) = (new_descriptor ''D'' None 2)\<lparr>d_count := 1\<rparr>"
  unfolding area_state_def after_def connected_state_eq
  by (simp add: session_steps memory_steps descriptor_steps sample_module_def Let_def
      descriptor_at_def the_descriptor_def live_def lookup_def)

lemma sample_names: "vsql_m_name ''other'' = ''OTHER''"
  by code_simp

text \<open>A second SQL-connection, which is the current one.\<close>

definition second_state :: "script audit_state state" where
  "second_state = after (Connect_To (Some ''db'') None None) connected_state"

lemma second_reachable: "reachable_sample second_state"
  unfolding second_state_def by (rule after_reachable [OF samples_reachable(1)]) (simp add: generated_def)

lemma second_connections:
  "map c_address (connections (agent second_state)) = [2, 1] \<and> current (agent second_state) = Some 2"
proof -
  have "vsql_m_name ''db'' = ''DB''" by code_simp
  then show ?thesis
    unfolding second_state_def after_def connected_state_eq
    by (simp add: session_steps memory_steps libvsql_steps statement_steps sample_module_def Let_def
        vsql_m_connect_to_def vsql_m_find_def)
qed

text \<open>A statement has been executed, which has two rows.\<close>

definition queried_state :: "script audit_state state" where
  "queried_state = connected_state\<lparr>world := (world connected_state)\<lparr>
     inner := (inner (world connected_state))\<lparr>rows := [[], []]\<rparr>,
     allocated := add_mset (SQL_HANDLE_STMT, 9) (allocated (world connected_state))\<rparr>\<rparr>"

lemma queried_invar: "invar audited (\<lambda>_. 2) {#(SQL_HANDLE_STMT, 9)#} queried_state" "settled (agent queried_state)"
  using samples_sound(1) by (simp_all add: sound_def queried_state_def invar_def audited_def)

lemma connected_cursors: "cursor_stmts 1 (agent connected_state) = (\<lambda>_. 0)"
  by (simp add: connected_state_eq cursor_stmts_def find_cursors_def lookup_def fun_eq_iff)

end
