(* ===== verification/Isolation.thy ===== *)
theory Isolation
  imports Program
begin

text \<open>
  What a statement leaves as it is. Every statement but CONNECT, SET CONNECTION and DISCONNECT works
  in the current SQL-session: it changes nothing of the SQL-agent but the SQL-connection that is
  current, and of that neither the name nor the handle. The rules here are for partial correctness,
  and hold for any libvsql; that the procedures return is in \<open>procedure_sound\<close>.
\<close>

named_theorems stays \<open>what a routine leaves of the SQL-agent, applied backwards\<close>

lemmas wlp_links [simp] = wlp_value [where 'v = "string + cval"] wlp_value [where 'v = vsql_m_cursors]
  wlp_value [where 'v = vsql_m_prepared] wlp_value [where 'v = vsql_m_descriptor]
  wlp_value [where 'v = vsql_m_connection]

section \<open>Routines that leave the SQL-agent\<close>

text \<open>
  What is said of the SQL-agent stays true when libvsql is called, when memory is allocated, and
  when the diagnostics area or the status parameter changes.
\<close>

definition holds :: "(vsql_m_agent \<Rightarrow> bool) \<Rightarrow> 'w state \<Rightarrow> bool" where
  "holds P s \<longleftrightarrow> P (agent s)"

lemma holds_simps [simp]:
  "holds P (s\<lparr>da := d\<rparr>) = holds P s"
  "holds P (s\<lparr>sqlstate := x\<rparr>) = holds P s"
  "holds P (s\<lparr>allocations := bs\<rparr>) = holds P s"
  "holds P (s\<lparr>world := w\<rparr>) = holds P s"
  "holds P (vsql_m_clear s) = holds P s"
  "holds P (vsql_m_sqlstate code s) = holds P s"
  "holds P (output_da g v s) = holds P s"
  by (simp_all add: holds_def vsql_m_clear_def vsql_m_sqlstate_def output_da_def split: option.split)

lemma call_silent [stays]:
  "holds P s \<Longrightarrow> (\<And>x s'. holds P s' \<Longrightarrow> Q x s') \<Longrightarrow> wlp (call f s) Q"
  by (simp add: call_def split: prod.split)

lemma allocate_silent [stays]:
  "holds P s \<Longrightarrow> (\<And>x s'. holds P s' \<Longrightarrow> Q x s') \<Longrightarrow> wlp (allocate s) Q"
  by (simp add: allocate_def)

lemma deref_silent [stays]:
  "holds P s \<Longrightarrow> (\<And>k. holds P s \<Longrightarrow> Q k s) \<Longrightarrow> wlp (deref c s) Q"
  by (simp add: deref_def)

lemma vsql_m_copy_silent [stays]:
  "holds P s \<Longrightarrow> (\<And>x s'. holds P s' \<Longrightarrow> Q x s') \<Longrightarrow> wlp (vsql_m_copy v s) Q"
  unfolding vsql_m_copy_def
  by (auto elim!: stays)

text \<open>The same for what is called just after a change of the diagnostics area.\<close>

lemma call_updated [stays]:
  assumes "holds P s" "\<And>x s'. holds P s' \<Longrightarrow> Q x s'"
  shows "wlp (call f (s\<lparr>da := d\<rparr>)) Q" "wlp (call f (vsql_m_clear s)) Q" "wlp (call f (output_da g v s)) Q"
  using assms by (auto intro!: call_silent [where P = P])

lemma raise_updated [stays]:
  "holds P s \<Longrightarrow> (\<And>x s'. holds P s' \<Longrightarrow> Q x s') \<Longrightarrow> wlp (vsql_m_copy v (s\<lparr>da := d\<rparr>)) Q"
  "holds P s \<Longrightarrow> (\<And>k s'. holds P s' \<Longrightarrow> R k s') \<Longrightarrow> wlp (deref c (s\<lparr>da := d\<rparr>)) R"
  by (auto intro!: vsql_m_copy_silent [where P = P] deref_silent [where P = P])

lemma vsql_m_raise_silent [stays]:
  "holds P s \<Longrightarrow> (\<And>x s'. holds P s' \<Longrightarrow> Q x s') \<Longrightarrow> wlp (vsql_m_raise code text s) Q"
  unfolding vsql_m_raise_def
  by (auto elim!: stays)

lemma raise_cleared [stays]:
  assumes "holds P s" "\<And>x s'. holds P s' \<Longrightarrow> Q x s'"
  shows "wlp (vsql_m_raise code v (vsql_m_clear (vsql_m_sqlstate code s))) Q"
  using assms by (auto intro!: vsql_m_raise_silent [where P = P])

lemma vsql_m_status_silent [stays]:
  "holds P s \<Longrightarrow> (\<And>x s'. holds P s' \<Longrightarrow> Q x s') \<Longrightarrow> wlp (vsql_m_status code s) Q"
  unfolding vsql_m_status_def
  by (auto elim!: stays)

lemma vsql_m_diag_text_silent [stays]:
  "holds P s \<Longrightarrow> (\<And>x s'. holds P s' \<Longrightarrow> Q x s') \<Longrightarrow> wlp (vsql_m_diag_text L t h i f s) Q"
  unfolding vsql_m_diag_text_def
  by (auto elim!: stays)

lemma vsql_m_diag_constraint_silent [stays]:
  "holds P s \<Longrightarrow> (\<And>x s'. holds P s' \<Longrightarrow> Q x s') \<Longrightarrow> wlp (vsql_m_diag_constraint L t h i s) Q"
  unfolding vsql_m_diag_constraint_def
  by (auto elim!: stays)

lemma vsql_m_diag_record_silent [stays]:
  "holds P s \<Longrightarrow> (\<And>x s'. holds P s' \<Longrightarrow> Q x s') \<Longrightarrow> wlp (vsql_m_diag_record L t h i s) Q"
  unfolding vsql_m_diag_record_def
  by (auto elim!: stays)

lemma vsql_m_diag_records_silent [stays]:
  "holds P s \<Longrightarrow> (\<And>x s'. holds P s' \<Longrightarrow> Q x s') \<Longrightarrow> wlp (vsql_m_diag_records L t h n i s) Q"
proof (induction n arbitrary: i s)
  case (Suc n)
  note rest = Suc.IH [OF _ Suc.prems(2)]
  show ?case
    using Suc.prems(1)
    by - (simp, erule stays, auto intro!: Suc.prems(2) elim!: stays rest)
qed simp

lemma vsql_m_diag_silent [stays]:
  "holds P s \<Longrightarrow> (\<And>x s'. holds P s' \<Longrightarrow> Q x s') \<Longrightarrow> wlp (vsql_m_diag L rc t h s) Q"
  unfolding vsql_m_diag_def
  by (auto elim!: stays)

lemma vsql_m_bind_params_from_silent [stays]:
  "holds P s \<Longrightarrow> (\<And>x s'. holds P s' \<Longrightarrow> Q x s') \<Longrightarrow> wlp (vsql_m_bind_params_from L stmt i ps s) Q"
proof (induction ps arbitrary: i s)
  case (Cons p ps)
  note rest = Cons.IH [OF _ Cons.prems(2)]
  show ?case
    using Cons.prems(1) by (auto intro!: Cons.prems(2) elim!: stays rest)
qed simp

lemma vsql_m_bind_params_silent [stays]:
  "holds P s \<Longrightarrow> (\<And>x s'. holds P s' \<Longrightarrow> Q x s') \<Longrightarrow> wlp (vsql_m_bind_params L stmt ps s) Q"
  unfolding vsql_m_bind_params_def
  by (auto elim!: stays)

lemma vsql_m_exec_command_silent [stays]:
  "holds P s \<Longrightarrow> (\<And>x s'. holds P s' \<Longrightarrow> Q x s') \<Longrightarrow> wlp (vsql_m_exec_command L stmt s) Q"
  unfolding vsql_m_exec_command_def
  by (auto elim!: stays)

lemma vsql_m_row_count_silent [stays]:
  "holds P s \<Longrightarrow> (\<And>x s'. holds P s' \<Longrightarrow> Q x s') \<Longrightarrow> wlp (vsql_m_row_count L stmt s) Q"
  unfolding vsql_m_row_count_def
  by (auto elim!: stays)

lemma vsql_m_assign_rest_silent [stays]:
  assumes "holds P s" "\<And>x s'. holds P s' \<Longrightarrow> Q x s'"
  shows "wlp (vsql_m_assign_rest L stmt i rc k s) Q"
proof -
  have "agent (snd y) = agent s" if "vsql_m_assign_rest L stmt i rc k s = Some y" for y
    using that
    by (rule vsql_m_assign_rest.raw_induct [rotated])
      (auto simp: call_def split: if_splits prod.splits option.splits bind_splits)
  then show ?thesis using assms by (auto simp: wlp_def holds_def)
qed

lemma count_pieces_silent [stays]:
  assumes "holds P s" "\<And>x s'. holds P s' \<Longrightarrow> Q x s'"
  shows "wlp (count_pieces L stmt i m n s) Q"
proof -
  have "agent (snd y) = agent s" if "count_pieces L stmt i m n s = Some y" for y
    using that
    by (rule count_pieces.raw_induct [rotated])
      (auto simp: call_def split: if_splits prod.splits option.splits bind_splits)
  then show ?thesis using assms by (auto simp: wlp_def holds_def)
qed

lemma vsql_m_assign_text_silent [stays]:
  "holds P s \<Longrightarrow> (\<And>x s'. holds P s' \<Longrightarrow> Q x s') \<Longrightarrow> wlp (vsql_m_assign_text L stmt i t s) Q"
  unfolding vsql_m_assign_text_def
  by (clarsimp | (rule conjI impI allI | erule stays | rule wlp_any)[1])+

lemma vsql_m_assign_silent [stays]:
  "holds P s \<Longrightarrow> (\<And>x s'. holds P s' \<Longrightarrow> Q x s') \<Longrightarrow> wlp (vsql_m_assign L stmt i t s) Q"
  unfolding vsql_m_assign_def
  by (auto split: cval.split elim!: stays)

lemma vsql_m_assign_targets_silent [stays]:
  "holds P s \<Longrightarrow> (\<And>x s'. holds P s' \<Longrightarrow> Q x s') \<Longrightarrow> wlp (vsql_m_assign_targets L stmt i rc tr ts s) Q"
proof (induction ts arbitrary: i rc tr s Q)
  case (Cons t ts)
  show ?case
    using Cons.prems(1) by (auto intro!: Cons.prems(2) elim!: stays Cons.IH)
qed simp

lemma vsql_m_assign_row_silent [stays]:
  "holds P s \<Longrightarrow> (\<And>x s'. holds P s' \<Longrightarrow> Q x s') \<Longrightarrow> wlp (vsql_m_assign_row L stmt rc ts s) Q"
  unfolding vsql_m_assign_row_def
  by (auto elim!: stays)

lemma vsql_m_select_row_silent [stays]:
  "holds P s \<Longrightarrow> (\<And>x s'. holds P s' \<Longrightarrow> Q x s') \<Longrightarrow> wlp (vsql_m_select_row L stmt rc ts s) Q"
  unfolding vsql_m_select_row_def
  by (auto elim!: stays)

lemma vsql_m_fetch_row_silent [stays]:
  "holds P s \<Longrightarrow> (\<And>x s'. holds P s' \<Longrightarrow> Q x s') \<Longrightarrow> wlp (vsql_m_fetch_row L stmt rc ts s) Q"
  unfolding vsql_m_fetch_row_def
  by (auto elim!: stays)

lemma cursor_is_open_silent [stays]:
  "holds P s \<Longrightarrow> (\<And>x s'. holds P s' \<Longrightarrow> Q x s') \<Longrightarrow> wlp (cursor_is_open L stmt s) Q"
  unfolding cursor_is_open_def
  by (auto elim!: stays)

section \<open>What stays in an SQL-session\<close>

text \<open>
  What the statements of an SQL-session leave of its SQL-connection. \<open>opened a a'\<close>: the default
  SQL-connection of a program that has none is established, or it fails.
\<close>

definition identity :: "vsql_m_connection \<Rightarrow> nat \<times> string \<times> string option \<times> bool \<times> int" where
  "identity k = (c_address k, c_name k, c_server k, c_is_default k, c_dbc k)"

definition opened :: "vsql_m_agent \<Rightarrow> vsql_m_agent \<Rightarrow> bool" where
  "opened a a' \<longleftrightarrow>
     connections a' = connections a \<and> current a' = None \<and> connected a' = connected a \<or>
     (\<exists>k. connections a' = k # connections a \<and> c_is_default k \<and> current a' = Some (c_address k))"

text \<open>
  A property of the SQL-agent that no statement of an SQL-session changes: it stays true when the
  current SQL-connection changes, and when the default SQL-connection is established.
\<close>

definition local_property :: "(vsql_m_agent \<Rightarrow> bool) \<Rightarrow> bool" where
  "local_property P \<longleftrightarrow>
     (\<forall>a c f. P a \<longrightarrow> current a = Some c \<longrightarrow> (\<forall>k. identity (f k) = identity k) \<longrightarrow> P (update c f a)) \<and>
     (\<forall>a a'. P a \<longrightarrow> current a = None \<longrightarrow> \<not> connected a \<longrightarrow>
        (connections a = [] \<longrightarrow> opened a a') \<longrightarrow> P a')"

definition within :: "(vsql_m_agent \<Rightarrow> bool) \<Rightarrow> nat \<Rightarrow> vsql_m_agent \<Rightarrow> bool" where
  "within P c a \<longleftrightarrow> P a \<and> current a = Some c"

text \<open>What changes of the SQL-connection at \<open>c\<close> don't change.\<close>

definition stable_at :: "nat \<Rightarrow> (vsql_m_agent \<Rightarrow> bool) \<Rightarrow> bool" where
  "stable_at c P \<longleftrightarrow> (\<forall>a f. P a \<longrightarrow> (\<forall>k. identity (f k) = identity k) \<longrightarrow> P (update c f a))"

lemma stable_within [simp]: "local_property P \<Longrightarrow> stable_at c (within P c)"
  unfolding local_property_def within_def stable_at_def by simp

lemma local_within [simp]: "local_property P \<Longrightarrow> local_property (within P c)"
  unfolding local_property_def within_def by auto

lemma within_within [simp]: "holds (within (within P c) d) s \<longleftrightarrow> d = c \<and> holds (within P c) s"
  by (auto simp: holds_def within_def)

lemma within_holds: "holds (within P c) s \<Longrightarrow> holds P s"
  by (simp add: holds_def within_def)

lemma modify_stays [stays]:
  assumes "holds P s" "stable_at c P" "\<And>k. identity (f k) = identity k" "\<And>x s'. holds P s' \<Longrightarrow> Q x s'"
  shows "wlp (modify c f s) Q"
  using assms by (auto simp: modify_def holds_def stable_at_def intro: deref_silent [of "\<lambda>_. True"])

lemma modify_updated [stays]:
  assumes "holds P s" "stable_at c P" "\<And>k. identity (f k) = identity k" "\<And>x s'. holds P s' \<Longrightarrow> Q x s'"
  shows "wlp (modify c f (s\<lparr>da := d\<rparr>)) Q"
  using assms by (auto intro!: modify_stays [where P = P])

lemma vsql_m_schema_stays [stays]:
  assumes "holds P s" "stable_at c P" "\<And>x s'. holds P s' \<Longrightarrow> Q x s'"
  shows "wlp (vsql_m_schema L M c s) Q"
  unfolding vsql_m_schema_def using assms(1,2)
  by (auto simp: identity_def intro!: assms(3) elim!: stays)

section \<open>Establishing the default SQL-connection\<close>

text \<open>
  \<open>vsql_m_open\<close> puts an SQL-connection before the others, which it takes away when it fails.
\<close>

definition headed ::
  "nat \<Rightarrow> vsql_m_connection list \<Rightarrow> nat option \<Rightarrow> bool \<Rightarrow> vsql_m_agent \<Rightarrow> bool" where
  "headed c ks cur b a \<longleftrightarrow> (\<exists>k. connections a = k # ks \<and> c_address k = c) \<and>
     current a = cur \<and> connected a = b"

definition unchanged :: "vsql_m_connection list \<Rightarrow> nat option \<Rightarrow> bool \<Rightarrow> vsql_m_agent \<Rightarrow> bool" where
  "unchanged ks cur b a \<longleftrightarrow> connections a = ks \<and> current a = cur \<and> connected a = b"

lemma update_headed:
  assumes "headed c ks cur b a" "c \<notin> c_address ` set ks" "\<And>k. c_address (f k) = c_address k"
  shows "headed c ks cur b (update c f a)"
proof -
  have "map (\<lambda>k. if c_address k = c then f k else k) ks = ks"
    using assms(2) by (intro map_idI) auto
  then show ?thesis
    using assms(1,3) by (auto simp: headed_def update_def)
qed

lemma headed_stable [simp]: "c \<notin> c_address ` set ks \<Longrightarrow> stable_at c (headed c ks cur b)"
  by (simp add: stable_at_def update_headed identity_def)

lemma modify_headed:
  assumes "holds (headed c ks cur b) s" "c \<notin> c_address ` set ks" "\<And>k. c_address (f k) = c_address k"
    "\<And>x s'. holds (headed c ks cur b) s' \<Longrightarrow> Q x s'"
  shows "wlp (modify c f s) Q"
  unfolding modify_def using update_headed [OF _ assms(2,3)] assms(1,4)
  by (auto simp: holds_def intro!: deref_silent [of "\<lambda>_. True"])

lemma vsql_m_free_statements_silent [stays]:
  "holds P s \<Longrightarrow> (\<And>x s'. holds P s' \<Longrightarrow> Q x s') \<Longrightarrow> wlp (vsql_m_free_statements L hs s) Q"
proof (induction hs arbitrary: s)
  case (Cons h hs)
  note rest = Cons.IH [OF _ Cons.prems(2)]
  show ?case
    using Cons.prems(1) by (auto intro!: Cons.prems(2) elim!: stays rest)
qed simp

lemma vsql_m_close_cursors_silent [stays]:
  "holds P s \<Longrightarrow> (\<And>x s'. holds P s' \<Longrightarrow> Q x s') \<Longrightarrow> wlp (vsql_m_close_cursors L ms s) Q"
proof (induction ms arbitrary: s)
  case (Cons m ms)
  note rest = Cons.IH [OF _ Cons.prems(2)]
  show ?case
    using Cons.prems(1) by (auto intro!: Cons.prems(2) elim!: stays rest)
qed simp

lemma vsql_m_free_prepared_silent [stays]:
  "holds P s \<Longrightarrow> (\<And>x s'. holds P s' \<Longrightarrow> Q x s') \<Longrightarrow> wlp (vsql_m_free_prepared L p s) Q"
  unfolding vsql_m_free_prepared_def by (auto elim!: stays)

lemma vsql_m_close_prepared_silent [stays]:
  "holds P s \<Longrightarrow> (\<And>x s'. holds P s' \<Longrightarrow> Q x s') \<Longrightarrow> wlp (vsql_m_close_prepared L ps s) Q"
proof (induction ps arbitrary: s)
  case (Cons p ps)
  note rest = Cons.IH [OF _ Cons.prems(2)]
  show ?case
    using Cons.prems(1) by (auto intro!: Cons.prems(2) elim!: stays rest)
qed simp

lemma vsql_m_close_descriptors_silent [stays]:
  "holds P s \<Longrightarrow> (\<And>x s'. holds P s' \<Longrightarrow> Q x s') \<Longrightarrow> wlp (vsql_m_close_descriptors ds s) Q"
  by (induction ds arbitrary: s) (auto simp: vsql_m_free_descriptor_def)

definition unlinked :: "nat \<Rightarrow> vsql_m_agent \<Rightarrow> vsql_m_agent" where
  "unlinked c a = a\<lparr>connections := unlink (link (\<lambda>k. c_address k = c) (connections a)) (connections a),
     current := (if current a = Some c then None else current a)\<rparr>"

lemma vsql_m_close_unlinks:
  assumes "P (unlinked c (agent s))" "\<And>x s'. holds P s' \<Longrightarrow> Q x s'"
  shows "wlp (vsql_m_close L c s) Q"
proof -
  have "holds P (s\<lparr>agent := unlinked c (agent s)\<rparr>)"
    using assms(1) by (simp add: holds_def)
  then show ?thesis
    unfolding vsql_m_close_def
    by (cases "current (agent s) = Some c")
      (clarsimp simp: assms(2) unlinked_def | (erule stays)[1])+
qed

lemma vsql_m_close_headed:
  assumes "holds (headed c ks cur b) s" "cur \<noteq> Some c"
    "\<And>x s'. holds (unchanged ks cur b) s' \<Longrightarrow> Q x s'"
  shows "wlp (vsql_m_close L c s) Q"
proof (rule vsql_m_close_unlinks)
  show "unchanged ks cur b (unlinked c (agent s))"
    using assms(1,2) by (auto simp: holds_def headed_def unchanged_def unlinked_def unlink_def)
qed (rule assms(3))

definition about_to_open ::
  "nat \<Rightarrow> vsql_m_connection list \<Rightarrow> nat option \<Rightarrow> bool \<Rightarrow> vsql_m_agent \<Rightarrow> bool" where
  "about_to_open c ks cur b a \<longleftrightarrow> unchanged ks cur b a \<and> next_address a = c"

lemma about_to_open_env:
  assumes "holds (about_to_open c ks cur b) s"
  shows "holds (about_to_open c ks cur b) (s\<lparr>agent := (agent s)\<lparr>env := h\<rparr>\<rparr>)"
    "holds (about_to_open c ks cur b) (s\<lparr>agent := (agent s)\<lparr>env := h, ready := r, atexits := n\<rparr>\<rparr>)"
  using assms by (simp_all add: holds_def about_to_open_def unchanged_def)

lemma vsql_m_open_env_unchanged:
  assumes "holds (about_to_open c ks cur b) s" "\<And>x s'. holds (about_to_open c ks cur b) s' \<Longrightarrow> Q x s'"
  shows "wlp (vsql_m_open_env L s) Q"
  unfolding vsql_m_open_env_def using assms(1)
  by - (clarsimp simp: assms(2) about_to_open_env
    | (rule conjI impI | erule stays | (rule stays, rule about_to_open_env, assumption))[1])+

lemma vsql_m_open_stays:
  assumes s: "holds (about_to_open c ks cur b) s" "c \<notin> c_address ` set ks" "cur \<noteq> Some c"
    and bad: "\<And>s'. holds (unchanged ks cur b) s' \<Longrightarrow> Q None s'"
    and good: "\<And>s'. holds (headed c ks cur b) s' \<Longrightarrow> Q (Some c) s'"
  shows "wlp (vsql_m_open L M server user s) Q"
proof -
  have close: "wlp (vsql_m_close L c t) (\<lambda>_. Q None)" if "holds (headed c ks cur b) t" for t
    using that s(3) bad by (rule vsql_m_close_headed)
  have pushed: "holds (headed c ks cur b) (t\<lparr>agent := (agent t)\<lparr>connections := new_connection c # ks,
      next_address := n\<rparr>\<rparr>)" if "holds (about_to_open c ks cur b) t" for t :: "'a state" and n
    using that by (simp add: holds_def headed_def about_to_open_def unchanged_def new_connection_def)
  have unlink: "Q None (t\<lparr>agent := (agent t)\<lparr>connections := tl (connections (agent t))\<rparr>\<rparr>)"
    if "holds (headed c ks cur b) t" for t
    using that by (intro bad) (auto simp: holds_def headed_def unchanged_def)
  have before: "next_address (agent t) = c" "connections (agent t) = ks" "holds (unchanged ks cur b) t"
    if "holds (about_to_open c ks cur b) t" for t :: "'a state"
    using that by (simp_all add: holds_def about_to_open_def unchanged_def)
  show ?thesis
    unfolding vsql_m_open_def using s(1,2)
    by - (clarsimp simp: before bad good unlink
      | (rule conjI impI allI | erule vsql_m_open_env_unchanged modify_headed close
        | (rule vsql_m_copy_silent, rule pushed, assumption) | erule stays)[1])+
qed

text \<open>The SQL-connection of a statement is the current one when it returns one.\<close>

lemma modify_current:
  assumes "current (agent s) = Some d"
    "\<And>s'. agent s' = update c f (agent s) \<Longrightarrow> current (agent s') = Some d \<Longrightarrow> Q (Some d) s'"
  shows "wlp (modify c f s) (\<lambda>_ s. Q (current (agent s)) s)"
  using assms by (auto simp: modify_def wlp_def deref_def bind_eq_Some_conv split: option.splits)

lemma vsql_m_connection_stays [stays]:
  assumes s: "holds P s" and P: "local_property P"
    and Q: "\<And>s'. holds P s' \<Longrightarrow> Q None s'" "\<And>c s'. holds (within P c) s' \<Longrightarrow> Q (Some c) s'"
  shows "wlp (vsql_m_connection L M s) Q"
proof (cases "current (agent s)")
  case (Some c)
  then have "holds (within P c) s" using s by (simp add: holds_def within_def)
  then show ?thesis
    unfolding vsql_m_connection_def using Some P Q
    by - (simp, erule vsql_m_schema_stays, auto simp: holds_def within_def)
next
  case None
  show ?thesis
  proof (cases "connected (agent s)")
    case True
    then show ?thesis
      unfolding vsql_m_connection_def using None s Q by (auto elim!: stays)
  next
    case False
    have default: "P a'" if "connections (agent s) = [] \<longrightarrow> opened (agent s) a'" for a'
      using P s None False that unfolding local_property_def holds_def by blast
    have bad: "Q None (t\<lparr>agent := (agent t)\<lparr>current := None\<rparr>\<rparr>)"
      if "connections (agent s) = [] \<longrightarrow> holds (unchanged [] None False) t" for t
      using that False by (intro Q) (auto simp: holds_def unchanged_def opened_def intro!: default)
    have good: "wlp (modify c (\<lambda>k. k\<lparr>c_is_default := True\<rparr>) (t\<lparr>agent := (agent t)\<lparr>current := Some c\<rparr>\<rparr>))
        (\<lambda>_ s. Q (current (agent s)) s)"
      if "connections (agent s) = [] \<longrightarrow> holds (headed c [] None False) t" for c t
    proof (rule modify_current)
      fix s' :: "'a state"
      assume s': "agent s' = update c (\<lambda>k. k\<lparr>c_is_default := True\<rparr>)
        (agent (t\<lparr>agent := (agent t)\<lparr>current := Some c\<rparr>\<rparr>))" "current (agent s') = Some c"
      then have "P (agent s')"
        using that by (intro default) (auto simp: holds_def headed_def opened_def update_def)
      with s'(2) show "Q (Some c) s'" by (intro Q) (simp add: holds_def within_def)
    qed simp
    have "wlp (vsql_m_open L M ''DEFAULT'' None s) R"
      if "\<And>t. connections (agent s) = [] \<longrightarrow> holds (unchanged [] None False) t \<Longrightarrow> R None t"
        "\<And>c t. connections (agent s) = [] \<longrightarrow> holds (headed c [] None False) t \<Longrightarrow> R (Some c) t" for R
    proof (cases "connections (agent s) = []")
      case True
      then show ?thesis
        using that False None
        by (intro vsql_m_open_stays [of "next_address (agent s)" "[]" None False])
          (simp_all add: holds_def about_to_open_def unchanged_def)
    next
      case False
      show ?thesis
      proof (rule wlp_any)
        show "R x t" for x t using that False by (cases x) auto
      qed
    qed
    then show ?thesis
      unfolding vsql_m_connection_def using None False by (auto simp: bad good)
  qed
qed

section \<open>Routines of an SQL-session\<close>

text \<open>Those that get the SQL-connection, or a pointer into it, change nothing else.\<close>

lemma vsql_m_exec_stays [stays]:
  "holds P s \<Longrightarrow> stable_at c P \<Longrightarrow> (\<And>x s'. holds P s' \<Longrightarrow> Q x s') \<Longrightarrow> wlp (vsql_m_exec L c stmt sql ps s) Q"
  unfolding vsql_m_exec_def
  by (auto simp: identity_def elim!: stays)

lemma vsql_m_cursors_stays [stays]:
  "holds P s \<Longrightarrow> stable_at c P \<Longrightarrow> (\<And>x s'. holds P s' \<Longrightarrow> Q x s') \<Longrightarrow> wlp (vsql_m_cursors M c s) Q"
  unfolding vsql_m_cursors_def
  by (auto simp: identity_def elim!: stays)

lemma cursors_get_silent [stays]:
  "holds P s \<Longrightarrow> (\<And>x s'. holds P s' \<Longrightarrow> Q x s') \<Longrightarrow> wlp (cursors_get M c i s) Q"
  unfolding cursors_get_def
  by (auto elim!: stays)

lemma cursors_set_stays [stays]:
  "holds P s \<Longrightarrow> stable_at c P \<Longrightarrow> (\<And>x s'. holds P s' \<Longrightarrow> Q x s') \<Longrightarrow> wlp (cursors_set M c i h s) Q"
  unfolding cursors_set_def
  by (auto simp: identity_def set_cursor_def elim!: stays)

lemma vsql_m_cursor_alloc_stays [stays]:
  "holds P s \<Longrightarrow> stable_at c P \<Longrightarrow> (\<And>x s'. holds P s' \<Longrightarrow> Q x s') \<Longrightarrow> wlp (vsql_m_cursor_alloc L M c i name hold s) Q"
  unfolding vsql_m_cursor_alloc_def
  by (auto simp: identity_def elim!: stays)

lemma deref_descriptor_silent [stays]:
  "holds P s \<Longrightarrow> (\<And>x s'. holds P s' \<Longrightarrow> Q x s') \<Longrightarrow> wlp (deref_descriptor p s) Q"
  unfolding deref_descriptor_def
  by (auto elim!: stays)

lemma deref_item_silent [stays]:
  "holds P s \<Longrightarrow> (\<And>x s'. holds P s' \<Longrightarrow> Q x s') \<Longrightarrow> wlp (deref_item p s) Q"
  unfolding deref_item_def
  by (auto elim!: stays)

lemma modify_descriptor_stays [stays]:
  "holds P s \<Longrightarrow> stable_at (fst p) P \<Longrightarrow> (\<And>x s'. holds P s' \<Longrightarrow> Q x s') \<Longrightarrow> wlp (modify_descriptor p f s) Q"
  unfolding modify_descriptor_def
  by (auto simp: identity_def set_descriptor_def elim!: stays)

lemma modify_item_stays [stays]:
  "holds P s \<Longrightarrow> stable_at (fst (fst p)) P \<Longrightarrow> (\<And>x s'. holds P s' \<Longrightarrow> Q x s') \<Longrightarrow> wlp (modify_item p f s) Q"
  unfolding modify_item_def
  by (auto simp: identity_def elim!: stays)

lemma vsql_m_items_silent [stays]:
  "holds P s \<Longrightarrow> (\<And>x s'. holds P s' \<Longrightarrow> Q x s') \<Longrightarrow> wlp (vsql_m_items p n code s) Q"
  unfolding vsql_m_items_def
  by (auto elim!: stays)

lemma vsql_m_set_type_stays [stays]:
  "holds P s \<Longrightarrow> stable_at (fst (fst p)) P \<Longrightarrow> (\<And>x s'. holds P s' \<Longrightarrow> Q x s') \<Longrightarrow> wlp (vsql_m_set_type p v s) Q"
  unfolding vsql_m_set_type_def
  by (auto simp: identity_def elim!: stays)

lemma vsql_m_set_component_stays [stays]:
  "holds P s \<Longrightarrow> stable_at (fst (fst p)) P \<Longrightarrow> (\<And>x s'. holds P s' \<Longrightarrow> Q x s') \<Longrightarrow> wlp (vsql_m_set_component p n v s) Q"
  unfolding vsql_m_set_component_def
  by (auto simp: identity_def elim!: stays)

lemma vsql_m_set_number_stays [stays]:
  "holds P s \<Longrightarrow> stable_at (fst (fst p)) P \<Longrightarrow> (\<And>x s'. holds P s' \<Longrightarrow> Q x s') \<Longrightarrow> wlp (vsql_m_set_number p n v s) Q"
  unfolding vsql_m_set_number_def
  by (auto simp: identity_def elim!: stays)

lemma vsql_m_set_string_stays [stays]:
  "holds P s \<Longrightarrow> stable_at (fst (fst p)) P \<Longrightarrow> (\<And>x s'. holds P s' \<Longrightarrow> Q x s') \<Longrightarrow> wlp (vsql_m_set_string p n v s) Q"
  unfolding vsql_m_set_string_def
  by (auto simp: identity_def elim!: stays)

lemma vsql_m_set_data_stays [stays]:
  "holds P s \<Longrightarrow> stable_at (fst (fst p)) P \<Longrightarrow> (\<And>x s'. holds P s' \<Longrightarrow> Q x s') \<Longrightarrow> wlp (vsql_m_set_data p t l v s) Q"
  unfolding vsql_m_set_data_def
  by (auto simp: identity_def elim!: stays)

lemma deref_prepared_silent [stays]:
  "holds P s \<Longrightarrow> (\<And>x s'. holds P s' \<Longrightarrow> Q x s') \<Longrightarrow> wlp (deref_prepared p s) Q"
  unfolding deref_prepared_def
  by (auto elim!: stays)

lemma open_cursor_from_silent [stays]:
  "holds P s \<Longrightarrow> (\<And>x s'. holds P s' \<Longrightarrow> Q x s') \<Longrightarrow> wlp (open_cursor_from L M c name n i s) Q"
proof (induction n arbitrary: i s)
  case (Suc n)
  note rest = Suc.IH [OF _ Suc.prems(2)]
  show ?case
    using Suc.prems(1)
    by - (clarsimp simp: Suc.prems(2) | (rule conjI impI allI | erule stays rest)[1])+
qed simp

lemma vsql_m_deallocate_stays [stays]:
  "holds P s \<Longrightarrow> stable_at (fst p) P \<Longrightarrow> (\<And>x s'. holds P s' \<Longrightarrow> Q x s') \<Longrightarrow> wlp (vsql_m_deallocate L M p s) Q"
  unfolding vsql_m_deallocate_def
  by (auto simp: identity_def elim!: stays)

lemma vsql_m_prepare_new_stays [stays]:
  "holds P s \<Longrightarrow> stable_at c P \<Longrightarrow> (\<And>x s'. holds P s' \<Longrightarrow> Q x s') \<Longrightarrow> wlp (vsql_m_prepare_new L M c name sql s) Q"
  unfolding vsql_m_prepare_new_def
  by (auto simp: identity_def elim!: stays)

lemma describe_numbers_stays [stays]:
  "holds P s \<Longrightarrow> stable_at (fst (fst p)) P \<Longrightarrow> (\<And>x s'. holds P s' \<Longrightarrow> Q x s') \<Longrightarrow> wlp (describe_numbers L stmt j p fs s) Q"
proof (induction fs arbitrary: s)
  case (Cons x fs)
  note rest = Cons.IH [OF _ Cons.prems(2,3)]
  show ?case
    using Cons.prems(1) by (cases x) (auto simp: Cons.prems(2) intro!: Cons.prems(3) elim!: stays rest)
qed simp

lemma describe_strings_stays [stays]:
  "holds P s \<Longrightarrow> stable_at (fst (fst p)) P \<Longrightarrow> (\<And>x s'. holds P s' \<Longrightarrow> Q x s') \<Longrightarrow> wlp (describe_strings L stmt j p fs s) Q"
proof (induction fs arbitrary: s)
  case (Cons x fs)
  note rest = Cons.IH [OF _ Cons.prems(2,3)]
  show ?case
    using Cons.prems(1) by (cases x) (auto simp: Cons.prems(2) intro!: Cons.prems(3) elim!: stays rest)
qed simp

lemma vsql_m_describe_column_stays [stays]:
  "holds P s \<Longrightarrow> stable_at (fst (fst p)) P \<Longrightarrow> (\<And>x s'. holds P s' \<Longrightarrow> Q x s') \<Longrightarrow> wlp (vsql_m_describe_column L stmt j p s) Q"
  unfolding vsql_m_describe_column_def
  by (auto simp: identity_def elim!: stays)

lemma describe_columns_stays [stays]:
  assumes "holds P s" "stable_at (fst p) P" "\<And>x s'. holds P s' \<Longrightarrow> Q x s'"
  shows "wlp (describe_columns L stmt n p i s) Q"
proof -
  have "stable_at (fst p) P \<longrightarrow> holds P s \<longrightarrow> holds P (snd y)" if "describe_columns L stmt n p i s = Some y" for y
    using that
  proof (rule describe_columns.raw_induct [rotated], goal_cases)
    case (1 f L stmt n p i s y)
    have "holds P (snd r)"
      if "vsql_m_describe_column L stmt i (p, nat (i - 1)) s = Some r" "stable_at (fst p) P" "holds P s" for r
      using vsql_m_describe_column_stays [of P s "(p, nat (i - 1))" "\<lambda>_. holds P" L stmt i] that
      by (cases r) (simp add: wlp_def)
    then show ?case
      using 1 by (auto split: if_splits bind_splits)
  qed
  then show ?thesis using assms by (auto simp: wlp_def)
qed

lemma vsql_m_bind_item_stays [stays]:
  "holds P s \<Longrightarrow> stable_at (fst (fst p)) P \<Longrightarrow> (\<And>x s'. holds P s' \<Longrightarrow> Q x s') \<Longrightarrow> wlp (vsql_m_bind_item L stmt i p s) Q"
  unfolding vsql_m_bind_item_def
  by (auto simp: identity_def elim!: stays)

lemma bind_items_stays [stays]:
  "holds P s \<Longrightarrow> stable_at (fst p) P \<Longrightarrow> (\<And>x s'. holds P s' \<Longrightarrow> Q x s') \<Longrightarrow> wlp (bind_items L stmt p n i rc s) Q"
proof (induction n arbitrary: i rc s)
  case (Suc n)
  note rest = Suc.IH [OF _ Suc.prems(2,3)]
  show ?case
    using Suc.prems(1) by (auto simp: Suc.prems(2) intro!: Suc.prems(3) elim!: stays rest)
qed simp

lemma pad_item_stays [stays]:
  "holds P s \<Longrightarrow> stable_at (fst (fst p)) P \<Longrightarrow> (\<And>x s'. holds P s' \<Longrightarrow> Q x s') \<Longrightarrow> wlp (pad_item p bytes s) Q"
  unfolding pad_item_def
  by (auto simp: identity_def elim!: stays)

lemma vsql_m_set_returned_stays [stays]:
  "holds P s \<Longrightarrow> stable_at (fst (fst p)) P \<Longrightarrow> (\<And>x s'. holds P s' \<Longrightarrow> Q x s') \<Longrightarrow> wlp (vsql_m_set_returned p bytes t n s) Q"
  unfolding vsql_m_set_returned_def
  by (auto simp: identity_def elim!: stays)

lemma vsql_m_get_value_stays [stays]:
  "holds P s \<Longrightarrow> stable_at (fst (fst p)) P \<Longrightarrow> (\<And>x s'. holds P s' \<Longrightarrow> Q x s') \<Longrightarrow> wlp (vsql_m_get_value L stmt i p c bytes t n s) Q"
  unfolding vsql_m_get_value_def
  by (auto simp: identity_def elim!: stays)

lemma vsql_m_get_column_stays [stays]:
  "holds P s \<Longrightarrow> stable_at (fst (fst p)) P \<Longrightarrow> (\<And>x s'. holds P s' \<Longrightarrow> Q x s') \<Longrightarrow> wlp (vsql_m_get_column L stmt i p s) Q"
  unfolding vsql_m_get_column_def
  by (auto simp: identity_def elim!: stays)

lemma get_columns_stays [stays]:
  "holds P s \<Longrightarrow> stable_at (fst p) P \<Longrightarrow> (\<And>x s'. holds P s' \<Longrightarrow> Q x s') \<Longrightarrow> wlp (get_columns L stmt p n i rc tr s) Q"
proof (induction n arbitrary: i rc tr s)
  case (Suc n)
  note rest = Suc.IH [OF _ Suc.prems(2,3)]
  show ?case
    using Suc.prems(1) by (auto simp: Suc.prems(2) intro!: Suc.prems(3) elim!: stays rest)
qed simp

lemma vsql_m_free_descriptor_silent [stays]:
  "holds P s \<Longrightarrow> (\<And>x s'. holds P s' \<Longrightarrow> Q x s') \<Longrightarrow> wlp (vsql_m_free_descriptor d s) Q"
  unfolding vsql_m_free_descriptor_def
  by (auto elim!: stays)

lemma allocate_both_silent [stays]:
  "holds P s \<Longrightarrow> (\<And>x s'. holds P s' \<Longrightarrow> Q x s') \<Longrightarrow> wlp (allocate_both s) Q"
  unfolding allocate_both_def
  by (auto elim!: stays)

text \<open>What is true of the current SQL-connection, when a routine gets it from the SQL-agent.\<close>

lemma within_unique: "holds (within P c) s \<Longrightarrow> current (agent s) = Some d \<longleftrightarrow> d = c"
  by (auto simp: holds_def within_def)

lemma in_current: "holds P s \<Longrightarrow> current (agent s) = Some c \<Longrightarrow> holds (within P c) s"
  by (simp add: holds_def within_def)

section \<open>The statements of an SQL-session\<close>

text \<open>Each of them is in the SQL-session of the SQL-connection that it gets.\<close>

lemma vsql_m_start_stays [stays]:
  assumes "holds P s" "local_property P" "\<And>x s'. holds P s' \<Longrightarrow> Q x s'"
  shows "wlp (vsql_m_start L M s) Q"
  unfolding vsql_m_start_def using assms(1,2)
  by (auto simp: identity_def intro!: assms(3) elim!: stays simp: within_holds [where P = P])

lemma vsql_m_end_stays [stays]:
  assumes "holds P s" "local_property P" "\<And>x s'. holds P s' \<Longrightarrow> Q x s'"
  shows "wlp (vsql_m_end L M completion s) Q"
  unfolding vsql_m_end_def using assms(1,2)
  by (auto simp: identity_def intro!: assms(3) elim!: stays simp: within_holds [where P = P])

lemma vsql_m_run_stays [stays]:
  assumes "holds P s" "local_property P" "\<And>x s'. holds P s' \<Longrightarrow> Q x s'"
  shows "wlp (vsql_m_run L M sql ps s) Q"
  unfolding vsql_m_run_def using assms(1,2)
  by (auto simp: identity_def intro!: assms(3) elim!: stays simp: within_holds [where P = P])

lemma vsql_m_execute_stays [stays]:
  assumes "holds P s" "local_property P" "\<And>x s'. holds P s' \<Longrightarrow> Q x s'"
  shows "wlp (vsql_m_execute L M sql ps s) Q"
  unfolding vsql_m_execute_def using assms(1,2)
  by (auto simp: identity_def intro!: assms(3) elim!: stays simp: within_holds [where P = P])

lemma vsql_m_select_stays [stays]:
  assumes "holds P s" "local_property P" "\<And>x s'. holds P s' \<Longrightarrow> Q x s'"
  shows "wlp (vsql_m_select L M sql ps ts s) Q"
  unfolding vsql_m_select_def using assms(1,2)
  by (auto simp: identity_def intro!: assms(3) elim!: stays simp: within_holds [where P = P])

lemma vsql_m_cursor_stays [stays]:
  assumes "holds P s" "local_property P" "\<And>s'. holds P s' \<Longrightarrow> Q 0 s'"
    "\<And>c h s'. holds (within P c) s' \<Longrightarrow> Q h s'"
  shows "wlp (vsql_m_cursor L M i name hold s) Q"
  unfolding vsql_m_cursor_def using assms(1,2)
  by (auto intro!: assms(3) intro: assms(4) elim!: stays simp: within_holds [where P = P])

lemma vsql_m_open_cursor_stays [stays]:
  assumes "holds P s" "local_property P" "\<And>x s'. holds P s' \<Longrightarrow> Q x s'"
  shows "wlp (vsql_m_open_cursor L M i name hold sql ps s) Q"
  unfolding vsql_m_open_cursor_def using assms(1,2)
  by - (clarsimp simp: assms(3) within_unique within_holds [where P = P]
    | (rule conjI impI allI | erule stays)[1])+

lemma vsql_m_fetch_stays [stays]:
  assumes "holds P s" "local_property P" "\<And>x s'. holds P s' \<Longrightarrow> Q x s'"
  shows "wlp (vsql_m_fetch L M i ts s) Q"
  unfolding vsql_m_fetch_def using assms(1,2)
  by (auto simp: identity_def intro!: assms(3) elim!: stays simp: within_holds [where P = P])

lemma vsql_m_close_cursor_stays [stays]:
  assumes "holds P s" "local_property P" "\<And>x s'. holds P s' \<Longrightarrow> Q x s'"
  shows "wlp (vsql_m_close_cursor L M i s) Q"
  unfolding vsql_m_close_cursor_def using assms(1,2)
  by (auto simp: identity_def intro!: assms(3) elim!: stays simp: within_holds [where P = P])

lemma vsql_m_descriptor_stays [stays]:
  assumes "holds P s" "local_property P" "\<And>s'. holds P s' \<Longrightarrow> Q None s'"
    "\<And>p s'. holds (within P (fst p)) s' \<Longrightarrow> Q (Some p) s'"
  shows "wlp (vsql_m_descriptor L M name m s) Q"
  unfolding vsql_m_descriptor_def using assms(1,2)
  by (auto simp: identity_def intro!: assms(3,4) elim!: stays simp: within_holds [where P = P])

lemma vsql_m_allocate_descriptor_stays [stays]:
  assumes "holds P s" "local_property P" "\<And>x s'. holds P s' \<Longrightarrow> Q x s'"
  shows "wlp (vsql_m_allocate_descriptor L M name m n s) Q"
  unfolding vsql_m_allocate_descriptor_def using assms(1,2)
  by (auto simp: identity_def intro!: assms(3) elim!: stays simp: within_holds [where P = P])

lemma vsql_m_deallocate_descriptor_stays [stays]:
  assumes "holds P s" "local_property P" "\<And>x s'. holds P s' \<Longrightarrow> Q x s'"
  shows "wlp (vsql_m_deallocate_descriptor L M name m s) Q"
  unfolding vsql_m_deallocate_descriptor_def using assms(1,2)
  by (auto simp: identity_def intro!: assms(3) elim!: stays simp: within_holds [where P = P])

lemma vsql_m_set_count_stays [stays]:
  assumes "holds P s" "local_property P" "\<And>x s'. holds P s' \<Longrightarrow> Q x s'"
  shows "wlp (vsql_m_set_count L M name m v s) Q"
  unfolding vsql_m_set_count_def using assms(1,2)
  by (auto simp: identity_def intro!: assms(3) elim!: stays simp: within_holds [where P = P])

lemma vsql_m_get_item_stays [stays]:
  assumes "holds P s" "local_property P" "\<And>s'. holds P s' \<Longrightarrow> Q None s'"
    "\<And>p s'. holds (within P (fst (fst p))) s' \<Longrightarrow> Q (Some p) s'"
  shows "wlp (vsql_m_get_item L M name m n t l ind s) Q"
  unfolding vsql_m_get_item_def using assms(1,2)
  by (auto simp: identity_def intro!: assms(3,4) elim!: stays simp: within_holds [where P = P])

lemma vsql_m_set_item_stays [stays]:
  assumes "holds P s" "local_property P" "\<And>s'. holds P s' \<Longrightarrow> Q None s'"
    "\<And>p s'. holds (within P (fst (fst p))) s' \<Longrightarrow> Q (Some p) s'"
  shows "wlp (vsql_m_set_item L M name m n s) Q"
  unfolding vsql_m_set_item_def using assms(1,2)
  by (auto simp: identity_def intro!: assms(3,4) elim!: stays simp: within_holds [where P = P])

lemma vsql_m_prepared_statement_stays [stays]:
  assumes "holds P s" "local_property P" "\<And>s'. holds P s' \<Longrightarrow> Q None s'"
    "\<And>p s'. holds (within P (fst p)) s' \<Longrightarrow> Q (Some p) s'"
  shows "wlp (vsql_m_prepared_statement L M name s) Q"
  unfolding vsql_m_prepared_statement_def using assms(1,2)
  by (auto simp: identity_def intro!: assms(3,4) elim!: stays simp: within_holds [where P = P])

lemma vsql_m_prepare_stays [stays]:
  assumes "holds P s" "local_property P" "\<And>x s'. holds P s' \<Longrightarrow> Q x s'"
  shows "wlp (vsql_m_prepare L M name sql s) Q"
  unfolding vsql_m_prepare_def using assms(1,2)
  by (auto simp: identity_def intro!: assms(3) elim!: stays simp: within_holds [where P = P])

lemma vsql_m_deallocate_prepare_stays [stays]:
  assumes "holds P s" "local_property P" "\<And>x s'. holds P s' \<Longrightarrow> Q x s'"
  shows "wlp (vsql_m_deallocate_prepare L M name s) Q"
  unfolding vsql_m_deallocate_prepare_def using assms(1,2)
  by (auto simp: identity_def intro!: assms(3) elim!: stays simp: within_holds [where P = P])

lemma vsql_m_describe_stays [stays]:
  assumes "holds P s" "local_property P" "\<And>x s'. holds P s' \<Longrightarrow> Q x s'"
  shows "wlp (vsql_m_describe L M stmt name m s) Q"
  unfolding vsql_m_describe_def using assms(1,2)
  by (auto simp: identity_def intro!: assms(3) elim!: stays simp: within_holds [where P = P])

lemma vsql_m_bind_using_stays [stays]:
  assumes "holds P s" "local_property P" "\<And>x s'. holds P s' \<Longrightarrow> Q x s'"
  shows "wlp (vsql_m_bind_using L M stmt n u s) Q"
  unfolding vsql_m_bind_using_def using assms(1,2)
  by (auto simp: identity_def intro!: assms(3) elim!: stays simp: within_holds [where P = P])

lemma vsql_m_bind_stays [stays]:
  assumes "holds P s" "local_property P" "\<And>x s'. holds P s' \<Longrightarrow> Q x s'"
  shows "wlp (vsql_m_bind L M stmt sql u s) Q"
  unfolding vsql_m_bind_def using assms(1,2)
  by (auto simp: identity_def intro!: assms(3) elim!: stays simp: within_holds [where P = P])

lemma vsql_m_into_using_stays [stays]:
  assumes "holds P s" "local_property P" "\<And>x s'. holds P s' \<Longrightarrow> Q x s'"
  shows "wlp (vsql_m_into_using L M stmt rc j out s) Q"
  unfolding vsql_m_into_using_def using assms(1,2)
  by (auto simp: identity_def intro!: assms(3) elim!: stays simp: within_holds [where P = P])

lemma vsql_m_into_stays [stays]:
  assumes "holds P s" "local_property P" "\<And>x s'. holds P s' \<Longrightarrow> Q x s'"
  shows "wlp (vsql_m_into L M stmt rc out s) Q"
  unfolding vsql_m_into_def using assms(1,2)
  by (auto simp: identity_def intro!: assms(3) elim!: stays simp: within_holds [where P = P])

lemma vsql_m_suits_stays [stays]:
  assumes "holds P s" "local_property P" "\<And>x s'. holds P s' \<Longrightarrow> Q x s'"
  shows "wlp (vsql_m_suits L M j single out s) Q"
  unfolding vsql_m_suits_def using assms(1,2)
  by (auto simp: identity_def intro!: assms(3) elim!: stays simp: within_holds [where P = P])

lemma activate_stays [stays]:
  assumes "holds P s" "local_property P" "\<And>x s'. holds P s' \<Longrightarrow> Q x s'"
  shows "wlp (activate s) Q"
  unfolding activate_def using assms(1,2)
  by (auto simp: identity_def intro!: modify_stays [OF in_current] assms(3) simp: within_holds [where P = P])

lemma vsql_m_dynamic_function_silent [stays]:
  "holds P s \<Longrightarrow> (\<And>x s'. holds P s' \<Longrightarrow> Q x s') \<Longrightarrow> wlp (vsql_m_dynamic_function L stmt s) Q"
  unfolding vsql_m_dynamic_function_def
  by (auto elim!: stays)

lemma vsql_m_execute_row_stays [stays]:
  assumes "holds P s" "local_property P" "\<And>x s'. holds P s' \<Longrightarrow> Q x s'"
  shows "wlp (vsql_m_execute_row L M stmt out s) Q"
  unfolding vsql_m_execute_row_def using assms(1,2)
  by (auto simp: identity_def intro!: assms(3) elim!: stays simp: within_holds [where P = P])

lemma vsql_m_execute_bound_stays [stays]:
  assumes "holds P s" "local_property P" "\<And>x s'. holds P s' \<Longrightarrow> Q x s'"
  shows "wlp (vsql_m_execute_bound L M q j out s) Q"
  unfolding vsql_m_execute_bound_def using assms(1,2)
  by (auto simp: identity_def intro!: assms(3) elim!: stays simp: within_holds [where P = P])

lemma vsql_m_execute_prepared_stays [stays]:
  assumes "holds P s" "local_property P" "\<And>x s'. holds P s' \<Longrightarrow> Q x s'"
  shows "wlp (vsql_m_execute_prepared L M name i out s) Q"
  unfolding vsql_m_execute_prepared_def using assms(1,2)
  by (auto simp: identity_def intro!: assms(3) elim!: stays simp: within_holds [where P = P])

lemma vsql_m_execute_immediate_stays [stays]:
  assumes "holds P s" "local_property P" "\<And>x s'. holds P s' \<Longrightarrow> Q x s'"
  shows "wlp (vsql_m_execute_immediate L M sql s) Q"
  unfolding vsql_m_execute_immediate_def using assms(1,2)
  by (auto simp: identity_def intro!: assms(3) elim!: stays simp: within_holds [where P = P])

lemma vsql_m_reset_cursor_stays [stays]:
  assumes "holds P s" "local_property P" "\<And>x s'. holds P s' \<Longrightarrow> Q x s'"
  shows "wlp (vsql_m_reset_cursor L M i stmt s) Q"
  unfolding vsql_m_reset_cursor_def using assms(1,2)
  by - (simp, erule call_silent, auto intro!: vsql_m_cursors_stays [OF in_current]
    assms(3) elim!: cursors_set_stays simp: within_holds [where P = P])

lemma vsql_m_open_dynamic_stays [stays]:
  assumes "holds P s" "local_property P" "\<And>x s'. holds P s' \<Longrightarrow> Q x s'"
  shows "wlp (vsql_m_open_dynamic L M i name hold stmt u s) Q"
  unfolding vsql_m_open_dynamic_def using assms(1,2)
  by (auto simp: identity_def intro!: assms(3) elim!: stays simp: within_holds [where P = P])

lemma vsql_m_fetch_dynamic_stays [stays]:
  assumes "holds P s" "local_property P" "\<And>x s'. holds P s' \<Longrightarrow> Q x s'"
  shows "wlp (vsql_m_fetch_dynamic L M i out s) Q"
  unfolding vsql_m_fetch_dynamic_def using assms(1,2)
  by (auto simp: identity_def intro!: assms(3) elim!: stays simp: within_holds [where P = P])

section \<open>Statements\<close>

lemma set_values_stays [stays]:
  "holds P s \<Longrightarrow> stable_at (fst (fst p)) P \<Longrightarrow> (\<And>x s'. holds P s' \<Longrightarrow> Q x s') \<Longrightarrow>
   wlp (set_values p vs s) Q"
proof (induction vs arbitrary: s)
  case (Cons v vs)
  note rest = Cons.IH [OF _ Cons.prems(2,3)]
  show ?case
    using Cons.prems(1)
    by (cases v) (auto simp: Cons.prems(2) intro!: Cons.prems(3) elim!: stays rest)
qed simp

lemma set_items_stays [stays]:
  assumes "holds P s" "local_property P" "\<And>x s'. holds P s' \<Longrightarrow> Q x s'"
  shows "wlp (set_items L M name m n vs s) Q"
  unfolding set_items_def using assms(1,2)
  by (auto intro!: assms(3) elim!: stays simp: within_holds [where P = P])

lemma wlp_ignore [simp]: "wlp (ignore m) Q = wlp m (\<lambda>_. Q ())"
  by (cases m) (auto simp: ignore_def)

lemma vsql_m_begin_silent [stays]:
  "holds P s \<Longrightarrow> (\<And>x s'. holds P s' \<Longrightarrow> Q x s') \<Longrightarrow> wlp (vsql_m_begin command code s) Q"
  unfolding vsql_m_begin_def by (auto elim!: stays)

text \<open>The statements that work in the current SQL-session.\<close>

definition in_current_session :: "statement \<Rightarrow> bool" where
  "in_current_session st = (case st of
     Connect_To _ _ _ \<Rightarrow> False
   | Set_Connection _ \<Rightarrow> False
   | Disconnect_From _ _ \<Rightarrow> False
   | _ \<Rightarrow> True)"

lemma perform_stays [stays]:
  assumes "holds P s" "local_property P" "in_current_session st"
  shows "wlp (perform L M st s) (\<lambda>_. holds P)"
  using assms by (cases st) (auto simp: in_current_session_def if_found_def elim!: stays
      simp: within_holds [where P = P])

lemma procedure_stays:
  assumes "holds P s" "local_property P" "in_current_session st"
  shows "wlp (procedure L M command code st s) (\<lambda>_. holds P)"
  unfolding procedure_def using assms by (auto elim!: stays)

end
