(* ===== verification/Switching.thy ===== *)
theory Switching
  imports Isolation
begin

text \<open>
  The SQL-connections of a program as a machine of their own, of which the procedures are the steps:
  which names the SQL-connections have, which of them is current, and which have an active
  SQL-transaction. A statement of an SQL-session makes or ends an SQL-transaction of the current one
  only, so no other SQL-connection ever has one.
\<close>

section \<open>The machine\<close>

type_synonym connection_state = "string option set \<times> string option option \<times> string option set"

text \<open>
  The names, the current one, and the ones with an active SQL-transaction; the default
  SQL-connection has no name.
\<close>

inductive connection_step :: "connection_state \<Rightarrow> connection_state \<Rightarrow> bool" where
  fails: "connection_step x x"
| works: "n \<in> N \<Longrightarrow> A' - {n} = A - {n} \<Longrightarrow> connection_step (N, Some n, A) (N, Some n, A')"
| default: "A \<subseteq> {None} \<Longrightarrow> connection_step ({}, None, {}) ({None}, Some None, A)"
| connects: "n \<notin> N \<Longrightarrow> n \<noteq> Some '''' \<Longrightarrow> set_option cur \<inter> A = {} \<Longrightarrow>
    connection_step (N, cur, A) (insert n N, Some n, A)"
| switches: "n \<in> N \<Longrightarrow> set_option cur \<inter> A = {} \<Longrightarrow> connection_step (N, cur, A) (N, Some n, A)"
| disconnects: "D \<inter> A = {} \<Longrightarrow>
    connection_step (N, cur, A) (N - D, if set_option cur \<subseteq> D then None else cur, A)"

inductive_cases connection_stepE: "connection_step x y"

text \<open>What is always true of the machine.\<close>

definition single_transaction :: "connection_state \<Rightarrow> bool" where
  "single_transaction x = (case x of (N, cur, A) \<Rightarrow> set_option cur \<subseteq> N \<and> A \<subseteq> set_option cur)"

lemma step_single_transaction:
  "connection_step x y \<Longrightarrow> single_transaction x \<Longrightarrow> single_transaction y"
  by (induction rule: connection_step.induct) (auto simp: single_transaction_def)

section \<open>The SQL-connections that the machine shows\<close>

definition view :: "vsql_m_agent \<Rightarrow> connection_state" where
  "view a = (names a, current_name a, active_names a)"

lemma view_cong:
  "connections a' = connections a \<Longrightarrow> current a' = current a \<Longrightarrow> view a' = view a"
  by (simp add: view_def names_def current_name_def active_names_def lookup_def)

text \<open>
  What a statement of an SQL-session does: with a current SQL-connection it changes only that one,
  and without one, it establishes the default SQL-connection, or nothing changes.
\<close>

definition others :: "nat option \<Rightarrow> vsql_m_agent \<Rightarrow> vsql_m_connection list" where
  "others c a = filter (\<lambda>k. Some (c_address k) \<noteq> c) (connections a)"

definition session_step :: "vsql_m_agent \<Rightarrow> vsql_m_agent \<Rightarrow> bool" where
  "session_step a a' =
     (if current a \<noteq> None then current a' = current a \<and> others (current a) a' = others (current a) a \<and>
        map identity (connections a') = map identity (connections a)
      else if connected a then a' = a
      else connections a = [] \<longrightarrow> connections a' = [] \<and> current a' = None \<and> \<not> connected a' \<or>
        (\<exists>k. connections a' = [k] \<and> c_is_default k \<and> current a' = Some (c_address k)))"

lemma session_step_refl: "session_step a a"
  by (simp add: session_step_def)

lemma session_step_update:
  assumes "session_step a b" "current b = Some c" "\<And>k. identity (f k) = identity k"
  shows "session_step a (update c f b)"
proof -
  have address: "c_address (f k) = c_address k" "c_is_default (f k) = c_is_default k" for k
    using assms(3) [of k] by (simp_all add: identity_def)
  have "others (Some c) (update c f b) = others (Some c) b"
    by (auto simp: others_def update_def filter_map o_def address intro!: map_idI)
  moreover have "map identity (connections (update c f b)) = map identity (connections b)"
    by (simp add: update_def assms(3))
  ultimately show ?thesis
  proof (cases "current a")
    case None
    then show ?thesis
      using assms(1,2) by (auto simp: session_step_def update_def address split: if_splits)
  next
    case (Some d)
    then show ?thesis
      using assms(1,2) \<open>others (Some c) _ = _\<close> \<open>map identity _ = _\<close>
      by (simp add: session_step_def update_simps)
  qed
qed

lemma session_step_local: "local_property (session_step a)"
proof -
  have "session_step a b'"
    if "session_step a b" "current b = None" "\<not> connected b" "connections b = [] \<longrightarrow> opened b b'" for b b'
    using that by (auto simp: session_step_def opened_def split: if_splits)
  then show ?thesis
    unfolding local_property_def by (blast intro: session_step_update)
qed

lemma identity_conn_name: "identity k = identity k' \<Longrightarrow> c_address k = c_address k' \<and> conn_name k = conn_name k'"
  by (simp add: identity_def conn_name_def)

lemma session_step_current:
  assumes a: "wf_agent cc a" "settled a" and a': "wf_agent cc' a'" and c: "current a = Some c"
    and step: "session_step a a'"
  shows "names a' = names a" "current_name a' = current_name a"
    "active_names a' - {conn_name (lookup c a)} = active_names a - {conn_name (lookup c a)}"
proof -
  have step: "current a' = Some c" "others (Some c) a' = others (Some c) a"
    "map identity (connections a') = map identity (connections a)"
    using step c by (simp_all add: session_step_def)
  have same: "identity ` set (connections a') = identity ` set (connections a)"
    using step(3) by (metis list.set_map)
  have twin: "\<exists>k\<in>set (connections b'). c_address k = c_address k' \<and> conn_name k = conn_name k'"
    if "identity ` set (connections b) = identity ` set (connections b')" "k' \<in> set (connections b)" for b b' k'
  proof -
    have "identity k' \<in> identity ` set (connections b')" using that by blast
    then obtain k where "k \<in> set (connections b')" "identity k = identity k'" by auto
    then show ?thesis using identity_conn_name [of k k'] by auto
  qed
  let ?name = "\<lambda>(c :: nat, n, v :: string option, d, h :: int). if d then None else Some n"
  have "conn_name k = ?name (identity k)" for k
    by (simp add: identity_def conn_name_def)
  then show "names a' = names a"
    using arg_cong [OF same, of "image ?name"] by (simp add: names_def image_image)
  have live: "live c a" "live c a'"
    using wf_agent_current [OF a(1) c] wf_agent_current [OF a' step(1)] by simp_all
  obtain k where k: "k \<in> set (connections a)" "c_address k = c" "conn_name k = conn_name (lookup c a')"
    using twin [OF same lookup_mem(1) [OF live(2)]] lookup_mem(2) [OF live(2)] by auto
  then have name: "conn_name (lookup c a') = conn_name (lookup c a)"
    using lookup_unique [OF a(1), of k] by simp
  then show "current_name a' = current_name a"
    using step(1) c by (simp add: current_name_def)
  have rest: "conn_name ` {k \<in> set (connections b). c_active k} - {conn_name (lookup c b)} =
      conn_name ` {k \<in> set (others (Some c) b). c_active k} - {conn_name (lookup c b)}"
    if "wf_agent cb b" for b cb
    using lookup_unique [OF that] by (auto simp: others_def)
  show "active_names a' - {conn_name (lookup c a)} = active_names a - {conn_name (lookup c a)}"
    using rest [OF a(1)] rest [OF a'] step(2) name by (simp add: active_names_def)
qed

lemma session_step_view:
  assumes a: "wf_agent cc a" "settled a" and a': "wf_agent cc' a'" and step: "session_step a a'"
  shows "connection_step (view a) (view a')"
proof (cases "current a")
  case (Some c)
  have "conn_name (lookup c a) \<in> names a"
    using lookup_mem(1) [OF wf_agent_current [OF a(1) Some]] by (simp add: names_def)
  then show ?thesis
    using session_step_current [OF a a' Some step] Some
    by (auto simp: view_def current_name_def intro: connection_step.works)
next
  case None
  show ?thesis
  proof (cases "connected a")
    case True
    then show ?thesis using step None by (simp add: session_step_def connection_step.fails)
  next
    case False
    then have "connections a = []" using a(2) None by (auto simp: settled_def)
    then have "view a = ({}, None, {})" and
      "connections a' = [] \<and> current a' = None \<or>
        (\<exists>k. connections a' = [k] \<and> c_is_default k \<and> current a' = Some (c_address k))"
      using step None False
      by (auto simp: session_step_def view_def names_def current_name_def active_names_def)
    then show ?thesis
      by (auto simp: view_def names_def current_name_def active_names_def lookup_def conn_name_def
          intro: connection_step.fails connection_step.default)
  qed
qed

section \<open>The statements that change which SQL-connection is current\<close>

text \<open>DISCONNECT takes SQL-connections away, and leaves the others as they are.\<close>

lemma vsql_m_close_subset:
  assumes "holds (\<lambda>a. set (connections a) \<subseteq> K) s"
    "\<And>x s'. holds (\<lambda>a. set (connections a) \<subseteq> K) s' \<Longrightarrow> Q x s'"
  shows "wlp (vsql_m_close L c s) Q"
proof (rule vsql_m_close_unlinks [OF _ assms(2)])
  show "set (connections (unlinked c (agent s))) \<subseteq> K"
    using assms(1) set_unlink_subset [of _ "connections (agent s)"]
    by (simp add: holds_def unlinked_def) blast
qed

lemma vsql_m_close_all_subset:
  assumes "holds (\<lambda>a. set (connections a) \<subseteq> K) s"
    "\<And>x s'. holds (\<lambda>a. set (connections a) \<subseteq> K) s' \<Longrightarrow> Q x s'"
  shows "wlp (vsql_m_close_all L s) Q"
proof -
  have "holds (\<lambda>a. set (connections a) \<subseteq> K) s \<longrightarrow> holds (\<lambda>a. set (connections a) \<subseteq> K) (snd y)"
    if "vsql_m_close_all L s = Some y" for y
    using that
  proof (rule vsql_m_close_all.raw_induct [rotated], goal_cases)
    case (1 f L s y)
    have "holds (\<lambda>a. set (connections a) \<subseteq> K) (snd r)"
      if "vsql_m_close L c s = Some r" "holds (\<lambda>a. set (connections a) \<subseteq> K) s" for r c
      using vsql_m_close_subset [OF that(2), of "\<lambda>_. holds (\<lambda>a. set (connections a) \<subseteq> K)" L c] that(1)
      by (cases r) (simp add: wlp_def)
    then show ?case
      using 1 by (auto split: list.splits bind_splits)
  qed
  then show ?thesis using assms by (auto simp: wlp_def)
qed

lemma vsql_m_disconnect_subset:
  "wlp (vsql_m_disconnect L which name s)
    (\<lambda>_. holds (\<lambda>a. set (connections a) \<subseteq> set (connections (agent s))))"
proof -
  let ?P = "\<lambda>a. set (connections a) \<subseteq> set (connections (agent s))"
  have "holds ?P (s\<lparr>agent := (agent s)\<lparr>connected := True\<rparr>\<rparr>)"
    by (simp add: holds_def)
  then show ?thesis
    unfolding vsql_m_disconnect_def
    by (auto elim!: stays vsql_m_close_subset vsql_m_close_all_subset)
qed

lemma view_connected: "view (a\<lparr>connected := b\<rparr>) = view a"
  by (rule view_cong) simp_all

lemma active_view:
  assumes "wf_agent cc a" "settled a"
  shows "active a \<longleftrightarrow> set_option (current_name a) \<inter> active_names a \<noteq> {}"
proof (cases "current a")
  case (Some c)
  then show ?thesis
    using inj_conn_name [OF assms(2)] lookup_mem [OF wf_agent_current [OF assms(1) Some]]
    by (auto simp: active_def current_name_def active_names_def dest: inj_onD)
qed (simp add: active_def current_name_def)

lemma connect_view:
  assumes a: "wf_agent cc a" "settled a" and check: "connect_check a server name user = ''00000''"
    and a': "connections a' = k # connections a" "\<not> c_active k" "conn_name k = connect_name server name"
      "current a' = Some (c_address k)"
  shows "connection_step (view a) (view a')"
proof -
  let ?n = "connect_name server name"
  have check: "?n \<notin> names a" "?n \<noteq> Some ''''" "set_option (current_name a) \<inter> active_names a = {}"
    using check active_view [OF a] by (auto simp: connect_check_def split: if_splits)
  have "{k' \<in> set (connections a'). c_active k'} = {k' \<in> set (connections a). c_active k'}"
    using a'(1,2) by auto
  then have "view a' = (insert ?n (names a), Some ?n, active_names a)"
    using a' by (simp add: view_def names_def current_name_def active_names_def lookup_def)
  then show ?thesis
    using check by (simp add: view_def connection_step.connects)
qed

lemma set_connection_view:
  assumes a: "wf_agent cc a" "settled a" and same: "connections a' = connections a"
    and name: "current_name a' = (if set_connection_check a name = ''00000''
      then Some (map_option vsql_m_name name) else current_name a)"
  shows "connection_step (view a) (view a')"
proof -
  have "names a' = names a" "active_names a' = active_names a"
    using same by (simp_all add: names_def active_names_def)
  then show ?thesis
    using name active_view [OF a] unfolding view_def set_connection_check_def
    by (auto split: if_splits intro: connection_step.fails connection_step.switches)
qed

lemma disconnect_view:
  assumes a: "wf_agent cc a" "settled a" and check: "disconnect_check a which name = ''00000''"
    and gone: "removed a (the (selected a which name)) a'" "set (connections a') \<subseteq> set (connections a)"
  shows "connection_step (view a) (view a')"
proof -
  obtain N where N: "selected a which name = Some N" "N \<inter> active_names a = {}"
    using check unfolding disconnect_check_def by (auto split: option.splits if_splits)
  have names: "names a' = names a - N" using gone(1) N(1) by (simp add: removed_def)
  have "k \<in> set (connections a')" if k: "k \<in> set (connections a)" "conn_name k \<notin> N" for k
  proof -
    have "conn_name k \<in> names a'" using k names by (simp add: names_def)
    then obtain k' where k': "k' \<in> set (connections a')" "conn_name k' = conn_name k"
      by (auto simp: names_def)
    then have "k' = k" using gone(2) k(1) inj_onD [OF inj_conn_name [OF a(2)], of k' k] by blast
    then show ?thesis using k'(1) by simp
  qed
  then have "active_names a' = active_names a"
    using N(2) gone(2) unfolding active_names_def by blast
  then show ?thesis
    using gone(1) N names connection_step.disconnects [of N "active_names a" "names a" "current_name a"]
    by (simp add: view_def removed_def)
qed

section \<open>Every procedure is a step\<close>

context runtime
begin

lemma perform_connection_step:
  assumes s: "invar J cursor_count X s" "settled (agent s)" "linked cursor_count M" "generated M st"
  shows "ok (perform L M st s) (\<lambda>_ s'. connection_step (view (agent s)) (view (agent s')))"
proof (cases "in_current_session st")
  case True
  have "ok (perform L M st s) (\<lambda>_ s'. invar J cursor_count X s')"
    by (rule perform_ok [OF s])
  moreover have "wlp (perform L M st s) (\<lambda>_. holds (session_step (agent s)))"
    using session_step_refl session_step_local True by (intro perform_stays) (simp_all add: holds_def)
  ultimately have "ok (perform L M st s)
      (\<lambda>_ s'. invar J cursor_count X s' \<and> holds (session_step (agent s)) s')"
    by (rule ok_wlp)
  then show ?thesis
    by (rule ok_conseq)
      (auto simp: holds_def intro: session_step_view [OF invar_wf_agent [OF s(1)] s(2) invar_wf_agent])
next
  case False
  note a = invar_wf_agent [OF s(1)] s(2)
  show ?thesis
  proof (cases st)
    case (Connect_To server name user)
    have "ok (vsql_m_connect L M server name user s) (\<lambda>_ s'. connection_step (view (agent s)) (view (agent s')))"
    proof (rule vsql_m_connect_ok [OF s(1,2)], elim disjE conjE exE)
      fix s' :: "'w state"
      assume "connections (agent s') = connections (agent s)" "current (agent s') = current (agent s)"
      then show "connection_step (view (agent s)) (view (agent s'))"
        by (simp add: view_cong [of "agent s'" "agent s"] connection_step.fails)
    qed (rule connect_view [OF a])
    then show ?thesis by (simp add: Connect_To)
  next
    case (Set_Connection name)
    then show ?thesis
      by (auto intro!: vsql_m_set_connection_ok [OF s(1,2)] set_connection_view [OF a])
  next
    case (Disconnect_From which name)
    have "ok (vsql_m_disconnect L which name s) (\<lambda>_ s'.
      (disconnect_check (agent s) which name \<noteq> ''00000'' \<longrightarrow> agent s' = (agent s)\<lparr>connected := True\<rparr>) \<and>
      (disconnect_check (agent s) which name = ''00000'' \<longrightarrow>
        removed (agent s) (the (selected (agent s) which name)) (agent s')))"
      by (intro vsql_m_disconnect_ok [OF s(1,2)]) simp
    from ok_wlp [OF this vsql_m_disconnect_subset] show ?thesis
      unfolding Disconnect_From perform.simps
      by (rule ok_conseq)
        (auto simp: holds_def view_connected connection_step.fails intro: disconnect_view [OF a])
  qed (use False in \<open>simp_all add: in_current_session_def\<close>)
qed

lemma procedure_connection_step:
  assumes "invar J cursor_count X s" "settled (agent s)" "linked cursor_count M" "generated M st"
    "length command < 32"
  shows "ok (procedure L M command code st s) (\<lambda>_ s'. connection_step (view (agent s)) (view (agent s')))"
  unfolding procedure_def using assms(2-5)
  by (auto intro!: vsql_m_begin_ok [OF assms(1)] dest!: perform_connection_step)

end

lemma call_procedure_step:
  assumes "cli_contract L" "within_limits L" "sound cc s" "call_procedure (audit L) cc s s'"
  shows "connection_step (view (agent s)) (view (agent s'))"
  using assms(4)
proof (rule call_procedureE)
  fix M command st code x bs
  let ?s = "s\<lparr>sqlstate := x, allocations := bs\<rparr>"
  assume call: "linked cc M" "length command < 32" "generated M st"
    "procedure (audit L) M command code st ?s = Some ((), s')"
  have "sound cc ?s" using assms(3) by simp
  then have "ok (procedure (audit L) M command code st ?s)
      (\<lambda>_ s'. connection_step (view (agent ?s)) (view (agent s')))"
    using call(1-3) unfolding sound_def
    by (intro runtime.procedure_connection_step [OF runtime_audit [OF assms(1,2)]]) auto
  then show ?thesis using call(4) by simp
qed

lemma reachable_view:
  assumes "cli_contract L" "within_limits L" "reachable (audit L) cc (unused w) s"
  shows "connection_step\<^sup>*\<^sup>* ({}, None, {}) (view (agent s))"
  using assms(3)
proof induction
  case starts
  then show ?case by (simp add: initial_def view_def names_def current_name_def active_names_def)
next
  case (calls s s')
  then show ?case
    using call_procedure_step [OF assms(1,2) reachable_invariant [OF assms(1,2)]]
    by (meson rtranclp.rtrancl_into_rtrancl)
qed

lemma machine_single_transaction:
  "connection_step\<^sup>*\<^sup>* ({}, None, {}) x \<Longrightarrow> single_transaction x"
  by (induction rule: rtranclp_induct) (auto simp: single_transaction_def dest!: step_single_transaction)

section \<open>Procedures one after another\<close>

text \<open>The procedures that a program calls, in their order.\<close>

type_synonym procedure_call = "vsql_m_module \<times> string \<times> int \<times> statement"

primrec run :: "'w cli \<Rightarrow> procedure_call list \<Rightarrow> 'w state \<Rightarrow> (unit \<times> 'w state) option" where
  "run L [] s = Some ((), s)"
| "run L (p # ps) s = (case p of (M, command, code, st) \<Rightarrow> do {
     (_, s) \<leftarrow> procedure L M command code st s;
     run L ps s
   })"

definition session_call :: "(nat \<Rightarrow> nat) \<Rightarrow> procedure_call \<Rightarrow> bool" where
  "session_call cc p = (case p of (M, command, code, st) \<Rightarrow>
     linked cc M \<and> length command < 32 \<and> generated M st \<and> in_current_session st)"

lemma run_stays:
  "holds P s \<Longrightarrow> local_property P \<Longrightarrow> \<forall>p\<in>set ps. session_call cc p \<Longrightarrow> wlp (run L ps s) (\<lambda>_. holds P)"
proof (induction ps arbitrary: s)
  case (Cons p ps)
  obtain M command code st where p: "p = (M, command, code, st)" by (cases p)
  have "wlp (procedure L M command code st s) (\<lambda>_. holds P)"
    using Cons.prems p by (intro procedure_stays) (simp_all add: session_call_def)
  then show ?case
    using Cons.prems by (auto simp: p intro: wlp_conseq Cons.IH)
qed simp

lemma run_sound:
  assumes "cli_contract L" "within_limits L"
  shows "sound cc s \<Longrightarrow> \<forall>p\<in>set ps. session_call cc p \<Longrightarrow> ok (run (audit L) ps s) (\<lambda>_. sound cc)"
proof (induction ps arbitrary: s)
  case (Cons p ps)
  obtain M command code st where p: "p = (M, command, code, st)" by (cases p)
  have "ok (procedure (audit L) M command code st (s\<lparr>sqlstate := sqlstate s, allocations := allocations s\<rparr>))
      (\<lambda>_ s'. sound cc s' \<and> length (sqlstate s') = 5)"
    using Cons.prems p by (intro procedure_sound [OF assms]) (simp_all add: session_call_def)
  then show ?case
    using Cons.prems by (auto simp: p elim!: ok_conseq intro: Cons.IH)
qed simp

end
