(* ===== verification/Agent.thy ===== *)
theory Agent
  imports State
begin

text \<open>
  Feature F181, Multiple module support (\<open>vsql_m_agent\<close> of
  \<open>std_2_13_1_sql_client_module_definition.c\<close>): the modules that are linked into a program share
  one SQL-agent, which is the one of the first module that is called, unless they were compiled
  with another version of the runtime.
\<close>

section \<open>Finding the SQL-agent\<close>

text \<open>
  The static data that the modules have before the first one is called, by the address of their
  \<open>vsql_m_own\<close>: its \<open>version\<close>, the pointer \<open>vsql_m_a\<close>, and the pointer of libvsql that
  \<open>vsql_module_agent\<close> gives the address of.
\<close>

record linked_modules =
  version :: "nat \<Rightarrow> int"
  vsql_m_a :: "nat \<Rightarrow> nat option"
  shared :: "nat option"

definition unlinked :: linked_modules where
  "unlinked = \<lparr>version = \<lambda>_. 0, vsql_m_a = \<lambda>_. None, shared = None\<rparr>"

text \<open>
  The function of the module \<open>m\<close>, which was compiled with the \<open>VSQL_M_AGENT_VERSION\<close> \<open>v\<close>. It
  gives the address of the SQL-agent that the module uses.
\<close>

definition VSQL_M_AGENT_VERSION :: int where
  "VSQL_M_AGENT_VERSION = 2"

definition find_agent :: "int \<Rightarrow> nat \<Rightarrow> linked_modules \<Rightarrow> nat \<times> linked_modules" where
  "find_agent v m g = (case vsql_m_a g m of
     Some a \<Rightarrow> (a, g)
   | None \<Rightarrow>
       let g = g\<lparr>version := (version g)(m := v)\<rparr>;
           g = (if shared g = None then g\<lparr>shared := Some m\<rparr> else g);
           a = the (shared g);
           a = (if version g a \<noteq> v then m else a)
       in (a, g\<lparr>vsql_m_a := (vsql_m_a g)(m := Some a)\<rparr>))"

text \<open>The modules are called in the order of a list, and were compiled with the versions \<open>V\<close>.\<close>

fun call_modules :: "(nat \<Rightarrow> int) \<Rightarrow> nat list \<Rightarrow> linked_modules \<Rightarrow> nat list \<times> linked_modules" where
  "call_modules V [] g = ([], g)"
| "call_modules V (m # ms) g = (case find_agent (V m) m g of (a, g) \<Rightarrow>
     case call_modules V ms g of (as, g) \<Rightarrow> (a # as, g))"

section \<open>Which SQL-agent it is\<close>

definition agent_for :: "(nat \<Rightarrow> int) \<Rightarrow> nat \<Rightarrow> nat \<Rightarrow> nat" where
  "agent_for V first m = (if V m = V first then first else m)"

definition agreed :: "(nat \<Rightarrow> int) \<Rightarrow> nat \<Rightarrow> linked_modules \<Rightarrow> bool" where
  "agreed V first g \<longleftrightarrow> shared g = Some first \<and> version g first = V first \<and>
     (\<forall>m a. vsql_m_a g m = Some a \<longrightarrow> a = agent_for V first m)"

lemma find_agent_agreed:
  assumes "agreed V first g"
  shows "find_agent (V m) m g = (a, g') \<Longrightarrow> a = agent_for V first m \<and> agreed V first g'"
  using assms by (auto simp: find_agent_def agreed_def agent_for_def Let_def split: option.splits if_splits)

lemma find_agent_first:
  "find_agent (V m) m unlinked = (a, g) \<Longrightarrow> a = m \<and> agreed V m g"
  by (auto simp: find_agent_def unlinked_def agreed_def agent_for_def Let_def split: if_splits)

lemma call_modules_agreed:
  "agreed V first g \<Longrightarrow> call_modules V ms g = (as, g') \<Longrightarrow>
   as = map (agent_for V first) ms \<and> agreed V first g'"
proof (induction ms arbitrary: g as)
  case (Cons m ms)
  then show ?case
    using find_agent_agreed by (fastforce split: prod.splits)
qed simp

lemma call_modules_agents:
  "fst (call_modules V (m # ms) unlinked) = map (agent_for V m) (m # ms)"
  using find_agent_first [of V m] call_modules_agreed [of V m]
  by (auto simp: agent_for_def split: prod.splits)

end
