(* ===== verification/Routines.thy ===== *)
theory Routines
  imports Items Statements GetDiagnostics Agent Assignment
begin

text \<open>
  Properties of the routines that don't change the SQL-agent: the values of DATA, the retrieval of
  character strings, the scan of a statement, names, the condition of a WHENEVER CONSTRAINT, and
  which SQL-agent a module has.
\<close>

section \<open>SQL descriptor items\<close>





text \<open>
  C23. DATA is never read with another type than it has: for an item that matches the type of the
  target, reading it is defined.
\<close>

theorem get_data_typed:
  assumes "wf_item i" "t \<in> set host_types" "vsql_m_matches i t l True"
    and "\<And>x. data i = Some (CText x) \<Longrightarrow> utf8_piece x"
  shows "\<exists>r. vsql_m_get_data i t len = Some r"
  by (rule get_data_defined [OF assms])

theorem get_data_typed_witness:
  "\<exists>r. vsql_m_get_data (new_item\<lparr>number := (\<lambda>_. 0)(VSQL_M_TYPE := SQL_FLOAT), data := Some (CDouble 7)\<rparr>)
    SQL_DOUBLE 0 = Some r"
  by (rule get_data_typed [of _ _ 0])
    (simp_all add: wf_item_def new_item_def item_c_type_def has_c_type_def host_types_def vsql_m_matches_def
      cast32_def codes)

section \<open>Retrieval\<close>

text \<open>
  C24. \<open>vsql_m_put\<close> puts the longest start of a value with at most \<open>len\<close> characters in the target, pads
  it with spaces to \<open>len\<close> characters, and is truncated if it isn't the whole value, when it fits.
\<close>

theorem put_specification:
  assumes "vsql_m_put n len x = Some (p, truncated)"
  shows "\<exists>q r k. cstr x = q @ r \<and> p = q @ replicate k CHR '' '' \<and> (truncated \<longleftrightarrow> r \<noteq> []) \<and>
    length (filter (\<lambda>c. \<not> continuation c) q) + k = len \<and>
    (r \<noteq> [] \<longrightarrow> k = 0 \<and> \<not> continuation (hd r)) \<and> length p < n"
proof -
  obtain q m r where split: "vsql_m_put_octets len 0 (cstr x) = (q, m, r)" by (metis surj_pair)
  have "p = q @ replicate (len - m) CHR '' ''" "truncated \<longleftrightarrow> r \<noteq> []" "length p < n"
    using assms by (auto simp: vsql_m_put_def split strcpy_def split: if_splits)
  moreover have "r \<noteq> [] \<longrightarrow> \<not> continuation (hd r) \<and> m = len"
    using put_octets_rest [of len 0 "cstr x" q m] split by (cases r) auto
  ultimately show ?thesis
    using put_octets_split [OF split] put_octets_le [OF split]
    by (intro exI [of _ q] exI [of _ r] exI [of _ "len - m"]) auto
qed

theorem put_specification_witness:
  "\<exists>q r k. cstr ''abc'' = q @ r \<and> ''abc  '' = q @ replicate k CHR '' '' \<and> (False \<longleftrightarrow> r \<noteq> [])"
proof -
  have "vsql_m_put 24 5 ''abc'' = Some (''abc  '', False)" by code_simp
  from put_specification [OF this] show ?thesis by blast
qed

text \<open>
  C25. A value of UTF-8 (or the start of one) fits in the buffer of \<open>4 * (len + 1)\<close> octets of a
  target of \<open>len\<close> characters.
\<close>

theorem put_fits:
  assumes "utf8_piece x"
  shows "\<exists>p. vsql_m_put (4 * (len + 1)) len x = Some p"
  by (rule vsql_m_put_fits [OF assms])

theorem put_fits_witness: "\<exists>p. vsql_m_put (4 * (1 + 1)) 1 [CHR 0xE2, CHR 0x82, CHR 0xAC] = Some p"
  by (rule put_fits) code_simp

text \<open>
  A value that isn't UTF-8 can overflow the buffer: 43 octets that continue a character are no
  character at all, so 10 spaces follow them in the 44 octets that a target of CHARACTER(10) has.
\<close>

lemma put_overflows: "vsql_m_put (4 * (10 + 1)) 10 (replicate 43 CHR 0x80) = None"
  by code_simp




section \<open>The scan of a statement\<close>


text \<open>
  The array of 10 characters cuts a word after 9 of them, so the name \<open>intersections\<close> is taken
  for INTERSECT: the scan says of a query specification that selects from a column of that name that
  it is not one.
\<close>

lemma scan_cuts_words:
  "\<not> snd (vsql_m_scan ''SELECT intersections FROM t'') \<and> snd (vsql_m_scan ''SELECT sections FROM t'')"
  by code_simp

section \<open>The size of a column\<close>

text \<open>
  LENGTH of an item has no upper limit, and the size of its buffer is cast to an SQLINTEGER: with
  2 ^ 30 characters SQLGetData is told that the buffer has one octet, so any value that is retrieved
  is empty, and with 2 ^ 29 that its size is negative.
\<close>

lemma long_column_wraps:
  assumes "number i VSQL_M_TYPE = SQL_VARCHAR"
  shows "number i VSQL_M_LENGTH = 2 ^ 30 \<Longrightarrow>
      retrieved SQL_CHAR (snd (vsql_m_c_type i)) (Some (CText x)) = CText ''''"
    "number i VSQL_M_LENGTH = 2 ^ 29 \<Longrightarrow> cast32 (snd (vsql_m_c_type i)) < 0"
  using assms by (simp_all add: vsql_m_c_type_def retrieved_def in_buffer_def cast32_def codes)

section \<open>Names\<close>

text \<open>
  C34. Any name of 1 to 128 characters comes back from its delimited identifier, in which the quotes
  are doubled, with spaces around it, and a longer one is not a name.
\<close>

theorem name_round_trip:
  assumes "n \<noteq> ''''"
  shows "vsql_m_name (replicate i CHR '' '' @ delimited n @ replicate j CHR '' '') =
    (if length n \<le> 128 then n else '''')"
proof -
  have "vsql_m_name (replicate i CHR '' '' @ delimited n @ replicate j CHR '' '') = vsql_m_name (delimited n)"
    unfolding vsql_m_name_def by (simp only: trim_spaces_spaces)
  then show ?thesis using vsql_m_name_delimited_eq [OF assms] by simp
qed

theorem name_round_trip_witness:
  "vsql_m_name (replicate 2 CHR '' '' @ delimited [CHR ''a'', quote, CHR '' ''] @ replicate 1 CHR '' '') =
    [CHR ''a'', quote, CHR '' '']"
  by (subst name_round_trip) simp_all

text \<open>
  C35. A regular identifier is not case sensitive: a string without quotes has the same name in upper
  case, which is itself in upper case without the spaces around it, or is not a name. Any name is at
  most 128 characters, so it fits in the array of 129 characters for it.
\<close>

theorem name_case_insensitive:
  assumes "quote \<notin> set s"
  shows "vsql_m_name (map toupper s) = vsql_m_name s \<and>
    (vsql_m_name s = '''' \<or> vsql_m_name s = map toupper (trim_spaces s)) \<and>
    length (vsql_m_name s) \<le> 128"
  using vsql_m_name_map_toupper [OF assms] vsql_m_name_regular_eq [OF assms] length_vsql_m_name by simp

theorem name_case_insensitive_witness: "vsql_m_name (map toupper ''conn_1'') = vsql_m_name ''conn_1''"
proof -
  have "quote \<notin> set ''conn_1''" by (simp add: quote_def)
  from name_case_insensitive [OF this] show ?thesis by (rule conjunct1)
qed

section \<open>The diagnostics area\<close>

text \<open>
  A WHENEVER CONSTRAINT applies exactly when a condition of the diagnostics area is the violation
  of the constraint, whose catalog can be left out.
\<close>

lemma violated_specification:
  "vsql_m_violated catalog schema name d \<longleftrightarrow>
     (\<exists>k\<in>set (conditions d). k_constraint_name k = Some name \<and> k_constraint_schema k = Some schema \<and>
       (catalog = None \<or> k_constraint_catalog k = catalog))"
  by (simp add: vsql_m_violated_def violated_in_iff)

section \<open>Linked modules\<close>

text \<open>
  C37. All of the modules of a program that were compiled with the version of the first one that is
  called share its SQL-agent, whatever the order of the calls, and a module with another version has
  its own.
\<close>

theorem modules_share:
  "fst (call_modules V (m # ms) unlinked) = map (\<lambda>n. if V n = V m then m else n) (m # ms)"
  using call_modules_agents [of V m ms] by (simp add: agent_for_def)

end
