(* ===== verification/Spec2Isabelle.thy ===== *)
theory Spec2Isabelle
  imports Samples Switching Routines
begin

text \<open>
  The module runtime of vsql: the C code in \<open>src/vsql/\<close> that is compiled with every SQL-client
  module (ISO/IEC 9075-2, 13.1), and executes its SQL-statements with the routines of the SQL/CLI
  that libvsql has. The rest of vsql is written in V.

  \<^bold>\<open>Parts and theories\<close>

  \<^item> \<open>Prelude\<close>: the calculus of routines (\<open>ok\<close>, the collections \<open>wp\<close> and \<open>uses\<close>), C integers
    (\<open>cast16\<close>, \<open>cast32\<close>, \<open>int32\<close>), C strings, \<open>ctype.h\<close>, UTF-8 and linked lists.
  \<^item> \<open>Libvsql\<close>: the codes of \<open>libvsql.h\<close>, the routines of the SQL/CLI as the record \<open>cli\<close>, which is a
    parameter of the model, and the hypotheses about them.
  \<^item> \<open>State\<close>: the structs of \<open>std_2_13_1_sql_client_module_definition.c\<close> as records, the store of
    SQL-connections by their addresses, and the invariant \<open>invar\<close> with the handles that are held.
  \<^item> \<open>Agent\<close> (\<open>vsql_m_agent\<close>), \<open>Diagnostics\<close> (\<open>vsql_m_begin\<close> to \<open>vsql_m_diag\<close>), \<open>Session\<close>
    (\<open>vsql_m_close\<close> to \<open>vsql_m_connection\<close>, \<open>vsql_m_start\<close>, \<open>vsql_m_end\<close>, \<open>vsql_m_exit\<close>), \<open>Names\<close>
    (\<open>vsql_m_name\<close>), \<open>Connect\<close> (\<open>vsql_m_connect\<close>, \<open>vsql_m_set_connection\<close>, \<open>vsql_m_disconnect\<close>)
    and \<open>Exec\<close> (\<open>vsql_m_bind_params\<close> to \<open>vsql_m_execute\<close>): the functions of the same file.
  \<^item> \<open>Retrieval\<close>: \<open>std_2_14_7_select_statement_single_row.c\<close>. \<open>Cursor\<close>: \<open>std_2_14_1_declare_cursor.c\<close>.
  \<^item> \<open>Scan\<close> and \<open>Descriptor\<close>: \<open>std_2_20_1_description_of_sql_descriptor_areas.c\<close>. \<open>Store\<close> is the
    interface of the linked lists with keys.
  \<^item> \<open>Dynamic\<close> (PREPARE to DESCRIBE) and \<open>Using\<close> (the using clauses, EXECUTE, EXECUTE IMMEDIATE,
    dynamic cursors): \<open>std_2_20_7_prepare_statement.c\<close>.
  \<^item> \<open>GetDiagnostics\<close>: \<open>std_2_23_1_get_diagnostics_statement.c\<close> and
    \<open>std_2_21_2_embedded_exception_declaration.c\<close>.
  \<^item> \<open>Monitor\<close>: a libvsql that checks the handles it is given. \<open>Scripted\<close>: a libvsql that can be
    executed. They meet the hypotheses, and instantiate the interfaces.
  \<^item> \<open>Program\<close>: the statements with their arguments, the procedures, and what a program can reach.
  \<^item> \<open>Items\<close> and \<open>Statements\<close>: the SQL descriptor areas and the prepared statements of an
    SQL-session as maps, and the specification of the statements on them.
  \<^item> \<open>Assignment\<close> and \<open>Queries\<close>: what a host parameter is assigned by the characters of its value, the
    cursors that are not open, and the rows of a single row SELECT.
  \<^item> \<open>Isolation\<close>: what every routine leaves of the SQL-agent, by partial correctness (\<open>wlp\<close>, the
    collection \<open>stays\<close>), for any libvsql. \<open>Switching\<close>: the SQL-connections of a program as a machine
    (\<open>connection_step\<close>), its simulation by the procedures, and sequences of procedures (\<open>run\<close>).
  \<^item> \<open>Samples\<close>: concrete states for the witnesses. \<open>Routines\<close> and this theory: the properties.

  \<^bold>\<open>The model\<close>

  A routine has the name of the C function. It takes the libvsql \<open>L\<close>, the static data of its module
  \<open>M\<close>, its arguments and the \<open>state\<close> (the SQL-agent, the first diagnostics area, the status
  parameter, which of the next allocations succeed, and the state of libvsql), and gives its result
  and the new state, or \<open>None\<close> when the C code has undefined behaviour (a pointer or an index that
  isn't valid, a buffer that overflows, a value that isn't initialised or has another type, an
  \<open>int\<close> that overflows) or doesn't return. A part of a long function that has its own definition is
  mapped to its lines. A linked list is a list, and a pointer to a link of it is a position. Loops
  whose end depends on libvsql (\<open>vsql_m_assign_rest\<close>, \<open>count_pieces\<close>, \<open>describe_columns\<close>,
  \<open>vsql_m_close_all\<close>) are partial functions, and are proved to return; there is no fuel.

  \<^bold>\<open>Interfaces\<close>

  \<^item> \<open>handle_monitor\<close>: what an assertion about the allocated handles must satisfy, interpreted by
    \<open>audit\<close> for any libvsql.
  \<^item> \<open>runtime\<close>: that with the hypotheses about libvsql; the rules of every routine are proved in it
    once, by weakest preconditions, and \<open>libvsql\<close> gives it twice, with and without the handles.
  \<^item> \<open>store\<close>: a linked list with keys as a map, interpreted by the SQL descriptor areas
    (\<open>descriptors\<close>) and the prepared statements (\<open>prepared\<close>).

  \<^bold>\<open>Hypotheses about libvsql\<close>

  \<open>cli_contract\<close> is documented behaviour: what a routine that completes writes to its
  output arguments, that a piece of a character value makes its rest shorter, and that a handle is
  not the null handle. \<open>within_limits\<close> are two limits that the runtime needs and
  doesn't check: a message is shorter than 32767 octets, and a result has fewer than 32767 columns.
  \<open>long_message\<close> and \<open>describe_wraps\<close> show what happens otherwise.
  \<open>serves_text\<close>, \<open>serves_texts\<close> and \<open>serves_rows\<close> are what is
  documented of SQLGetData and SQLFetch for the octets of a value and the rows of a query.
  \<open>linked\<close> and \<open>generated\<close> say that the arguments of the routines are the
  ones that the module generator writes.

  \<^bold>\<open>What is proved\<close>

  Every program returns from every statement without undefined behaviour, whatever libvsql answers
  and whichever allocations fail, never uses a handle that isn't allocated, and frees all of them
  when it exits. Its SQL-connections refine a machine in which only the current one has an active
  SQL-transaction, and no statement of an SQL-session changes another one. The connection
  statements, the dynamic SQL statements and the descriptor statements refine their specifications
  on maps of names, with their SQLSTATE. OPEN changes only its own cursor, FETCH and CLOSE need one,
  and a single row SELECT finds out whether there is exactly one row. The character strings of a row
  are assigned as a specification by their characters says, however they are read in pieces. The
  values of DATA and names make a round trip, the scan of a statement agrees with a specification by
  tokens, and texts stay in their buffers when they are UTF-8.

  \<^bold>\<open>Not modelled\<close>

  The implementation of libvsql and the module generator, which are written in V; the memory that the
  strings and the arrays take (whether an allocation succeeds is modelled, and what \<open>free\<close> frees of it
  isn't); the addresses of host variables, which are values here; threads, which the runtime doesn't
  use. The rest of the C code is build glue, tests and examples.
\<close>

section \<open>Any program\<close>



text \<open>
  C2. The runtime never uses a handle that it has not allocated or has freed, and never loses one:
  in every state that a program reaches, the handles that libvsql has allocated are the ones that the
  SQL-agent holds.
\<close>

theorem program_handles:
  assumes "cli_contract L" "within_limits L" "reachable (audit L) cc (unused w) s"
  shows "\<not> misused (world s) \<and> allocated (world s) = held (agent s)"
  using reachable_invariant [OF assms] by (simp add: sound_def invar_def audited_def)

theorem program_handles_witness:
  "\<not> misused (world connected_state) \<and> allocated (world connected_state) = held (agent connected_state)"
  by (rule program_handles [OF scripted_contract scripted_limits samples_reachable(1)])

text \<open>
  C3. In every state that a program reaches, the current SQL-connection is one of the
  SQL-connections, which are at different addresses, have different names (the default one has none)
  that are not empty, and are connected with a handle that is allocated.
\<close>

theorem program_connections:
  assumes "cli_contract L" "within_limits L" "reachable (audit L) cc (unused w) s"
  shows "inj_on conn_name (set (connections (agent s))) \<and> distinct (map c_address (connections (agent s))) \<and>
    set_option (current (agent s)) \<subseteq> c_address ` set (connections (agent s)) \<and>
    (\<forall>k\<in>set (connections (agent s)). c_dbc k \<noteq> 0 \<and> conn_name k \<noteq> Some '''' \<and>
      (SQL_HANDLE_DBC, c_dbc k) \<in># allocated (world s))"
proof -
  have s: "invar audited cc {#} s" "settled (agent s)"
    using reachable_invariant [OF assms] by (simp_all add: sound_def)
  have "(SQL_HANDLE_DBC, c_dbc k) \<in># allocated (world s)" if "k \<in> set (connections (agent s))" for k
    using s that held_dbc [of "c_address k" "agent s"] lookup_unique [of cc "agent s" k]
    by (auto simp: invar_def audited_def settled_def live_def)
  then show ?thesis
    using s inj_conn_name [OF s(2)] settled_named [OF s(2)]
    by (auto simp: invar_def wf_agent_def settled_def)
qed

theorem program_connections_witness:
  "inj_on conn_name (set (connections (agent connected_state))) \<and>
    (SQL_HANDLE_DBC, 2) \<in># allocated (world connected_state)"
  using program_connections [OF scripted_contract scripted_limits samples_reachable(1)]
  by (simp add: connected_state_eq)

text \<open>
  C4. The SQL-connections of a program refine a machine of their own: every procedure returns, and is
  one of its steps on the names of the SQL-connections, the current one, and the ones with an active
  SQL-transaction. A statement of an SQL-session makes or ends the SQL-transaction of the current one,
  or establishes the default SQL-connection when there is none; CONNECT and SET CONNECTION need a
  current one that has no SQL-transaction, and DISCONNECT ones that have none.
\<close>

theorem program_simulates:
  assumes "cli_contract L" "within_limits L" "reachable (audit L) cc (unused w) s"
    and "linked cc M" "generated M st" "length command < 32"
  shows "ok (procedure (audit L) M command code st (s\<lparr>sqlstate := x, allocations := bs\<rparr>))
    (\<lambda>_ s'. connection_step (view (agent s)) (view (agent s')))"
proof -
  obtain s' where "call_procedure (audit L) cc s s'"
    "procedure (audit L) M command code st (s\<lparr>sqlstate := x, allocations := bs\<rparr>) = Some ((), s')"
    by (rule procedure_step [OF assms(1,2) reachable_invariant [OF assms(1-3)] assms(4-6)])
  with call_procedure_step [OF assms(1,2) reachable_invariant [OF assms(1-3)]] show ?thesis by simp
qed

theorem program_simulates_witness:
  "ok (procedure (audit scripted) sample_module ''SET CONNECTION'' 76 (Set_Connection None)
      (second_state\<lparr>sqlstate := '''', allocations := []\<rparr>))
    (\<lambda>_ s'. connection_step (view (agent second_state)) (view (agent s')))"
  by (rule program_simulates [OF scripted_contract scripted_limits second_reachable linked_sample])
    (simp_all add: generated_def)

text \<open>
  C5. Only the current SQL-connection can have an active SQL-transaction, in every state that a
  program reaches.
\<close>

theorem one_transaction:
  assumes "cli_contract L" "within_limits L" "reachable (audit L) cc (unused w) s"
    and "k \<in> set (connections (agent s))" "c_active k"
  shows "current (agent s) = Some (c_address k)"
proof -
  have a: "wf_agent cc (agent s)" "settled (agent s)"
    using reachable_invariant [OF assms(1-3)] by (simp_all add: sound_def invar_def)
  have "conn_name k \<in> set_option (current_name (agent s))"
    using machine_single_transaction [OF reachable_view [OF assms(1-3)]] assms(4,5)
    by (auto simp: single_transaction_def view_def active_names_def)
  then obtain c where c: "current (agent s) = Some c" "conn_name (lookup c (agent s)) = conn_name k"
    by (auto simp: current_name_def)
  have "lookup c (agent s) = k"
    using inj_onD [OF inj_conn_name [OF a(2)] c(2)] lookup_mem [OF wf_agent_current [OF a(1) c(1)]] assms(4)
    by simp
  then show ?thesis
    using c(1) lookup_mem(2) [OF wf_agent_current [OF a(1) c(1)]] by simp
qed

theorem one_transaction_witness:
  "current (agent area_state) = Some (c_address (hd (connections (agent area_state))))"
proof -
  have "hd (connections (agent area_state)) \<in> set (connections (agent area_state))"
    "c_active (hd (connections (agent area_state)))"
    using area_active by simp_all
  then show ?thesis
    by (rule one_transaction [OF scripted_contract scripted_limits samples_reachable(2)])
qed

text \<open>
  C6. SQL-sessions are isolated: whatever procedures a program calls that don't connect, set the
  connection or disconnect, they return, the current SQL-connection stays the same one, with its name,
  its server and its handle, and nothing of any other SQL-connection changes: neither its cursors, its
  prepared statements, its SQL descriptor areas, its schema nor its SQL-transaction.
\<close>

theorem session_isolation:
  assumes "cli_contract L" "within_limits L" "sound cc s" "\<forall>p\<in>set ps. session_call cc p"
    and "current (agent s) = Some c"
  shows "ok (run (audit L) ps s) (\<lambda>_ s'. sound cc s' \<and> current (agent s') = Some c \<and>
    filter (\<lambda>k. c_address k \<noteq> c) (connections (agent s')) =
      filter (\<lambda>k. c_address k \<noteq> c) (connections (agent s)) \<and>
    map identity (connections (agent s')) = map identity (connections (agent s)))"
proof -
  have "wlp (run (audit L) ps s) (\<lambda>_. holds (session_step (agent s)))"
    using session_step_local assms(4) by (intro run_stays) (simp_all add: holds_def session_step_refl)
  from ok_wlp [OF run_sound [OF assms(1-4)] this] show ?thesis
    by (rule ok_conseq) (simp add: holds_def session_step_def others_def assms(5))
qed

theorem session_isolation_witness:
  "ok (run (audit scripted) [(sample_module, ''ALLOCATE DESCRIPTOR'', 2, Allocate_Descriptor ''D'' None 2),
      (sample_module, ''PREPARE'', 56, Prepare_Statement ''S'' ''SELECT 1'')] second_state)
    (\<lambda>_ s'. current (agent s') = Some 2 \<and>
      filter (\<lambda>k. c_address k \<noteq> 2) (connections (agent s')) =
        filter (\<lambda>k. c_address k \<noteq> 2) (connections (agent second_state)))"
proof -
  have "current (agent second_state) = Some 2" using second_connections by simp
  from session_isolation [OF scripted_contract scripted_limits
      reachable_invariant [OF scripted_contract scripted_limits second_reachable] _ this] show ?thesis
    by (rule ok_conseq) (simp_all add: session_call_def linked_sample generated_def in_current_session_def)
qed

text \<open>
  C7. When a program exits, \<open>vsql_m_exit\<close> returns, closes every SQL-connection and frees every
  handle that is allocated, each of them once.
\<close>

theorem exit_frees:
  assumes "cli_contract L" "within_limits L" "reachable (audit L) cc (unused w) s" "ready (agent s)"
  shows "ok (vsql_m_exit (audit L) s) (\<lambda>_ s'. connections (agent s') = [] \<and> \<not> ready (agent s') \<and>
    allocated (world s') = {#} \<and> \<not> misused (world s'))"
  using reachable_invariant [OF assms(1-3)] assms(4) unfolding sound_def
  by (intro runtime.vsql_m_exit_ok [OF runtime_audit [OF assms(1,2)]]) (auto simp: audited_def)

theorem exit_frees_witness:
  "ok (vsql_m_exit (audit scripted) connected_state) (\<lambda>_ s'. connections (agent s') = [] \<and>
    \<not> ready (agent s') \<and> allocated (world s') = {#} \<and> \<not> misused (world s'))"
  by (rule exit_frees [OF scripted_contract scripted_limits samples_reachable(1) connected_ready])

section \<open>Connection statements\<close>

text \<open>
  C8. CONNECT TO refines its specification: it fails with the SQLSTATE that the check of the names,
  the user and the active transaction gives, and changes nothing; or it can't connect, and changes
  nothing; or it succeeds and the new SQL-connection with the name is the current one. It has no
  undefined behaviour, and keeps the invariant of the SQL-agent and of its handles.
\<close>

theorem connect_refines:
  assumes "cli_contract L" "within_limits L" "sound cc s"
  shows "ok (vsql_m_connect (audit L) M server name user s) (\<lambda>_ s'. sound cc s' \<and>
    (connect_check (agent s) server name user \<noteq> ''00000'' \<longrightarrow>
      sqlstate s' = connect_check (agent s) server name user) \<and>
    (connections (agent s') = connections (agent s) \<and> current (agent s') = current (agent s) \<or>
      connect_check (agent s) server name user = ''00000'' \<and> sqlstate s' = ''00000'' \<and>
      (\<exists>k. connections (agent s') = k # connections (agent s) \<and> \<not> c_active k \<and>
        conn_name k = connect_name server name \<and> current (agent s') = Some (c_address k))))"
  using assms(3) unfolding sound_def
  by (auto intro: runtime.vsql_m_connect_ok [OF runtime_audit [OF assms(1,2)]])

theorem connect_refines_witness:
  "ok (vsql_m_connect (audit scripted) sample_module (Some ''db'') None None (playing_state []))
    (\<lambda>_ s'. sound (\<lambda>_. 2) s')"
  using connect_refines [OF scripted_contract scripted_limits sound_initial [of "\<lambda>_. 2"]]
  unfolding playing_state_def by (rule ok_conseq) simp

text \<open>
  C9. SET CONNECTION refines its specification: its SQLSTATE is the one of its check, the
  SQL-connections stay the same, and the SQL-connection with the name is the current one if the check
  succeeds.
\<close>

theorem set_connection_refines:
  assumes "sound cc s"
  shows "ok (vsql_m_set_connection name s) (\<lambda>_ s'. sound cc s' \<and>
    sqlstate s' = set_connection_check (agent s) name \<and> connections (agent s') = connections (agent s) \<and>
    current_name (agent s') = (if set_connection_check (agent s) name = ''00000''
      then Some (map_option vsql_m_name name) else current_name (agent s)))"
  using assms unfolding sound_def by (intro vsql_m_set_connection_ok) auto

theorem set_connection_refines_witness:
  "ok (vsql_m_set_connection (Some ''other'') connected_state) (\<lambda>_ s'. sound (\<lambda>_. 2) s' \<and>
    sqlstate s' = ''08003'' \<and> current_name (agent s') = Some None)"
proof -
  have "set_connection_check (agent connected_state) (Some ''other'') = ''08003''"
    "current_name (agent connected_state) = Some None"
    by (simp_all add: connected_state_eq set_connection_check_def active_def lookup_def names_def
        conn_name_def current_name_def sample_names)
  then show ?thesis
    using set_connection_refines [OF samples_sound(1), of "Some ''other''"] by (elim ok_conseq) simp
qed

text \<open>
  C10. DISCONNECT refines its specification: it fails with the SQLSTATE of its check, or removes
  exactly the SQL-connections that it selects by their names, and the current one stays unless it is
  one of them.
\<close>

theorem disconnect_refines:
  assumes "cli_contract L" "within_limits L" "sound cc s"
  shows "ok (vsql_m_disconnect (audit L) which name s) (\<lambda>_ s'. sound cc s' \<and>
    sqlstate s' = disconnect_check (agent s) which name \<and>
    (if disconnect_check (agent s) which name = ''00000''
     then removed (agent s) (the (selected (agent s) which name)) (agent s')
     else agent s' = (agent s)\<lparr>connected := True\<rparr>))"
  using assms(3) unfolding sound_def
  by (intro runtime.vsql_m_disconnect_ok [OF runtime_audit [OF assms(1,2)]]) auto

theorem disconnect_refines_witness:
  "ok (vsql_m_disconnect (audit scripted) CHR ''A'' '''' connected_state)
    (\<lambda>_ s'. sound (\<lambda>_. 2) s' \<and> sqlstate s' = ''00000'' \<and> names (agent s') = {})"
proof -
  have check: "disconnect_check (agent connected_state) CHR ''A'' '''' = ''00000''"
    "selected (agent connected_state) CHR ''A'' '''' = Some (names (agent connected_state))"
    by (auto simp: connected_state_eq disconnect_check_def selected_def active_names_def)
  show ?thesis
    using disconnect_refines [OF scripted_contract scripted_limits samples_sound(1), of "CHR ''A''" "''''"]
    by (rule ok_conseq) (simp add: check removed_def)
qed



section \<open>Prepared statements\<close>



text \<open>
  C12. DEALLOCATE PREPARE removes the prepared statement of the module with the name (and no other),
  unless an open cursor needs it (24000) or there is none (26000).
\<close>

theorem deallocate_prepare_refines:
  assumes "cli_contract L" "within_limits L" "sound cc s" "in_session M c s" "linked cc M"
  shows "ok (vsql_m_deallocate_prepare (audit L) M name s) (\<lambda>_ s'. sound cc s' \<and>
    (if statements c (agent s) (name, own M) = None
     then sqlstate s' = ''26000'' \<and> statements c (agent s') = statements c (agent s)
     else sqlstate s' = ''24000'' \<and> statements c (agent s') = statements c (agent s) \<or>
       sqlstate s' = ''00000'' \<and> statements c (agent s') = (statements c (agent s))((name, own M) := None)))"
  using assms(3) unfolding sound_def
  by (intro runtime.deallocate_prepare_in_session [OF runtime_audit [OF assms(1,2)] _ _ assms(4,5)]) auto

theorem deallocate_prepare_refines_witness:
  "ok (vsql_m_deallocate_prepare (audit scripted) sample_module ''S1'' connected_state)
    (\<lambda>_ s'. sqlstate s' = ''26000'')"
  by (rule ok_conseq [OF deallocate_prepare_refines [OF scripted_contract scripted_limits samples_sound(1)
      connected_in_session linked_sample]]) (simp add: connected_statements del: One_nat_def)

text \<open>
  C32. EXECUTE, DESCRIBE and OPEN of a name that isn't a prepared statement of the module give 26000,
  and change nothing of the SQL-agent.
\<close>

theorem unknown_statement:
  assumes "cli_contract L" "within_limits L" "sound cc s" "in_session M c s"
    "statements c (agent s) (name, own M) = None"
  shows "ok (vsql_m_execute_prepared (audit L) M name i u s) (\<lambda>r s'. \<not> fst r \<and> agent s' = agent s \<and>
      sqlstate s' = ''26000'') \<and>
    ok (vsql_m_open_dynamic (audit L) M j cursor hold name i s) (\<lambda>_ s'. agent s' = agent s \<and>
      sqlstate s' = ''26000'') \<and>
    ok (vsql_m_describe (audit L) M name area module s) (\<lambda>_ s'. agent s' = agent s \<and>
      sqlstate s' = ''26000'')"
proof -
  have s: "invar audited cc {#} s" "settled (agent s)" using assms(3) by (simp_all add: sound_def)
  note unknown = runtime.unknown_in_session [OF runtime_audit [OF assms(1,2)] s assms(4,5),
      where R = "\<lambda>s'. agent s' = agent s \<and> sqlstate s' = ''26000''"]
  show ?thesis by (intro conjI unknown) simp_all
qed

theorem unknown_statement_witness:
  "ok (vsql_m_describe (audit scripted) sample_module ''S1'' ''D'' None connected_state)
    (\<lambda>_ s'. sqlstate s' = ''26000'')"
proof -
  have "statements 1 (agent connected_state) (''S1'', own sample_module) = None"
    by (simp add: connected_statements del: One_nat_def)
  note unknown_statement [OF scripted_contract scripted_limits samples_sound(1) connected_in_session this]
  from conjunct2 [OF conjunct2 [OF this]] show ?thesis by (rule ok_conseq) simp
qed

text \<open>
  C30. A using clause of host parameters must have as many as the statement has dynamic parameters
  (07001), and there must be one if it has any (07004). Nothing is bound otherwise.
\<close>

theorem bind_checks:
  assumes "sound cc s" "in_descriptor u = None"
    "in_n u < 0 \<and> parameters (tokens sql) > 0 \<or> 0 \<le> in_n u \<and> in_n u \<noteq> int (parameters (tokens sql))"
  shows "ok (vsql_m_bind L M stmt sql u s) (\<lambda>b s'. \<not> b \<and> agent s' = agent s \<and> world s' = world s \<and>
    sqlstate s' = (if in_n u < 0 then ''07004'' else ''07001''))"
proof -
  have status: "ok (vsql_m_status code s) (\<lambda>_ s'. agent s' = agent s \<and> world s' = world s \<and> sqlstate s' = code)"
    if "length code = 5" for code
    using assms(1) that unfolding sound_def by (intro vsql_m_status_ok) auto
  show ?thesis
    using assms(2,3) status [of "''07004''"] status [of "''07001''"]
    by (auto simp: vsql_m_bind_def vsql_m_bind_using_def vsql_m_scan_eq elim!: ok_conseq)
qed

theorem bind_checks_witness:
  "ok (vsql_m_bind (audit scripted) sample_module 3 ''DELETE FROM t WHERE a = ?''
    \<lparr>in_n = -1, in_params = [], in_descriptor = None, in_module = None\<rparr> connected_state)
    (\<lambda>b s'. \<not> b \<and> sqlstate s' = ''07004'')"
proof -
  have "parameters (tokens ''DELETE FROM t WHERE a = ?'') = 1" by code_simp
  then show ?thesis
    by (intro ok_conseq [OF bind_checks [OF samples_sound(1)]]) simp_all
qed

text \<open>
  C38. Reading a value in pieces to find its length returns: each piece makes the rest that libvsql
  has shorter, and the counts stay in a SQLINTEGER.
\<close>

theorem pieces_end:
  assumes "cli_contract L" "within_limits L" "sound cc s" "(SQL_HANDLE_STMT, stmt) \<in># held (agent s)"
  shows "ok (count_pieces (audit L) stmt i 0 0 s) (\<lambda>_ s'. sound cc s' \<and> agent s' = agent s)"
proof -
  obtain \<mu> where \<mu>: "retrieves_text (audit L) \<mu>"
    using cli_contract_audit [OF assms(1)] by (auto simp: cli_contract_def)
  obtain rc v n w where "SQLGetData (audit L) stmt i SQL_CHAR 2 False (world s) = ((rc, v, n), w)"
    by (metis surj_pair)
  from retrieves_textD(1) [OF \<mu> _ this] have "int (\<mu> stmt i (world s)) < 2 ^ 31" by simp
  then show ?thesis
    using assms(3,4) unfolding sound_def
    by (intro runtime.count_pieces_ok [OF runtime_audit [OF assms(1,2)] \<mu>]) auto
qed

theorem pieces_end_witness:
  "ok (count_pieces (audit scripted) 4 1 0 0 prepared_state) (\<lambda>_ s'. agent s' = agent prepared_state)"
  by (rule ok_conseq [OF pieces_end [OF scripted_contract scripted_limits more_samples_sound(2) prepared_held]]) simp



section \<open>Cursors and rows\<close>



text \<open>
  C14. FETCH and CLOSE of a cursor that has no CLI statement give 24000, without calling libvsql. Nothing is
  assigned, and no cursor changes.
\<close>

theorem closed_cursor:
  assumes "cli_contract L" "within_limits L" "sound cc s" "in_session M c s" "linked cc M"
    and "i < vsql_m_cursor_count M" "cursor_stmts c (agent s) (own M, i) = 0"
  shows "ok (vsql_m_fetch (audit L) M i ts s) (\<lambda>r s'. r = (False, ts) \<and> sqlstate s' = ''24000'' \<and>
      world s' = world s \<and> cursor_stmts c (agent s') = cursor_stmts c (agent s)) \<and>
    ok (vsql_m_fetch_dynamic (audit L) M i u s) (\<lambda>r s'. r = (False, u) \<and> sqlstate s' = ''24000'' \<and>
      world s' = world s \<and> cursor_stmts c (agent s') = cursor_stmts c (agent s)) \<and>
    ok (vsql_m_close_cursor (audit L) M i s) (\<lambda>_ s'. sqlstate s' = ''24000'' \<and>
      world s' = world s \<and> cursor_stmts c (agent s') = cursor_stmts c (agent s))"
proof -
  have s: "invar audited cc {#} s" "settled (agent s)" using assms(3) by (simp_all add: sound_def)
  note closed = runtime.fetch_closed [OF runtime_audit [OF assms(1,2)] s assms(4-7),
      where R = "\<lambda>s'. sqlstate s' = ''24000'' \<and> world s' = world s \<and> cursor_stmts c (agent s') = cursor_stmts c (agent s)"]
  show ?thesis by (intro conjI closed) simp_all
qed

theorem closed_cursor_witness:
  "ok (vsql_m_close_cursor (audit scripted) sample_module 0 connected_state) (\<lambda>_ s'. sqlstate s' = ''24000'')"
proof -
  have "0 < vsql_m_cursor_count sample_module" "cursor_stmts 1 (agent connected_state) (own sample_module, 0) = 0"
    by (simp_all add: connected_cursors sample_module_def vsql_m_cursor_count_def del: One_nat_def)
  note closed_cursor [OF scripted_contract scripted_limits samples_sound(1) connected_in_session linked_sample this]
  from conjunct2 [OF conjunct2 [OF this]] show ?thesis by (rule ok_conseq) simp
qed

text \<open>
  C15. With a libvsql that serves the rows of a query, a single row SELECT gives 02000 and assigns nothing
  when there is none, and when it has assigned the first row it gives 21000 exactly when there are more.
  The statement is freed.
\<close>

theorem select_cardinality:
  assumes "cli_contract L" "within_limits L" "serves_rows L stmt left"
    and "invar audited cc {#(SQL_HANDLE_STMT, stmt)#} s" "settled (agent s)" "\<forall>t\<in>set ts. wf_target t"
  shows "ok (vsql_m_select_row (audit L) stmt SQL_SUCCESS ts s) (\<lambda>(good, ts') s'. sound cc s' \<and>
    (if left (inner (world s)) = 0 then \<not> good \<and> ts' = ts \<and> sqlstate s' = ''02000''
     else good \<longrightarrow> (if left (inner (world s)) = 1 then sqlstate s' \<in> {''00000'', ''01004''}
       else sqlstate s' = ''21000'')))"
  unfolding sound_def
  by (rule runtime.select_row_served [OF runtime_audit [OF assms(1,2)] assms(4-6) serves_rows_audit [OF assms(3)]])
    (simp split: if_splits)

theorem select_cardinality_witness:
  "ok (vsql_m_select_row (audit scripted) 9 SQL_SUCCESS [] queried_state)
    (\<lambda>r s'. fst r \<longrightarrow> sqlstate s' = ''21000'')"
proof -
  have "length (rows (inner (world queried_state))) = 2" by (simp add: queried_state_def)
  then show ?thesis
    by (intro ok_conseq [OF select_cardinality [OF scripted_contract scripted_limits scripted_rows queried_invar]])
      auto
qed

section \<open>SQL descriptor areas\<close>

text \<open>
  C16. ALLOCATE DESCRIPTOR refines its specification: the SQL descriptor areas of the SQL-session are
  a map from their names and modules, to which a new area of \<open>n\<close> items is added, unless \<open>n\<close> is not
  from 1 to 32767 (07009) or there is one with the name (33000).
\<close>

theorem allocate_refines:
  assumes "sound cc s" "in_session M c s"
  shows "ok (vsql_m_allocate_descriptor L M name module n s) (\<lambda>_ s'. sound cc s' \<and>
    sqlstate s' = allocate_check (areas c (agent s)) (name, module) n \<and>
    areas c (agent s') = (if sqlstate s' = ''00000''
      then (areas c (agent s))((name, module) \<mapsto> new_descriptor name module n)
      else areas c (agent s)))"
  using assms unfolding sound_def by (intro allocate_in_session [OF _ _ assms(2)]) auto

theorem allocate_refines_witness:
  "ok (vsql_m_allocate_descriptor (audit scripted) sample_module ''D'' None 32767 connected_state) (\<lambda>_ s'.
    sqlstate s' = ''00000'' \<and> areas 1 (agent s') = [(''D'', None) \<mapsto> new_descriptor ''D'' None 32767])"
  by (rule ok_conseq [OF allocate_refines [OF samples_sound(1) connected_in_session]])
    (simp add: connected_areas allocate_check_def del: One_nat_def)

text \<open>
  C17. DEALLOCATE DESCRIPTOR removes the SQL descriptor area with the name from the map, or gives 33000
  if there is none.
\<close>

theorem deallocate_refines:
  assumes "sound cc s" "in_session M c s"
  shows "ok (vsql_m_deallocate_descriptor L M name module s) (\<lambda>_ s'. sound cc s' \<and>
    sqlstate s' = (if areas c (agent s) (name, module) = None then ''33000'' else ''00000'') \<and>
    areas c (agent s') = (areas c (agent s))((name, module) := None))"
  using assms unfolding sound_def by (intro deallocate_in_session [OF _ _ assms(2) refl]) auto

theorem deallocate_refines_witness:
  "ok (vsql_m_deallocate_descriptor (audit scripted) sample_module ''D'' None area_state) (\<lambda>_ s'.
    sqlstate s' = ''00000'' \<and> areas 1 (agent s') = Map.empty)"
  by (rule ok_conseq [OF deallocate_refines [OF samples_sound(2) area_in_session]])
    (simp add: area_areas del: One_nat_def)

text \<open>
  C18. GET DESCRIPTOR finds item \<open>n\<close> of the SQL descriptor area, which must be at most its maximum
  (07009) and its COUNT (02000), and whose DATA must match the type of the target (22005) and have a
  value unless there is an indicator (22002). It never changes an SQL descriptor area.
\<close>

theorem get_item_refines:
  assumes "sound cc s" "in_session M c s"
  shows "ok (vsql_m_get_item L M name module n type len ind s) (\<lambda>p s'. sound cc s' \<and>
    areas c (agent s') = areas c (agent s) \<and>
    (case p of
       None \<Rightarrow> get_check (areas c (agent s) (name, module)) n type len ind = sqlstate s' \<and> sqlstate s' \<noteq> ''00000''
     | Some p \<Rightarrow> get_check (areas c (agent s) (name, module)) n type len ind = ''00000'' \<and>
         item_at p (agent s') \<and>
         (\<exists>d. areas c (agent s) (name, module) = Some d \<and> the_item p (agent s') = d_items d ! nat (n - 1))))"
  using assms unfolding sound_def by (intro get_item_in_session [OF _ _ assms(2) _ _ refl]) auto

theorem get_item_refines_witness:
  "ok (vsql_m_get_item (audit scripted) sample_module ''D'' None 2 0 0 False area_state) (\<lambda>p s'.
    p = None \<and> sqlstate s' = ''02000'')"
  by (rule ok_conseq [OF get_item_refines [OF samples_sound(2) area_in_session]])
    (auto simp: area_areas get_check_def new_descriptor_def cast32_def simp del: One_nat_def split: option.splits)

text \<open>
  C19. SET DESCRIPTOR COUNT changes the COUNT of the SQL descriptor area to a value that is an
  SQLINTEGER (22003), which is not checked against its maximum, and no other area.
\<close>

theorem set_count_refines:
  assumes "sound cc s" "in_session M c s"
  shows "ok (vsql_m_set_count L M name module v s) (\<lambda>_ s'. sound cc s' \<and>
    sqlstate s' = count_check (areas c (agent s) (name, module)) v \<and>
    areas c (agent s') = (if sqlstate s' = ''00000''
      then (areas c (agent s))((name, module) \<mapsto> (the (areas c (agent s) (name, module)))\<lparr>d_count := v\<rparr>)
      else areas c (agent s)))"
  using assms unfolding sound_def by (intro set_count_in_session [OF _ _ assms(2) _ refl]) auto

theorem set_count_refines_witness:
  "ok (vsql_m_set_count (audit scripted) sample_module ''D'' None 70000 area_state) (\<lambda>_ s'. sqlstate s' = ''00000'' \<and>
    map_option d_count (areas 1 (agent s') (''D'', None)) = Some 70000)"
  by (rule ok_conseq [OF set_count_refines [OF samples_sound(2) area_in_session]])
    (simp add: area_areas count_check_def cast32_def del: One_nat_def)

text \<open>
  C20. SET DESCRIPTOR of a number: the value must be an SQLINTEGER (22003), LEVEL can only be 0
  (0700E) and the code of a datetime must be for one (0700F). Otherwise TYPE resets every number to
  the default of the type, and the code of a datetime sets its default precision. DATA is undefined
  after it, even when it fails.
\<close>

theorem set_number_refines:
  assumes "sound cc s" "item_at p (agent s)"
  shows "ok (vsql_m_set_number p n v s) (\<lambda>good s'. sound cc s' \<and> item_at p (agent s') \<and>
    data (the_item p (agent s')) = None \<and>
    good = (number_check (the_item p (agent s)) n v = ''00000'') \<and>
    (\<not> good \<longrightarrow> sqlstate s' = number_check (the_item p (agent s)) n v) \<and>
    number (the_item p (agent s')) = (if good then numbers_after (the_item p (agent s)) n v
      else number (the_item p (agent s))))"
  using assms unfolding sound_def by (intro set_number_effect [OF _ _ assms(2) refl]) auto

theorem set_number_refines_witness:
  "ok (vsql_m_set_number ((1, 0), 1) VSQL_M_TYPE SQL_VARCHAR area_state) (\<lambda>good s'. good \<and>
    number (the_item ((1, 0), 1) (agent s')) VSQL_M_LENGTH = 1)"
  by (rule ok_conseq [OF set_number_refines [OF samples_sound(2) area_item]])
    (simp add: number_check_def numbers_after_def type_defaults_def cast32_def codes)

text \<open>
  C31. An SQL descriptor area is accepted for a using clause of \<open>n\<close> values exactly when its COUNT is
  \<open>n\<close> (and at most its maximum, or it is 07008) and each of those items is valid.
\<close>

theorem items_checks:
  assumes "sound cc s" "descriptor_at p (agent s)" "length code = 5"
  shows "ok (vsql_m_items p n code s) (\<lambda>good s'. agent s' = agent s \<and>
    (let d = the_descriptor p (agent s) in
     (good \<longleftrightarrow> 0 \<le> d_count d \<and> d_count d \<le> d_max d \<and> d_count d = n \<and>
       (\<forall>i<nat n. vsql_m_valid (d_items d ! i))) \<and>
     (\<not> good \<longrightarrow> sqlstate s' = (if d_count d < 0 \<or> d_count d > d_max d then ''07008'' else code))))"
proof -
  let ?d = "the_descriptor p (agent s)"
  have s: "invar audited cc {#} s" using assms(1) by (simp add: sound_def)
  have status: "ok (vsql_m_status st s) (\<lambda>_ s'. agent s' = agent s \<and> sqlstate s' = st)"
    if "length st = 5" for st
    using that by (intro vsql_m_status_ok [OF s]) auto
  have valid: "valid_items k is = Some (\<forall>i<k. vsql_m_valid (is ! i))" if "k \<le> length is" for k "is"
    using that
    by (induction k "is" rule: valid_items.induct) (auto simp: All_less_Suc2)
  have "nat (d_count ?d) \<le> length (d_items ?d)" if "\<not> d_max ?d < d_count ?d"
    using wf_the_descriptor [OF s assms(2)] that by (simp add: wf_descriptor_def)
  note items = valid [OF this]
  show ?thesis
    using status [of "''07008''"] status [OF assms(3)] items
    by (auto simp: vsql_m_items_def deref_descriptor_eq [OF assms(2)] Let_def elim!: ok_conseq)
qed

theorem items_checks_witness:
  "ok (vsql_m_items (1, 0) 1 ''07001'' area_state) (\<lambda>good s'. \<not> good \<and> sqlstate s' = ''07001'')"
proof -
  have "the_descriptor (1, 0) (agent area_state) = (new_descriptor ''D'' None 2)\<lparr>d_count := 1\<rparr>"
    "descriptor_at (1, 0) (agent area_state)"
    using area_descriptor by simp_all
  then show ?thesis
    by (intro ok_conseq [OF items_checks [OF samples_sound(2)]])
      (auto simp: new_descriptor_def new_item_def cast32_def vsql_m_valid_def codes Let_def)
qed

section \<open>Diagnostics\<close>



text \<open>
  C29. After a statement that raised a condition itself, GET DIAGNOSTICS finds exactly that condition,
  with its SQLSTATE and its message.
\<close>

theorem status_diagnosed:
  assumes "sound cc s" "allocations s = []" "state \<noteq> ''00000''" "length state = 5"
  shows "ok (vsql_m_status state s) (\<lambda>_ s'. sqlstate s' = state \<and>
    vsql_m_item_number SQL_DIAG_NUMBER 0 s' = Some 1 \<and>
    vsql_m_item_text SQL_DIAG_SQLSTATE 1 (da s') = Some state \<and>
    vsql_m_item_text SQL_DIAG_MESSAGE_TEXT 1 (da s') = Some (vsql_m_message state))"
  using assms(1) invar_nameable unfolding sound_def
  by (intro status_diagnostics [OF _ assms(2-4)]) blast

theorem status_diagnosed_witness:
  "ok (vsql_m_status ''33000'' connected_state) (\<lambda>_ s'. sqlstate s' = ''33000'' \<and>
    vsql_m_item_text SQL_DIAG_MESSAGE_TEXT 1 (da s') = Some ''invalid SQL descriptor name'')"
proof -
  have "allocations connected_state = []" "vsql_m_message ''33000'' = ''invalid SQL descriptor name''"
    by (simp_all add: connected_state_eq vsql_m_message_def vsql_m_messages_def)
  then show ?thesis
    by (intro ok_conseq [OF status_diagnosed [OF samples_sound(1)]]) (simp_all del: One_nat_def)
qed

text \<open>
  C36. GET DIAGNOSTICS can get every item of every condition from 1 to NUMBER, and its texts and
  numbers of them are defined.
\<close>

theorem diagnostics_defined:
  assumes "sound cc s" "vsql_m_item_number SQL_DIAG_NUMBER 0 s = Some m" "1 \<le> n" "n \<le> m"
  shows "(\<exists>t. vsql_m_item_text item n (da s) = Some t) \<and> (\<exists>k. vsql_m_item_number item n s = Some k)"
proof -
  have n: "n \<le> int (length (conditions (da s)))"
    using assms(2,4) by (simp add: vsql_m_item_number_def)
  show ?thesis
    using assms(1) item_number_defined [OF _ assms(3) n] item_text_defined [OF assms(3) n]
    unfolding sound_def by blast
qed

theorem diagnostics_defined_witness:
  "\<exists>k. vsql_m_item_number SQL_DIAG_MESSAGE_LENGTH 1 raised_state = Some k"
proof -
  have "vsql_m_item_number SQL_DIAG_NUMBER 0 raised_state = Some 1"
    by (simp add: vsql_m_item_number_def raised_condition)
  from diagnostics_defined [OF more_samples_sound(1) this] show ?thesis by simp
qed



end
